(* ===== verification/Dpf_Prelude.thy ===== *)
theory Dpf_Prelude
  imports Main "HOL-Library.Word" "HOL-Library.Monad_Syntax" "HOL-Library.Signed_Division"
begin

text \<open>
  What the components share: machine integers, C arrays of static size with a checked index,
  counted loops, little-endian byte layouts and bit fields.

  Conventions of the whole development.
  \<^item> An operation that can do something the C language leaves undefined (an index outside an
    array, a division by zero, a read past the end of a message) returns an \<open>option\<close>:
    \<open>None\<close> is that undefined behaviour, \<open>Some\<close> an execution that is defined. An
    error code of the source is an ordinary \<open>int\<close> result, negative as in the source.
  \<^item> An array of static size is a function from indices; each access whose index is computed
    goes through \<open>aget\<close> and \<open>aset\<close>, which compare the index with the declared size.
  \<^item> \<open>u8\<close>, \<open>u16\<close>, \<open>u32\<close> and \<open>u64\<close> wrap as their C counterparts do.
\<close>

unbundle bit_operations_syntax

type_synonym u8 = "8 word"
type_synonym u16 = "16 word"
type_synonym u32 = "32 word"
type_synonym u64 = "64 word"
type_synonym bytes = "8 word list"
type_synonym 'a arr = "nat \<Rightarrow> 'a"

abbreviation (input) EINVAL :: int where "EINVAL \<equiv> 22"
abbreviation (input) ENOMEM :: int where "ENOMEM \<equiv> 12"
abbreviation (input) EFAULT :: int where "EFAULT \<equiv> 14"
abbreviation (input) ENODEV :: int where "ENODEV \<equiv> 19"
abbreviation (input) ENOSPC :: int where "ENOSPC \<equiv> 28"
abbreviation (input) ENODATA :: int where "ENODATA \<equiv> 61"

named_theorems layout_simps \<open>offsets and widths of the bit fields\<close>
named_theorems frame_simps \<open>fields that an operation leaves alone\<close>
named_theorems const_simps \<open>named constants of the headers\<close>

section \<open>Arrays of static size\<close>

definition aget :: "int \<Rightarrow> 'a arr \<Rightarrow> int \<Rightarrow> 'a option" where
  "aget N a i = (if 0 \<le> i \<and> i < N then Some (a (nat i)) else None)"

definition aset :: "int \<Rightarrow> 'a arr \<Rightarrow> int \<Rightarrow> 'a \<Rightarrow> 'a arr option" where
  "aset N a i v = (if 0 \<le> i \<and> i < N then Some (a(nat i := v)) else None)"

lemma aget_Some [simp]: "0 \<le> i \<Longrightarrow> i < N \<Longrightarrow> aget N a i = Some (a (nat i))"
  by (simp add: aget_def)

lemma aget_None [simp]: "i < 0 \<or> N \<le> i \<Longrightarrow> aget N a i = None"
  by (auto simp: aget_def)

lemma aset_Some [simp]: "0 \<le> i \<Longrightarrow> i < N \<Longrightarrow> aset N a i v = Some (a(nat i := v))"
  by (simp add: aset_def)

lemma aset_None [simp]: "i < 0 \<or> N \<le> i \<Longrightarrow> aset N a i v = None"
  by (auto simp: aset_def)

lemma aget_eq_Some: "aget N a i = Some x \<longleftrightarrow> 0 \<le> i \<and> i < N \<and> x = a (nat i)"
  by (auto simp: aget_def)

lemma aset_eq_Some: "aset N a i v = Some b \<longleftrightarrow> 0 \<le> i \<and> i < N \<and> b = a(nat i := v)"
  by (auto simp: aset_def)

lemma aget_aset: "aset N a i v = Some b \<Longrightarrow> aget N b j = (if j = i then Some v else aget N a j)"
  by (auto simp: aset_eq_Some aget_def)

lemma all_less_5: "(\<forall>i < 5. P i) \<longleftrightarrow> P 0 \<and> P 1 \<and> P 2 \<and> P 3 \<and> P (4 :: nat)"
  by (simp add: numeral_eq_Suc All_less_Suc conj_ac)

lemma all_less_6: "(\<forall>i < 6. P i) \<longleftrightarrow> P 0 \<and> P 1 \<and> P 2 \<and> P 3 \<and> P 4 \<and> P (5 :: nat)"
  by (simp add: numeral_eq_Suc All_less_Suc conj_ac)

lemma upt_5: "[0..<5] = [0, 1, 2, 3, 4 :: nat]"
  by (simp add: upt_rec)

text \<open>\<open>MAX_NUM_CORES\<close> of \<open>include/msr.h\<close> and of \<open>kernelmod/kernel_common.h\<close>.\<close>

definition MAX_NUM_CORES :: int where [const_simps]: "MAX_NUM_CORES = 512"

text \<open>
  The C type \<open>int\<close>: a value of it is an \<open>int\<close> between \<open>-2^31\<close> and \<open>2^31 - 1\<close>.
  \<open>int32\<close> wraps the result of an addition (the kernel is built with
  \<open>-fno-strict-overflow\<close>), \<open>to_int\<close> converts an unsigned 64-bit value.
\<close>

definition int32 :: "int \<Rightarrow> int" where
  "int32 i = sint (word_of_int i :: u32)"

definition to_int :: "u64 \<Rightarrow> int" where
  "to_int w = sint (ucast w :: u32)"

lemma int32_id: "- (2 ^ 31) \<le> i \<Longrightarrow> i < 2 ^ 31 \<Longrightarrow> int32 i = i"
  by (simp add: int32_def sint_sbintrunc' signed_take_bit_int_eq_self)

section \<open>Counted loops\<close>

text \<open>
  \<open>for (i = lo; i < hi; i++) body\<close>, where the body may hit undefined behaviour.
\<close>

fun for_from :: "nat \<Rightarrow> int \<Rightarrow> (int \<Rightarrow> 's \<Rightarrow> 's option) \<Rightarrow> 's \<Rightarrow> 's option" where
  "for_from 0 i body s = Some s"
| "for_from (Suc n) i body s = Option.bind (body i s) (for_from n (i + 1) body)"

definition for_range :: "int \<Rightarrow> int \<Rightarrow> (int \<Rightarrow> 's \<Rightarrow> 's option) \<Rightarrow> 's \<Rightarrow> 's option" where
  "for_range lo hi body s = for_from (nat (hi - lo)) lo body s"

text \<open>The rule for total correctness of a counted loop.\<close>

lemma for_from_rule:
  assumes "I i s"
    and "\<And>j t. i \<le> j \<Longrightarrow> j < i + int n \<Longrightarrow> I j t \<Longrightarrow> \<exists>t'. body j t = Some t' \<and> I (j + 1) t'"
  shows "\<exists>t. for_from n i body s = Some t \<and> I (i + int n) t"
  using assms
proof (induction n arbitrary: i s)
  case 0
  then show ?case by simp
next
  case (Suc n)
  obtain t where t: "body i s = Some t" "I (i + 1) t"
    using Suc.prems(2) [of i s] Suc.prems(1) by auto
  have "\<exists>u. for_from n (i + 1) body t = Some u \<and> I (i + 1 + int n) u"
    using t(2) Suc.prems(2) by (intro Suc.IH) (auto simp: algebra_simps)
  then show ?case
    using t(1) by (auto simp: algebra_simps)
qed

lemma for_range_rule:
  assumes "I lo s" and "lo \<le> hi"
    and "\<And>j t. lo \<le> j \<Longrightarrow> j < hi \<Longrightarrow> I j t \<Longrightarrow> \<exists>t'. body j t = Some t' \<and> I (j + 1) t'"
  shows "\<exists>t. for_range lo hi body s = Some t \<and> I hi t"
proof -
  have "\<exists>t. for_from (nat (hi - lo)) lo body s = Some t \<and> I (lo + int (nat (hi - lo))) t"
    using assms by (intro for_from_rule) auto
  then show ?thesis
    using assms(2) by (simp add: for_range_def)
qed

text \<open>The rule for a loop that is known to have returned.\<close>

lemma for_from_invariant:
  assumes "for_from n i body s = Some t" and "I i s"
    and "\<And>j u u'. i \<le> j \<Longrightarrow> j < i + int n \<Longrightarrow> I j u \<Longrightarrow> body j u = Some u' \<Longrightarrow> I (j + 1) u'"
  shows "I (i + int n) t"
  using assms
proof (induction n arbitrary: i s)
  case 0
  then show ?case by simp
next
  case (Suc n)
  obtain u where u: "body i s = Some u" "for_from n (i + 1) body u = Some t"
    using Suc.prems(1) by (auto split: bind_splits)
  have "I (i + 1) u"
    using Suc.prems(2) u(1) by (intro Suc.prems(3)) auto
  then have "I (i + 1 + int n) t"
    using u(2) Suc.prems(3) by (intro Suc.IH) auto
  then show ?case by (simp add: algebra_simps)
qed

lemma for_range_invariant:
  assumes "for_range lo hi body s = Some t" and "I s"
    and "\<And>j u u'. lo \<le> j \<Longrightarrow> j < hi \<Longrightarrow> I u \<Longrightarrow> body j u = Some u' \<Longrightarrow> I u'"
  shows "I t"
proof -
  have "for_from (nat (hi - lo)) lo body s = Some t"
    using assms(1) by (simp add: for_range_def)
  then show ?thesis
  proof (rule for_from_invariant [where I = "\<lambda>_. I"])
    show "I s" by (fact assms(2))
  next
    fix j u u'
    assume "lo \<le> j" "j < lo + int (nat (hi - lo))" and u: "I u" "body j u = Some u'"
    then have "lo \<le> j" "j < hi" by linarith+
    from this u show "I u'" by (rule assms(3))
  qed
qed

text \<open>A loop one of whose iterations is undefined in every state is undefined.\<close>

lemma for_from_None:
  assumes "i \<le> j" and "j < i + int n" and "\<And>t. body j t = None"
  shows "for_from n i body s = None"
  using assms
proof (induction n arbitrary: i s)
  case 0
  then show ?case by simp
next
  case (Suc n)
  show ?case
  proof (cases "j = i")
    case True
    then show ?thesis using Suc.prems(3) by simp
  next
    case False
    then have "for_from n (i + 1) body t = None" for t
      using Suc.prems by (intro Suc.IH) auto
    then show ?thesis by (cases "body i s") simp_all
  qed
qed

lemma for_range_None:
  assumes "lo \<le> j" and "j < hi" and "\<And>t. body j t = None"
  shows "for_range lo hi body s = None"
  using for_from_None [of lo j "nat (hi - lo)" body] assms by (simp add: for_range_def)

lemma for_range_empty [simp]: "hi \<le> lo \<Longrightarrow> for_range lo hi body s = Some s"
  by (simp add: for_range_def)

lemma for_range_step:
  "lo < hi \<Longrightarrow> for_range lo hi body s = Option.bind (body lo s) (for_range (lo + 1) hi body)"
proof -
  assume "lo < hi"
  then have "nat (hi - lo) = Suc (nat (hi - (lo + 1)))" by simp
  then show ?thesis by (simp add: for_range_def [abs_def])
qed

section \<open>Little-endian layouts\<close>

text \<open>
  The structures that cross the user/kernel boundary are read and written as bytes on x86-64.
  A read beyond the end of the buffer is undefined behaviour.
\<close>

fun le_bytes :: "nat \<Rightarrow> nat \<Rightarrow> bytes" where
  "le_bytes 0 v = []"
| "le_bytes (Suc n) v = word_of_nat v # le_bytes n (v div 256)"

fun le_val :: "bytes \<Rightarrow> nat" where
  "le_val [] = 0"
| "le_val (b # bs) = unat b + 256 * le_val bs"

definition le32 :: "u32 \<Rightarrow> bytes" where "le32 w = le_bytes 4 (unat w)"
definition le64 :: "u64 \<Rightarrow> bytes" where "le64 w = le_bytes 8 (unat w)"

definition rd_bytes :: "bytes \<Rightarrow> nat \<Rightarrow> nat \<Rightarrow> bytes option" where
  "rd_bytes bs off n = (if off + n \<le> length bs then Some (take n (drop off bs)) else None)"

definition rd_u32 :: "bytes \<Rightarrow> nat \<Rightarrow> u32 option" where
  "rd_u32 bs off = map_option (\<lambda>xs. word_of_nat (le_val xs)) (rd_bytes bs off 4)"

definition rd_u64 :: "bytes \<Rightarrow> nat \<Rightarrow> u64 option" where
  "rd_u64 bs off = map_option (\<lambda>xs. word_of_nat (le_val xs)) (rd_bytes bs off 8)"

lemma length_le_bytes [simp]: "length (le_bytes n v) = n"
  by (induction n arbitrary: v) auto

lemma length_le32 [simp]: "length (le32 w) = 4"
  by (simp add: le32_def)

lemma length_le64 [simp]: "length (le64 w) = 8"
  by (simp add: le64_def)

lemma le_val_le_bytes: "le_val (le_bytes n v) = v mod 256 ^ n"
proof (induction n arbitrary: v)
  case 0
  then show ?case by simp
next
  case (Suc n)
  have "v mod (256 * 256 ^ n) = 256 * (v div 256 mod 256 ^ n) + v mod 256"
    by (rule mod_mult2_eq)
  then show ?case
    using Suc.IH by (simp add: unat_of_nat)
qed

lemma word_le32 [simp]: "word_of_nat (le_val (le32 w)) = w"
proof -
  have "unat w < 256 ^ 4" using unsigned_less [where 'a = nat, of w] by simp
  then show ?thesis by (simp add: le32_def le_val_le_bytes)
qed

lemma word_le64 [simp]: "word_of_nat (le_val (le64 w)) = w"
proof -
  have "unat w < 256 ^ 8" using unsigned_less [where 'a = nat, of w] by simp
  then show ?thesis by (simp add: le64_def le_val_le_bytes)
qed

lemma rd_bytes_append:
  "rd_bytes (xs @ ys) off n =
     (if off + n \<le> length xs then Some (take n (drop off xs))
      else if length xs \<le> off then rd_bytes ys (off - length xs) n
      else rd_bytes (xs @ ys) off n)"
  by (auto simp: rd_bytes_def)

lemma rd_bytes_skip [simp]:
  "length xs \<le> off \<Longrightarrow> rd_bytes (xs @ ys) off n = rd_bytes ys (off - length xs) n"
  by (auto simp: rd_bytes_def)

lemma rd_u32_skip [simp]: "length xs \<le> off \<Longrightarrow> rd_u32 (xs @ ys) off = rd_u32 ys (off - length xs)"
  by (simp add: rd_u32_def)

lemma rd_u64_skip [simp]: "length xs \<le> off \<Longrightarrow> rd_u64 (xs @ ys) off = rd_u64 ys (off - length xs)"
  by (simp add: rd_u64_def)

lemma rd_u32_le32 [simp]: "rd_u32 (le32 w @ ys) 0 = Some w"
  by (simp add: rd_u32_def rd_bytes_def)

lemma rd_u64_le64 [simp]: "rd_u64 (le64 w @ ys) 0 = Some w"
  by (simp add: rd_u64_def rd_bytes_def)

lemma rd_u32_le32_end [simp]: "rd_u32 (le32 w) 0 = Some w"
  by (simp add: rd_u32_def rd_bytes_def)

lemma rd_u64_le64_end [simp]: "rd_u64 (le64 w) 0 = Some w"
  by (simp add: rd_u64_def rd_bytes_def)

lemma rd_u32_None_iff: "rd_u32 bs off = None \<longleftrightarrow> length bs < off + 4"
  by (auto simp: rd_u32_def rd_bytes_def)

lemma rd_u64_None_iff: "rd_u64 bs off = None \<longleftrightarrow> length bs < off + 8"
  by (auto simp: rd_u64_def rd_bytes_def)

section \<open>Bit fields\<close>

text \<open>
  A bit field of a 64-bit register: its offset and its width. Reading zero-extends, writing
  truncates the value to the width and keeps every other bit.
\<close>

record bitfield =
  bf_off :: nat
  bf_width :: nat

definition bf_get :: "bitfield \<Rightarrow> u64 \<Rightarrow> u64" where
  "bf_get f w = take_bit (bf_width f) (drop_bit (bf_off f) w)"

definition bf_set :: "bitfield \<Rightarrow> u64 \<Rightarrow> u64 \<Rightarrow> u64" where
  "bf_set f v w =
     (w AND NOT (push_bit (bf_off f) (mask (bf_width f)))) OR
     push_bit (bf_off f) (take_bit (bf_width f) v)"

definition bf_fits :: "bitfield \<Rightarrow> bool" where
  "bf_fits f \<longleftrightarrow> bf_off f + bf_width f \<le> 64"

definition bf_disjoint :: "bitfield \<Rightarrow> bitfield \<Rightarrow> bool" where
  "bf_disjoint f g \<longleftrightarrow>
     bf_off f + bf_width f \<le> bf_off g \<or> bf_off g + bf_width g \<le> bf_off f"

lemma bit_bf_get: "bit (bf_get f w) n \<longleftrightarrow> n < bf_width f \<and> bit w (bf_off f + n)"
  by (auto simp: bf_get_def bit_take_bit_iff bit_drop_bit_eq)

lemma bit_bf_set:
  "bit (bf_set f v w) n \<longleftrightarrow>
     n < 64 \<and> (if bf_off f \<le> n \<and> n < bf_off f + bf_width f then bit v (n - bf_off f) else bit w n)"
  by (auto simp: bf_set_def bit_simps not_le dest: bit_imp_le_length)

lemma bf_get_set: "bf_fits f \<Longrightarrow> bf_get f (bf_set f v w) = take_bit (bf_width f) v"
  by (rule bit_word_eqI) (auto simp: bit_bf_get bit_bf_set bit_take_bit_iff bf_fits_def)

lemma bf_set_get: "bf_set f (bf_get f w) w = w"
  by (rule bit_word_eqI) (auto simp: bit_bf_get bit_bf_set)

lemma bf_set_set: "bf_set f v (bf_set f u w) = bf_set f v w"
  by (rule bit_word_eqI) (auto simp: bit_bf_set)

lemma bf_get_set_other: "bf_disjoint f g \<Longrightarrow> bf_fits f \<Longrightarrow> bf_get f (bf_set g v w) = bf_get f w"
  by (rule bit_word_eqI) (auto simp: bit_bf_get bit_bf_set bf_disjoint_def bf_fits_def)

lemma bf_set_commute:
  "bf_disjoint f g \<Longrightarrow> bf_set f v (bf_set g u w) = bf_set g u (bf_set f v w)"
  by (rule bit_word_eqI) (auto simp: bit_bf_set bf_disjoint_def)

lemma uint_take_bit_word_of_int:
  "n \<le> 64 \<Longrightarrow> uint (take_bit n (word_of_int v :: u64)) = v mod 2 ^ n"
  by (simp add: unsigned_take_bit_eq take_bit_eq_mod [symmetric] uint_word_of_int_eq min_def)

section \<open>The contract of a register field\<close>

text \<open>
  What every client of a register field relies on: a read returns the value last written,
  normalised to the field's width; writing back what was read changes nothing; the last write
  wins. \<open>field_pair\<close> adds that two fields do not overlap.
\<close>

locale reg_field =
  fixes get :: "'r \<Rightarrow> 'v"
    and put :: "'r \<Rightarrow> 'v \<Rightarrow> 'r"
    and norm :: "'v \<Rightarrow> 'v"
  assumes get_put: "get (put r v) = norm v"
    and put_get: "put r (get r) = r"
    and put_put: "put (put r u) v = put r v"
begin

lemma norm_get: "norm (get r) = get r"
  using get_put [of r "get r"] by (simp add: put_get)

lemma put_norm: "put r (norm v) = put r v"
proof -
  have "put (put r v) (get (put r v)) = put r v" by (rule put_get)
  then show ?thesis by (simp add: get_put put_put)
qed

lemma put_eq_iff: "put r u = put r v \<longleftrightarrow> norm u = norm v"
  by (metis get_put put_norm)

lemma put_same: "norm v = get r \<Longrightarrow> put r v = r"
  by (metis put_norm put_get)

end

locale field_pair =
  a: reg_field geta puta norma + b: reg_field getb putb normb
  for geta :: "'r \<Rightarrow> 'v" and puta norma and getb :: "'r \<Rightarrow> 'w" and putb normb +
  assumes frame_a: "geta (putb r w) = geta r"
    and frame_b: "getb (puta r v) = getb r"
begin

lemma both_written: "geta (putb (puta r v) w) = norma v" "getb (putb (puta r v) w) = normb w"
  by (simp_all add: frame_a a.get_put b.get_put)

end

end
