(* ===== verification/Atom_Msr.thy ===== *)
theory Atom_Msr
  imports Dpf_Prelude
begin

text \<open>
  The hardware prefetch registers of \<open>include/atom_msr.h\<close>. Each \<open>struct msr..._s\<close>
  is its list of members in declaration order with their widths; the compiler allocates them
  from bit 0 upwards (System V ABI), so the position of a member is the sum of the widths before
  it, computed by \<open>bf_at\<close>. A \<open>union msr_u\<close> is the 64-bit value \<open>v\<close> that all its
  members overlay.

  The lemmas show that no member crosses the 64-bit unit, that two members of one structure
  never overlap, and that assigning to a member truncates the value and keeps all other bits.
\<close>

type_synonym layout = "(string \<times> nat) list"
type_synonym msr_u = u64

fun bf_at :: "nat \<Rightarrow> layout \<Rightarrow> string \<Rightarrow> bitfield" where
  "bf_at off [] n = \<lparr>bf_off = off, bf_width = 0\<rparr>"
| "bf_at off ((m, w) # fs) n =
     (if m = n then \<lparr>bf_off = off, bf_width = w\<rparr> else bf_at (off + w) fs n)"

definition bf :: "layout \<Rightarrow> string \<Rightarrow> bitfield" where
  "bf L n = bf_at 0 L n"

definition layout_bits :: "layout \<Rightarrow> nat" where
  "layout_bits L = sum_list (map snd L)"

definition msr1A4_s :: layout where
  "msr1A4_s =
    [(''L2_STREAM_DISABLED'', 1),
     (''L2_ADJACENT_CACHE_LINE_PREFETCHER_DISABLE'', 1),
     (''L1_DATA_STREAM_DISABLED'', 1),
     (''L1_INSTRUCTION_STREAM_DISABLED'', 1),
     (''L1_NEXT_PAGE_DISABLED'', 1),
     (''L2_AMP_DISABLED'', 1),
     (''LLC_PAGE_PREFETCH_DISABLE'', 1),
     (''AOP_PREFETCH_DISABLE'', 1),
     (''STREAM_PREFETCH_CODE_FETCH_DISABLE'', 1),
     (''pad0'', 3),
     (''DYNAMIC_L2PREFETCHER_CONFIG_DISABLE'', 1)]"

definition msr1320_s :: layout where
  "msr1320_s =
    [(''L2_STREAM_AMP_XQ_THRESHOLD'', 5),
     (''pad0'', 1),
     (''INIT_PRE_PENDING'', 3),
     (''SKPAHD_PREF'', 3),
     (''MAX_PREF_PENDING'', 5),
     (''INIT_TRIG_WINDOW'', 3),
     (''L2_STREAM_MAX_DISTANCE'', 5),
     (''TRIG_PREF_HIT'', 3),
     (''pad1'', 2),
     (''L2_AMP_DISABLE_RECURSION'', 1),
     (''DIS_AMP_TRIV_REC'', 1),
     (''L2HL_LLCHL_MIN_DIST'', 5),
     (''LLC_STREAM_MAX_DISTANCE'', 6),
     (''LLC_STREAM_DISABLE'', 1),
     (''LLC_INIT_PREF_PEND'', 3),
     (''LLC_MAX_PREF_PEND'', 5),
     (''pad2'', 1),
     (''LLCPREF_LQ_THRESHOLD'', 5),
     (''LLC_STREAM_XQ_THRESHOLD'', 5)]"

definition msr1321_s :: layout where
  "msr1321_s =
    [(''L2_STREAM_AMP_CREATE_IL1'', 1),
     (''pad0'', 10),
     (''ALTERNATIVE_ISIDE_PREFETCH_ENABLE'', 1),
     (''ALTERNATIVE_KICKSTART_PREFETCHES'', 4),
     (''ALTERNATIVE_REGULAR_PREFETCHES'', 4),
     (''DTP_ENABLE'', 1),
     (''L2_STREAM_DEMAND_DENSITY'', 8),
     (''L2_STREAM_DEMAND_DENSITY_OVR'', 4),
     (''pad1'', 3),
     (''CREATE_PMH'', 1),
     (''pad2'', 3),
     (''L2_DISABLE_NEXT_LINE_PREFETCH'', 1),
     (''L2_LLC_STREAM_AMP_XQ_THRESHOLD'', 6),
     (''pad3'', 16),
     (''RESTORE_L2PREFETCHER_DEFAULTS'', 1)]"

definition msr1322_s :: layout where
  "msr1322_s =
    [(''LLPREF_THROTTLE_ISSUE_FACTOR'', 3),
     (''LLPREF_THROTTLE_HIT_FACTOR'', 3),
     (''LLPREF_UNTHROTTLE_ISSUE_FACTOR'', 3),
     (''LLPREF_UNTHROTTLE_HIT_FACTOR'', 3),
     (''pad0'', 2),
     (''LLC_STREAM_DEMAND_DENSITY'', 9),
     (''LLC_STREAM_DEMAND_DENSITY_OVR'', 4),
     (''L2_AMP_CONFIDENCE_DPT0'', 6),
     (''L2_AMP_CONFIDENCE_DPT1'', 6),
     (''L2_AMP_CONFIDENCE_DPT2'', 6),
     (''L2_AMP_CONFIDENCE_DPT3'', 6),
     (''pad1'', 8),
     (''L2_LLC_STREAM_DEMAND_DENSITY_XQ'', 3)]"

definition msr1323_s :: layout where
  "msr1323_s =
    [(''pad0'', 34),
     (''L2_STREAM_AMP_CREATE_SWPFRFO'', 1),
     (''L2_STREAM_AMP_CREATE_SWPFRD'', 1),
     (''pad1'', 1),
     (''L2_STREAM_AMP_CREATE_HWPFD'', 1),
     (''L2_STREAM_AMP_CREATE_DRFO'', 1),
     (''STABILIZE_PREF_ON_SWPFRFO'', 1),
     (''STABILIZE_PREF_ON_SWPFRD'', 1),
     (''STABILIZE_PREF_ON_IL1'', 1),
     (''pad2'', 1),
     (''STABILIZE_PREF_ON_HWPFD'', 1),
     (''STABILIZE_PREF_ON_DRFO'', 1),
     (''L2_STREAM_AMP_CREATE_PFNPP'', 1),
     (''L2_STREAM_AMP_CREATE_PFIPP'', 1),
     (''STABILIZE_PREF_ON_PFNPP'', 1),
     (''STABILIZE_PREF_ON_PFIPP'', 1)]"

definition msr1324_s :: layout where
  "msr1324_s =
    [(''pad0'', 54),
     (''L1_HOMELESS_THRESHOLD'', 8)]"

definition msr1325_s :: layout where
  "msr1325_s =
    [(''STR_WINDOW_SIZE'', 5),
     (''KICK_START'', 1),
     (''LQ_THRESHOLD'', 5),
     (''pad0'', 3),
     (''AMP_MAX_TRIV_REC_PREF'', 3),
     (''AMP_DELTA_CNT_INC_VAL'', 3),
     (''pad1'', 12),
     (''PREFACC_COUNTER_THRESHOLD'', 8),
     (''PREFACC_DISABLE_LQ2_THRESHOLD'', 5),
     (''PREFACC_DISABLE_XQ_THRESHOLD'', 5),
     (''PREFACC_COUNTER_INCR'', 6),
     (''PREFACC_COUNT'', 3),
     (''PREFACC_DISABLE'', 1)]"

definition msr1326_s :: layout where
  "msr1326_s =
    [(''pad0'', 56),
     (''AMP_RECUR_PREFETCHMINCOUNT'', 6)]"

definition msr1327_s :: layout where
  "msr1327_s =
    [(''RMT_INC'', 4),
     (''RMT_DEC'', 4),
     (''RMT_POSITIVE_SATURATION'', 3),
     (''RMT_POSITIVE_UPPER_QUARTILE'', 3),
     (''RMT_POSITIVE_LOWER_QUARTILE'', 3),
     (''RMT_NEGATIVE_LOWER_QUARTILE'', 3),
     (''RMT_NEGATIVE_UPPER_QUARTILE'', 3),
     (''RMT_NEGATIVE_SATURATION'', 3),
     (''RMT_EN'', 1)]"

definition msr_structs :: "layout list" where
  "msr_structs =
    [msr1A4_s, msr1320_s, msr1321_s, msr1322_s, msr1323_s, msr1324_s, msr1325_s, msr1326_s, msr1327_s]"

definition L2MAXDIST_MAX :: int where [const_simps]: "L2MAXDIST_MAX = 31"
definition L3MAXDIST_MAX :: int where [const_simps]: "L3MAXDIST_MAX = 63"
definition L2XQ_MAX :: int where [const_simps]: "L2XQ_MAX = 31"
definition L3XQ_MAX :: int where [const_simps]: "L3XQ_MAX = 31"

text \<open>Reading and assigning a member of one element of an array of \<open>union msr_u\<close>. The
  assigned \<open>int\<close> is converted to \<open>uint64_t\<close> and cut to the member's width; a read is
  promoted to \<open>int\<close>.\<close>

definition put_field :: "msr_u arr \<Rightarrow> nat \<Rightarrow> bitfield \<Rightarrow> int \<Rightarrow> msr_u arr" where
  "put_field msr k f value = msr(k := bf_set f (word_of_int value) (msr k))"

definition get_field :: "msr_u arr \<Rightarrow> nat \<Rightarrow> bitfield \<Rightarrow> int" where
  "get_field msr k f = uint (bf_get f (msr k))"

definition slot_disjoint :: "nat \<times> bitfield \<Rightarrow> nat \<times> bitfield \<Rightarrow> bool" where
  "slot_disjoint a b \<longleftrightarrow> fst a \<noteq> fst b \<or> bf_disjoint (snd a) (snd b)"

section \<open>Layout\<close>

lemma bf_at_bounds:
  "off \<le> bf_off (bf_at off L n) \<and>
   bf_off (bf_at off L n) + bf_width (bf_at off L n) \<le> off + layout_bits L"
  by (induction off L n rule: bf_at.induct) (auto simp: layout_bits_def)

lemma bf_fits_layout: "layout_bits L \<le> 64 \<Longrightarrow> bf_fits (bf L n)"
  using bf_at_bounds [of 0 L n] by (simp add: bf_fits_def bf_def)

lemma bf_at_disjoint: "m \<noteq> n \<Longrightarrow> bf_disjoint (bf_at off L m) (bf_at off L n)"
proof (induction L arbitrary: off)
  case Nil
  then show ?case by (simp add: bf_disjoint_def)
next
  case (Cons p L)
  obtain k w where p: "p = (k, w)" by (cases p)
  show ?case
    using Cons bf_at_bounds [of "off + w" L m] bf_at_bounds [of "off + w" L n]
    by (auto simp: p bf_disjoint_def)
qed

lemma bf_disjoint_layout: "m \<noteq> n \<Longrightarrow> bf_disjoint (bf L m) (bf L n)"
  by (simp add: bf_def bf_at_disjoint)

lemmas msr_struct_defs = msr1A4_s_def msr1320_s_def msr1321_s_def msr1322_s_def msr1323_s_def msr1324_s_def msr1325_s_def msr1326_s_def msr1327_s_def

lemma msr_struct_bits [layout_simps]:
  "layout_bits msr1A4_s = 13"
  "layout_bits msr1320_s = 63"
  "layout_bits msr1321_s = 64"
  "layout_bits msr1322_s = 62"
  "layout_bits msr1323_s = 49"
  "layout_bits msr1324_s = 62"
  "layout_bits msr1325_s = 60"
  "layout_bits msr1326_s = 62"
  "layout_bits msr1327_s = 27"
  by (simp_all add: layout_bits_def msr_struct_defs)

section \<open>Members of one register file\<close>

lemma get_put_field: "bf_fits f \<Longrightarrow> get_field (put_field m k f v) k f = v mod 2 ^ bf_width f"
  by (simp add: get_field_def put_field_def bf_get_set uint_take_bit_word_of_int bf_fits_def)

lemma put_get_field: "put_field m k f (get_field m k f) = m"
  by (simp add: get_field_def put_field_def bf_set_get)

lemma put_put_field: "put_field (put_field m k f u) k f v = put_field m k f v"
  by (simp add: put_field_def bf_set_set)

lemma get_put_field_other:
  "slot_disjoint (k, f) (l, g) \<Longrightarrow> bf_fits f \<Longrightarrow> get_field (put_field m l g v) k f = get_field m k f"
  by (auto simp: slot_disjoint_def get_field_def put_field_def bf_get_set_other)

lemma put_field_commute:
  "slot_disjoint (k, f) (l, g) \<Longrightarrow>
   put_field (put_field m l g u) k f v = put_field (put_field m k f v) l g u"
  by (cases "k = l") (auto simp: slot_disjoint_def put_field_def bf_set_commute [of f g] fun_upd_twist)

lemma get_field_bounds: "bf_fits f \<Longrightarrow> 0 \<le> get_field m k f \<and> get_field m k f < 2 ^ bf_width f"
  by (metis get_put_field put_get_field pos_mod_bound pos_mod_sign zero_less_numeral zero_less_power)

lemma reg_field_put_field:
  "bf_fits f \<Longrightarrow> reg_field (\<lambda>m. get_field m k f) (\<lambda>m v. put_field m k f v) (\<lambda>v. v mod 2 ^ bf_width f)"
  by (simp add: reg_field_def get_put_field put_get_field put_put_field)

end
