(* ===== verification/Msr.thy ===== *)
theory Msr
  imports Atom_Msr
begin

text \<open>
  The user-space MSR layer, \<open>msr.c\<close>: opening \<open>/dev/cpu/<n>/msr\<close>, reading and writing the
  prefetch registers and the PMU registers through it, the RDT monitoring registers, and the
  accessors of single settings in a core's copy of the registers.

  The operating system is the parameter \<open>msr_os\<close>: what \<open>open\<close> returns for a core, which
  CPU a descriptor belongs to, on which registers \<open>pread\<close> and \<open>pwrite\<close> of eight bytes
  succeed, \<open>errno\<close> after a failure and the time-stamp counter. The registers themselves and
  the descriptor table \<open>msr_file_id\<close> are the state. A call of \<open>exit\<close> is the outcome
  \<open>Exit\<close> with its status, an index outside \<open>msr_file_id\<close> is \<open>Undef\<close>.
\<close>

datatype 'a outcome = Ret 'a | Exit int | Undef

fun obind :: "'a outcome \<Rightarrow> ('a \<Rightarrow> 'b outcome) \<Rightarrow> 'b outcome" where
  "obind (Ret x) k = k x"
| "obind (Exit n) k = Exit n"
| "obind Undef k = Undef"

record msr_os =
  os_open :: "int \<Rightarrow> int"
  os_fd_core :: "int \<Rightarrow> int"
  os_pread_ok :: "int \<Rightarrow> nat \<Rightarrow> bool"
  os_pwrite_ok :: "int \<Rightarrow> nat \<Rightarrow> bool"
  os_errno :: int
  os_tsc :: u64

record msr_sys =
  msr_file_id :: "int arr"
  regs :: "int \<Rightarrow> nat \<Rightarrow> u64"

definition HWPF_MSR_FIELDS :: nat where [const_simps]: "HWPF_MSR_FIELDS = 6"
definition HWPF_MSR_BASE :: nat where [const_simps]: "HWPF_MSR_BASE = 0x1320"
definition HWPF_MSR_0X1A4 :: nat where [const_simps]: "HWPF_MSR_0X1A4 = 0x1A4"
definition MSR_FIXED_CTR0 :: nat where [const_simps]: "MSR_FIXED_CTR0 = 0x309"
definition MSR_FIXED_CTR1 :: nat where [const_simps]: "MSR_FIXED_CTR1 = 0x30A"
definition IA32_FIXED_CTR_CTRL :: nat where [const_simps]: "IA32_FIXED_CTR_CTRL = 0x38D"
definition PQOS_MSR_ASSOC :: nat where [const_simps]: "PQOS_MSR_ASSOC = 0xC8F"
definition PQOS_MSR_MON_EVTSEL :: nat where [const_simps]: "PQOS_MSR_MON_EVTSEL = 0xC8D"
definition PQOS_MSR_MON_QMC :: nat where [const_simps]: "PQOS_MSR_MON_QMC = 0xC8E"
definition PMU_COUNTERS :: int where [const_simps]: "PMU_COUNTERS = 7"
definition PMU_PERFEVTSEL0 :: nat where [const_simps]: "PMU_PERFEVTSEL0 = 0x186"
definition PMU_PMC0 :: nat where [const_simps]: "PMU_PMC0 = 0xc1"
definition EIO :: int where [const_simps]: "EIO = 5"
definition MAB_ALG :: int where [const_simps]: "MAB_ALG = 2"

section \<open>Register access\<close>

definition pread8 :: "msr_os \<Rightarrow> msr_sys \<Rightarrow> int \<Rightarrow> nat \<Rightarrow> u64 option" where
  "pread8 os s fd a = (if os_pread_ok os fd a then Some (regs s (os_fd_core os fd) a) else None)"

definition pwrite8 :: "msr_os \<Rightarrow> msr_sys \<Rightarrow> int \<Rightarrow> nat \<Rightarrow> u64 \<Rightarrow> msr_sys option" where
  "pwrite8 os s fd a v =
     (if os_pwrite_ok os fd a
      then Some (s\<lparr>regs := (regs s)(os_fd_core os fd := (regs s (os_fd_core os fd))(a := v))\<rparr>)
      else None)"

text \<open>A run of writes that stops at the first failure, as the write loops of the file do.\<close>

fun pwrite_all :: "msr_os \<Rightarrow> int \<Rightarrow> (nat \<times> u64) list \<Rightarrow> msr_sys \<Rightarrow> int \<times> msr_sys" where
  "pwrite_all os fd [] s = (0, s)"
| "pwrite_all os fd ((a, v) # ws) s =
     (case pwrite8 os s fd a v of None \<Rightarrow> (-1, s) | Some s' \<Rightarrow> pwrite_all os fd ws s')"

text \<open>A run of reads into consecutive array elements; a failed read ends the process.\<close>

fun pread_all :: "msr_os \<Rightarrow> int \<Rightarrow> (nat \<times> nat) list \<Rightarrow> msr_sys \<Rightarrow> u64 arr \<Rightarrow> u64 arr outcome" where
  "pread_all os fd [] s buf = Ret buf"
| "pread_all os fd ((i, a) # rs) s buf =
     (case pread8 os s fd a of None \<Rightarrow> Exit (-1) | Some v \<Rightarrow> pread_all os fd rs s (buf(i := v)))"

definition msr_open :: "msr_os \<Rightarrow> int \<Rightarrow> int outcome" where
  "msr_open os core = (let msr_file = os_open os core in if msr_file < 0 then Exit (-1) else Ret msr_file)"

definition msr_init :: "msr_os \<Rightarrow> int \<Rightarrow> msr_u arr \<Rightarrow> msr_sys \<Rightarrow> (int \<times> msr_u arr \<times> msr_sys) outcome" where
  "msr_init os core msr s =
     (case aget MAX_NUM_CORES (msr_file_id s) core of None \<Rightarrow> Undef
      | Some fid \<Rightarrow>
          obind (if fid \<noteq> 0 then Ret fid else msr_open os core) (\<lambda>msr_file.
          obind (pread_all os msr_file (map (\<lambda>i. (i, HWPF_MSR_BASE + i)) [0..<HWPF_MSR_FIELDS - 1]) s msr) (\<lambda>msr.
            let s = s\<lparr>msr_file_id := (msr_file_id s)(nat core := msr_file)\<rparr> in
          obind (pread_all os msr_file [(HWPF_MSR_FIELDS - 1, HWPF_MSR_0X1A4)] s msr) (\<lambda>msr.
            Ret (msr_file, msr, s)))))"

definition msr_fixed_int :: "msr_os \<Rightarrow> int \<Rightarrow> int outcome" where
  "msr_fixed_int os core =
     (let msr_file = os_open os core in if msr_file < 0 then Exit (-1) else Ret msr_file)"

definition msr_corepmu_setup :: "msr_os \<Rightarrow> int \<Rightarrow> int \<Rightarrow> u64 arr \<Rightarrow> msr_sys \<Rightarrow> (int \<times> msr_sys) outcome" where
  "msr_corepmu_setup os msr_file nr_events event s =
     (if nr_events > PMU_COUNTERS then Exit (-1)
      else Ret (pwrite_all os msr_file (map (\<lambda>i. (PMU_PERFEVTSEL0 + i, event i)) [0..<nat nr_events]) s))"

text \<open>The results, the instruction count and the cycle count are written through the pointers
  that the caller passes; \<open>tunealg\<close> is the global of \<open>main.c\<close>.\<close>

definition msr_corepmu_read ::
    "msr_os \<Rightarrow> int \<Rightarrow> int \<Rightarrow> int \<Rightarrow> u64 arr \<Rightarrow> u64 \<Rightarrow> u64 \<Rightarrow> msr_sys \<Rightarrow> (int \<times> u64 arr \<times> u64 \<times> u64) outcome" where
  "msr_corepmu_read os tunealg msr_file nr_events res inst_retired cpu_cycles s =
     (if nr_events > PMU_COUNTERS then Exit (-1)
      else obind (if tunealg \<noteq> MAB_ALG
                  then pread_all os msr_file (map (\<lambda>i. (i, PMU_PMC0 + i)) [0..<nat nr_events]) s res
                  else Ret res) (\<lambda>res.
             case pread8 os s msr_file MSR_FIXED_CTR0 of
               None \<Rightarrow> Ret (-1, res, inst_retired, cpu_cycles)
             | Some inst \<Rightarrow> Ret (0, res, inst, os_tsc os)))"

definition msr_enable_fixed :: "msr_os \<Rightarrow> int \<Rightarrow> msr_sys \<Rightarrow> int \<times> msr_sys" where
  "msr_enable_fixed os msr_file s =
     pwrite_all os msr_file [(IA32_FIXED_CTR_CTRL, 0x33), (MSR_FIXED_CTR0, 0), (MSR_FIXED_CTR1, 0)] s"

definition hwpf_writes :: "msr_u arr \<Rightarrow> (nat \<times> u64) list" where
  "hwpf_writes msr =
     map (\<lambda>i. (HWPF_MSR_BASE + i, msr i)) [0..<HWPF_MSR_FIELDS - 1]
     @ [(HWPF_MSR_0X1A4, msr (HWPF_MSR_FIELDS - 1))]"

definition msr_hwpf_write :: "msr_os \<Rightarrow> int \<Rightarrow> msr_u arr \<Rightarrow> msr_sys \<Rightarrow> int \<times> msr_sys" where
  "msr_hwpf_write os msr_file msr s = pwrite_all os msr_file (hwpf_writes msr) s"

section \<open>RDT monitoring registers\<close>

text \<open>A failed read ends the process with status 4 or 127, a failed write with 127 or the
  result \<open>-1\<close>, depending on \<open>errno\<close>.\<close>

definition rdmsr_reg :: "msr_os \<Rightarrow> int \<Rightarrow> nat \<Rightarrow> msr_sys \<Rightarrow> u64 outcome" where
  "rdmsr_reg os core a s =
     (case aget MAX_NUM_CORES (msr_file_id s) core of None \<Rightarrow> Undef
      | Some fd \<Rightarrow> (case pread8 os s fd a of
           Some v \<Rightarrow> Ret v
         | None \<Rightarrow> if os_errno os = EIO then Exit 4 else Exit 127))"

definition wrmsr_reg :: "msr_os \<Rightarrow> int \<Rightarrow> nat \<Rightarrow> u64 \<Rightarrow> msr_sys \<Rightarrow> (int \<times> msr_sys) outcome" where
  "wrmsr_reg os core a v s =
     (case aget MAX_NUM_CORES (msr_file_id s) core of None \<Rightarrow> Undef
      | Some fd \<Rightarrow> (case pwrite8 os s fd a v of
           Some s' \<Rightarrow> Ret (0, s')
         | None \<Rightarrow> if os_errno os = EIO then Ret (-1, s) else Exit 127))"

definition msr_get_rmid :: "msr_os \<Rightarrow> int \<Rightarrow> msr_sys \<Rightarrow> u64 outcome" where
  "msr_get_rmid os core s = rdmsr_reg os core PQOS_MSR_ASSOC s"

definition msr_set_rmid :: "msr_os \<Rightarrow> int \<Rightarrow> u64 \<Rightarrow> msr_sys \<Rightarrow> (int \<times> msr_sys) outcome" where
  "msr_set_rmid os core rmid s = wrmsr_reg os core PQOS_MSR_ASSOC rmid s"

definition msr_get_evtsel :: "msr_os \<Rightarrow> int \<Rightarrow> msr_sys \<Rightarrow> u64 outcome" where
  "msr_get_evtsel os core s = rdmsr_reg os core PQOS_MSR_MON_EVTSEL s"

definition msr_set_evtsel :: "msr_os \<Rightarrow> int \<Rightarrow> u64 \<Rightarrow> msr_sys \<Rightarrow> (int \<times> msr_sys) outcome" where
  "msr_set_evtsel os core event s = wrmsr_reg os core PQOS_MSR_MON_EVTSEL event s"

definition msr_get_mon_count :: "msr_os \<Rightarrow> int \<Rightarrow> msr_sys \<Rightarrow> u64 outcome" where
  "msr_get_mon_count os core s = rdmsr_reg os core PQOS_MSR_MON_QMC s"

section \<open>Accessors of single settings\<close>

definition msr_set_mlc_disable :: "msr_u arr \<Rightarrow> int \<Rightarrow> msr_u arr" where
  "msr_set_mlc_disable msr value = put_field msr 5 (bf msr1A4_s ''L2_STREAM_DISABLED'') value"

definition msr_get_mlc_disable :: "msr_u arr \<Rightarrow> int" where
  "msr_get_mlc_disable msr = get_field msr 5 (bf msr1A4_s ''L2_STREAM_DISABLED'')"

definition msr_set_l1_data_disable :: "msr_u arr \<Rightarrow> int \<Rightarrow> msr_u arr" where
  "msr_set_l1_data_disable msr value = put_field msr 5 (bf msr1A4_s ''L1_DATA_STREAM_DISABLED'') value"

definition msr_get_l1_data_disable :: "msr_u arr \<Rightarrow> int" where
  "msr_get_l1_data_disable msr = get_field msr 5 (bf msr1A4_s ''L1_DATA_STREAM_DISABLED'')"

definition msr_set_l1_instruction_disable :: "msr_u arr \<Rightarrow> int \<Rightarrow> msr_u arr" where
  "msr_set_l1_instruction_disable msr value = put_field msr 5 (bf msr1A4_s ''L1_INSTRUCTION_STREAM_DISABLED'') value"

definition msr_get_l1_instruction_disable :: "msr_u arr \<Rightarrow> int" where
  "msr_get_l1_instruction_disable msr = get_field msr 5 (bf msr1A4_s ''L1_INSTRUCTION_STREAM_DISABLED'')"

definition msr_set_l1_next_page_disable :: "msr_u arr \<Rightarrow> int \<Rightarrow> msr_u arr" where
  "msr_set_l1_next_page_disable msr value = put_field msr 5 (bf msr1A4_s ''L1_NEXT_PAGE_DISABLED'') value"

definition msr_get_l1_next_page_disable :: "msr_u arr \<Rightarrow> int" where
  "msr_get_l1_next_page_disable msr = get_field msr 5 (bf msr1A4_s ''L1_NEXT_PAGE_DISABLED'')"

definition msr_set_amp_disable :: "msr_u arr \<Rightarrow> int \<Rightarrow> msr_u arr" where
  "msr_set_amp_disable msr value = put_field msr 5 (bf msr1A4_s ''L2_AMP_DISABLED'') value"

definition msr_get_amp_disable :: "msr_u arr \<Rightarrow> int" where
  "msr_get_amp_disable msr = get_field msr 5 (bf msr1A4_s ''L2_AMP_DISABLED'')"

definition msr_set_l2xq :: "msr_u arr \<Rightarrow> int \<Rightarrow> msr_u arr" where
  "msr_set_l2xq msr value = put_field msr 0 (bf msr1320_s ''L2_STREAM_AMP_XQ_THRESHOLD'') value"

definition msr_get_l2xq :: "msr_u arr \<Rightarrow> int" where
  "msr_get_l2xq msr = get_field msr 0 (bf msr1320_s ''L2_STREAM_AMP_XQ_THRESHOLD'')"

definition msr_set_l3xq :: "msr_u arr \<Rightarrow> int \<Rightarrow> msr_u arr" where
  "msr_set_l3xq msr value = put_field msr 0 (bf msr1320_s ''LLC_STREAM_XQ_THRESHOLD'') value"

definition msr_get_l3xq :: "msr_u arr \<Rightarrow> int" where
  "msr_get_l3xq msr = get_field msr 0 (bf msr1320_s ''LLC_STREAM_XQ_THRESHOLD'')"

definition msr_set_l2maxdist :: "msr_u arr \<Rightarrow> int \<Rightarrow> msr_u arr" where
  "msr_set_l2maxdist msr value = put_field msr 0 (bf msr1320_s ''L2_STREAM_MAX_DISTANCE'') value"

definition msr_get_l2maxdist :: "msr_u arr \<Rightarrow> int" where
  "msr_get_l2maxdist msr = get_field msr 0 (bf msr1320_s ''L2_STREAM_MAX_DISTANCE'')"

definition msr_set_l3maxdist :: "msr_u arr \<Rightarrow> int \<Rightarrow> msr_u arr" where
  "msr_set_l3maxdist msr value = put_field msr 0 (bf msr1320_s ''LLC_STREAM_MAX_DISTANCE'') value"

definition msr_get_l3maxdist :: "msr_u arr \<Rightarrow> int" where
  "msr_get_l3maxdist msr = get_field msr 0 (bf msr1320_s ''LLC_STREAM_MAX_DISTANCE'')"

definition msr_set_l2adr :: "msr_u arr \<Rightarrow> int \<Rightarrow> msr_u arr" where
  "msr_set_l2adr msr value = put_field msr 0 (bf msr1320_s ''L2_AMP_DISABLE_RECURSION'') value"

definition msr_get_l2adr :: "msr_u arr \<Rightarrow> int" where
  "msr_get_l2adr msr = get_field msr 0 (bf msr1320_s ''L2_AMP_DISABLE_RECURSION'')"

definition msr_set_llcoff :: "msr_u arr \<Rightarrow> int \<Rightarrow> msr_u arr" where
  "msr_set_llcoff msr value = put_field msr 0 (bf msr1320_s ''LLC_STREAM_DISABLE'') value"

definition msr_get_llcoff :: "msr_u arr \<Rightarrow> int" where
  "msr_get_llcoff msr = get_field msr 0 (bf msr1320_s ''LLC_STREAM_DISABLE'')"

definition msr_set_l2sacil1 :: "msr_u arr \<Rightarrow> int \<Rightarrow> msr_u arr" where
  "msr_set_l2sacil1 msr value = put_field msr 1 (bf msr1321_s ''L2_STREAM_AMP_CREATE_IL1'') value"

definition msr_get_l2sacil1 :: "msr_u arr \<Rightarrow> int" where
  "msr_get_l2sacil1 msr = get_field msr 1 (bf msr1321_s ''L2_STREAM_AMP_CREATE_IL1'')"

definition msr_set_l2dd :: "msr_u arr \<Rightarrow> int \<Rightarrow> msr_u arr" where
  "msr_set_l2dd msr value = put_field msr 1 (bf msr1321_s ''L2_STREAM_DEMAND_DENSITY'') value"

definition msr_get_l2dd :: "msr_u arr \<Rightarrow> int" where
  "msr_get_l2dd msr = get_field msr 1 (bf msr1321_s ''L2_STREAM_DEMAND_DENSITY'')"

definition msr_set_l2ddovr :: "msr_u arr \<Rightarrow> int \<Rightarrow> msr_u arr" where
  "msr_set_l2ddovr msr value = put_field msr 1 (bf msr1321_s ''L2_STREAM_DEMAND_DENSITY_OVR'') value"

definition msr_get_l2ddovr :: "msr_u arr \<Rightarrow> int" where
  "msr_get_l2ddovr msr = get_field msr 1 (bf msr1321_s ''L2_STREAM_DEMAND_DENSITY_OVR'')"

definition msr_set_nlpoff :: "msr_u arr \<Rightarrow> int \<Rightarrow> msr_u arr" where
  "msr_set_nlpoff msr value = put_field msr 1 (bf msr1321_s ''L2_DISABLE_NEXT_LINE_PREFETCH'') value"

definition msr_get_nlpoff :: "msr_u arr \<Rightarrow> int" where
  "msr_get_nlpoff msr = get_field msr 1 (bf msr1321_s ''L2_DISABLE_NEXT_LINE_PREFETCH'')"

definition msr_set_l2llcxq :: "msr_u arr \<Rightarrow> int \<Rightarrow> msr_u arr" where
  "msr_set_l2llcxq msr value = put_field msr 1 (bf msr1321_s ''L2_LLC_STREAM_AMP_XQ_THRESHOLD'') value"

definition msr_get_l2llcxq :: "msr_u arr \<Rightarrow> int" where
  "msr_get_l2llcxq msr = get_field msr 1 (bf msr1321_s ''L2_LLC_STREAM_AMP_XQ_THRESHOLD'')"

definition msr_set_l3dd :: "msr_u arr \<Rightarrow> int \<Rightarrow> msr_u arr" where
  "msr_set_l3dd msr value = put_field msr 2 (bf msr1322_s ''LLC_STREAM_DEMAND_DENSITY'') value"

definition msr_get_l3dd :: "msr_u arr \<Rightarrow> int" where
  "msr_get_l3dd msr = get_field msr 2 (bf msr1322_s ''LLC_STREAM_DEMAND_DENSITY'')"

definition msr_set_l3ddovr :: "msr_u arr \<Rightarrow> int \<Rightarrow> msr_u arr" where
  "msr_set_l3ddovr msr value = put_field msr 2 (bf msr1322_s ''LLC_STREAM_DEMAND_DENSITY_OVR'') value"

definition msr_get_l3ddovr :: "msr_u arr \<Rightarrow> int" where
  "msr_get_l3ddovr msr = get_field msr 2 (bf msr1322_s ''LLC_STREAM_DEMAND_DENSITY_OVR'')"

definition msr_set_ampconf0 :: "msr_u arr \<Rightarrow> int \<Rightarrow> msr_u arr" where
  "msr_set_ampconf0 msr value = put_field msr 2 (bf msr1322_s ''L2_AMP_CONFIDENCE_DPT0'') value"

definition msr_get_ampconf0 :: "msr_u arr \<Rightarrow> int" where
  "msr_get_ampconf0 msr = get_field msr 2 (bf msr1322_s ''L2_AMP_CONFIDENCE_DPT0'')"

definition msr_set_ampconf1 :: "msr_u arr \<Rightarrow> int \<Rightarrow> msr_u arr" where
  "msr_set_ampconf1 msr value = put_field msr 2 (bf msr1322_s ''L2_AMP_CONFIDENCE_DPT1'') value"

definition msr_get_ampconf1 :: "msr_u arr \<Rightarrow> int" where
  "msr_get_ampconf1 msr = get_field msr 2 (bf msr1322_s ''L2_AMP_CONFIDENCE_DPT1'')"

definition msr_set_ampconf2 :: "msr_u arr \<Rightarrow> int \<Rightarrow> msr_u arr" where
  "msr_set_ampconf2 msr value = put_field msr 2 (bf msr1322_s ''L2_AMP_CONFIDENCE_DPT2'') value"

definition msr_get_ampconf2 :: "msr_u arr \<Rightarrow> int" where
  "msr_get_ampconf2 msr = get_field msr 2 (bf msr1322_s ''L2_AMP_CONFIDENCE_DPT2'')"

definition msr_set_ampconf3 :: "msr_u arr \<Rightarrow> int \<Rightarrow> msr_u arr" where
  "msr_set_ampconf3 msr value = put_field msr 2 (bf msr1322_s ''L2_AMP_CONFIDENCE_DPT3'') value"

definition msr_get_ampconf3 :: "msr_u arr \<Rightarrow> int" where
  "msr_get_ampconf3 msr = get_field msr 2 (bf msr1322_s ''L2_AMP_CONFIDENCE_DPT3'')"

definition msr_set_l2llcddxq :: "msr_u arr \<Rightarrow> int \<Rightarrow> msr_u arr" where
  "msr_set_l2llcddxq msr value = put_field msr 2 (bf msr1322_s ''L2_LLC_STREAM_DEMAND_DENSITY_XQ'') value"

definition msr_get_l2llcddxq :: "msr_u arr \<Rightarrow> int" where
  "msr_get_l2llcddxq msr = get_field msr 2 (bf msr1322_s ''L2_LLC_STREAM_DEMAND_DENSITY_XQ'')"

definition msr_set_ampcswpfrfo :: "msr_u arr \<Rightarrow> int \<Rightarrow> msr_u arr" where
  "msr_set_ampcswpfrfo msr value = put_field msr 3 (bf msr1323_s ''L2_STREAM_AMP_CREATE_SWPFRFO'') value"

definition msr_get_ampcswpfrfo :: "msr_u arr \<Rightarrow> int" where
  "msr_get_ampcswpfrfo msr = get_field msr 3 (bf msr1323_s ''L2_STREAM_AMP_CREATE_SWPFRFO'')"

definition msr_set_ampcswpfrd :: "msr_u arr \<Rightarrow> int \<Rightarrow> msr_u arr" where
  "msr_set_ampcswpfrd msr value = put_field msr 3 (bf msr1323_s ''L2_STREAM_AMP_CREATE_SWPFRD'') value"

definition msr_get_ampcswpfrd :: "msr_u arr \<Rightarrow> int" where
  "msr_get_ampcswpfrd msr = get_field msr 3 (bf msr1323_s ''L2_STREAM_AMP_CREATE_SWPFRD'')"

definition msr_set_ampchwpfd :: "msr_u arr \<Rightarrow> int \<Rightarrow> msr_u arr" where
  "msr_set_ampchwpfd msr value = put_field msr 3 (bf msr1323_s ''L2_STREAM_AMP_CREATE_HWPFD'') value"

definition msr_get_ampchwpfd :: "msr_u arr \<Rightarrow> int" where
  "msr_get_ampchwpfd msr = get_field msr 3 (bf msr1323_s ''L2_STREAM_AMP_CREATE_HWPFD'')"

definition msr_set_ampcdrfo :: "msr_u arr \<Rightarrow> int \<Rightarrow> msr_u arr" where
  "msr_set_ampcdrfo msr value = put_field msr 3 (bf msr1323_s ''L2_STREAM_AMP_CREATE_DRFO'') value"

definition msr_get_ampcdrfo :: "msr_u arr \<Rightarrow> int" where
  "msr_get_ampcdrfo msr = get_field msr 3 (bf msr1323_s ''L2_STREAM_AMP_CREATE_DRFO'')"

definition msr_set_stabswpfrfo :: "msr_u arr \<Rightarrow> int \<Rightarrow> msr_u arr" where
  "msr_set_stabswpfrfo msr value = put_field msr 3 (bf msr1323_s ''STABILIZE_PREF_ON_SWPFRFO'') value"

definition msr_get_stabswpfrfo :: "msr_u arr \<Rightarrow> int" where
  "msr_get_stabswpfrfo msr = get_field msr 3 (bf msr1323_s ''STABILIZE_PREF_ON_SWPFRFO'')"

definition msr_set_stabswpfrd :: "msr_u arr \<Rightarrow> int \<Rightarrow> msr_u arr" where
  "msr_set_stabswpfrd msr value = put_field msr 3 (bf msr1323_s ''STABILIZE_PREF_ON_SWPFRD'') value"

definition msr_get_stabswpfrd :: "msr_u arr \<Rightarrow> int" where
  "msr_get_stabswpfrd msr = get_field msr 3 (bf msr1323_s ''STABILIZE_PREF_ON_SWPFRD'')"

definition msr_set_stabil1 :: "msr_u arr \<Rightarrow> int \<Rightarrow> msr_u arr" where
  "msr_set_stabil1 msr value = put_field msr 3 (bf msr1323_s ''STABILIZE_PREF_ON_IL1'') value"

definition msr_get_stabil1 :: "msr_u arr \<Rightarrow> int" where
  "msr_get_stabil1 msr = get_field msr 3 (bf msr1323_s ''STABILIZE_PREF_ON_IL1'')"

definition msr_set_stabhwpfd :: "msr_u arr \<Rightarrow> int \<Rightarrow> msr_u arr" where
  "msr_set_stabhwpfd msr value = put_field msr 3 (bf msr1323_s ''STABILIZE_PREF_ON_HWPFD'') value"

definition msr_get_stabhwpfd :: "msr_u arr \<Rightarrow> int" where
  "msr_get_stabhwpfd msr = get_field msr 3 (bf msr1323_s ''STABILIZE_PREF_ON_HWPFD'')"

definition msr_set_stabdrfo :: "msr_u arr \<Rightarrow> int \<Rightarrow> msr_u arr" where
  "msr_set_stabdrfo msr value = put_field msr 3 (bf msr1323_s ''STABILIZE_PREF_ON_DRFO'') value"

definition msr_get_stabdrfo :: "msr_u arr \<Rightarrow> int" where
  "msr_get_stabdrfo msr = get_field msr 3 (bf msr1323_s ''STABILIZE_PREF_ON_DRFO'')"

definition msr_set_ampcpfnpp :: "msr_u arr \<Rightarrow> int \<Rightarrow> msr_u arr" where
  "msr_set_ampcpfnpp msr value = put_field msr 3 (bf msr1323_s ''L2_STREAM_AMP_CREATE_PFNPP'') value"

definition msr_get_ampcpfnpp :: "msr_u arr \<Rightarrow> int" where
  "msr_get_ampcpfnpp msr = get_field msr 3 (bf msr1323_s ''L2_STREAM_AMP_CREATE_PFNPP'')"

definition msr_set_ampcpfipp :: "msr_u arr \<Rightarrow> int \<Rightarrow> msr_u arr" where
  "msr_set_ampcpfipp msr value = put_field msr 3 (bf msr1323_s ''L2_STREAM_AMP_CREATE_PFIPP'') value"

definition msr_get_ampcpfipp :: "msr_u arr \<Rightarrow> int" where
  "msr_get_ampcpfipp msr = get_field msr 3 (bf msr1323_s ''L2_STREAM_AMP_CREATE_PFIPP'')"

definition msr_set_stabpfnpp :: "msr_u arr \<Rightarrow> int \<Rightarrow> msr_u arr" where
  "msr_set_stabpfnpp msr value = put_field msr 3 (bf msr1323_s ''STABILIZE_PREF_ON_PFNPP'') value"

definition msr_get_stabpfnpp :: "msr_u arr \<Rightarrow> int" where
  "msr_get_stabpfnpp msr = get_field msr 3 (bf msr1323_s ''STABILIZE_PREF_ON_PFNPP'')"

definition msr_set_stabpfipp :: "msr_u arr \<Rightarrow> int \<Rightarrow> msr_u arr" where
  "msr_set_stabpfipp msr value = put_field msr 3 (bf msr1323_s ''STABILIZE_PREF_ON_PFIPP'') value"

definition msr_get_stabpfipp :: "msr_u arr \<Rightarrow> int" where
  "msr_get_stabpfipp msr = get_field msr 3 (bf msr1323_s ''STABILIZE_PREF_ON_PFIPP'')"

definition msr_set_l1ht :: "msr_u arr \<Rightarrow> int \<Rightarrow> msr_u arr" where
  "msr_set_l1ht msr value = put_field msr 4 (bf msr1324_s ''L1_HOMELESS_THRESHOLD'') value"

definition msr_get_l1ht :: "msr_u arr \<Rightarrow> int" where
  "msr_get_l1ht msr = get_field msr 4 (bf msr1324_s ''L1_HOMELESS_THRESHOLD'')"

definition L2_STREAM_AMP_XQ_THRESHOLD_1320 :: int where [const_simps]: "L2_STREAM_AMP_XQ_THRESHOLD_1320 = 4"
definition L2_STREAM_MAX_DISTANCE_1320 :: int where [const_simps]: "L2_STREAM_MAX_DISTANCE_1320 = 16"
definition L2_AMP_DISABLE_RECURSION_1320 :: int where [const_simps]: "L2_AMP_DISABLE_RECURSION_1320 = 1"
definition LLC_STREAM_MAX_DISTANCE_1320 :: int where [const_simps]: "LLC_STREAM_MAX_DISTANCE_1320 = 63"
definition LLC_STREAM_DISABLE_1320 :: int where [const_simps]: "LLC_STREAM_DISABLE_1320 = 0"
definition LLC_STREAM_XQ_THRESHOLD_1320 :: int where [const_simps]: "LLC_STREAM_XQ_THRESHOLD_1320 = 4"
definition L2_STREAM_AMP_CREATE_IL1_1321 :: int where [const_simps]: "L2_STREAM_AMP_CREATE_IL1_1321 = 1"
definition L2_STREAM_DEMAND_DENSITY_1321 :: int where [const_simps]: "L2_STREAM_DEMAND_DENSITY_1321 = 16"
definition L2_STREAM_DEMAND_DENSITY_OVR_1321 :: int where [const_simps]: "L2_STREAM_DEMAND_DENSITY_OVR_1321 = 9"
definition L2_DISABLE_NEXT_LINE_PREFETCH_1321 :: int where [const_simps]: "L2_DISABLE_NEXT_LINE_PREFETCH_1321 = 1"
definition L2_LLC_STREAM_AMP_XQ_THRESHOLD_1321 :: int where [const_simps]: "L2_LLC_STREAM_AMP_XQ_THRESHOLD_1321 = 18"
definition LLC_STREAM_DEMAND_DENSITY_1322 :: int where [const_simps]: "LLC_STREAM_DEMAND_DENSITY_1322 = 320"
definition LLC_STREAM_DEMAND_DENSITY_OVR_1322 :: int where [const_simps]: "LLC_STREAM_DEMAND_DENSITY_OVR_1322 = 9"
definition L2_AMP_CONFIDENCE_DPT0_1322 :: int where [const_simps]: "L2_AMP_CONFIDENCE_DPT0_1322 = 1"
definition L2_AMP_CONFIDENCE_DPT1_1322 :: int where [const_simps]: "L2_AMP_CONFIDENCE_DPT1_1322 = 3"
definition L2_AMP_CONFIDENCE_DPT2_1322 :: int where [const_simps]: "L2_AMP_CONFIDENCE_DPT2_1322 = 5"
definition L2_AMP_CONFIDENCE_DPT3_1322 :: int where [const_simps]: "L2_AMP_CONFIDENCE_DPT3_1322 = 7"
definition L2_LLC_STREAM_DEMAND_DENSITY_XQ_1322 :: int where [const_simps]: "L2_LLC_STREAM_DEMAND_DENSITY_XQ_1322 = 5"
definition L2_STREAM_AMP_CREATE_SWPFRFO_1323 :: int where [const_simps]: "L2_STREAM_AMP_CREATE_SWPFRFO_1323 = 1"
definition L2_STREAM_AMP_CREATE_SWPFRD_1323 :: int where [const_simps]: "L2_STREAM_AMP_CREATE_SWPFRD_1323 = 1"
definition L2_STREAM_AMP_CREATE_HWPFD_1323 :: int where [const_simps]: "L2_STREAM_AMP_CREATE_HWPFD_1323 = 0"
definition L2_STREAM_AMP_CREATE_DRFO_1323 :: int where [const_simps]: "L2_STREAM_AMP_CREATE_DRFO_1323 = 1"
definition STABILIZE_PREF_ON_SWPFRFO_1323 :: int where [const_simps]: "STABILIZE_PREF_ON_SWPFRFO_1323 = 1"
definition STABILIZE_PREF_ON_SWPFRD_1323 :: int where [const_simps]: "STABILIZE_PREF_ON_SWPFRD_1323 = 1"
definition STABILIZE_PREF_ON_IL1_1323 :: int where [const_simps]: "STABILIZE_PREF_ON_IL1_1323 = 0"
definition STABILIZE_PREF_ON_HWPFD_1323 :: int where [const_simps]: "STABILIZE_PREF_ON_HWPFD_1323 = 1"
definition STABILIZE_PREF_ON_DRFO_1323 :: int where [const_simps]: "STABILIZE_PREF_ON_DRFO_1323 = 1"
definition L2_STREAM_AMP_CREATE_PFNPP_1323 :: int where [const_simps]: "L2_STREAM_AMP_CREATE_PFNPP_1323 = 1"
definition L2_STREAM_AMP_CREATE_PFIPP_1323 :: int where [const_simps]: "L2_STREAM_AMP_CREATE_PFIPP_1323 = 1"
definition STABILIZE_PREF_ON_PFNPP_1323 :: int where [const_simps]: "STABILIZE_PREF_ON_PFNPP_1323 = 1"
definition STABILIZE_PREF_ON_PFIPP_1323 :: int where [const_simps]: "STABILIZE_PREF_ON_PFIPP_1323 = 1"

definition populate_msr1320 :: "msr_u arr \<Rightarrow> msr_u arr" where
  "populate_msr1320 msr =
     (let msr = put_field msr 0 (bf msr1320_s ''L2_STREAM_AMP_XQ_THRESHOLD'') L2_STREAM_AMP_XQ_THRESHOLD_1320;
          msr = put_field msr 0 (bf msr1320_s ''L2_STREAM_MAX_DISTANCE'') L2_STREAM_MAX_DISTANCE_1320;
          msr = put_field msr 0 (bf msr1320_s ''L2_AMP_DISABLE_RECURSION'') L2_AMP_DISABLE_RECURSION_1320;
          msr = put_field msr 0 (bf msr1320_s ''LLC_STREAM_MAX_DISTANCE'') LLC_STREAM_MAX_DISTANCE_1320;
          msr = put_field msr 0 (bf msr1320_s ''LLC_STREAM_DISABLE'') LLC_STREAM_DISABLE_1320;
          msr = put_field msr 0 (bf msr1320_s ''LLC_STREAM_XQ_THRESHOLD'') LLC_STREAM_XQ_THRESHOLD_1320
      in msr)"

definition populate_msr1321 :: "msr_u arr \<Rightarrow> msr_u arr" where
  "populate_msr1321 msr =
     (let msr = put_field msr 1 (bf msr1321_s ''L2_STREAM_AMP_CREATE_IL1'') L2_STREAM_AMP_CREATE_IL1_1321;
          msr = put_field msr 1 (bf msr1321_s ''L2_STREAM_DEMAND_DENSITY'') L2_STREAM_DEMAND_DENSITY_1321;
          msr = put_field msr 1 (bf msr1321_s ''L2_STREAM_DEMAND_DENSITY_OVR'') L2_STREAM_DEMAND_DENSITY_OVR_1321;
          msr = put_field msr 1 (bf msr1321_s ''L2_DISABLE_NEXT_LINE_PREFETCH'') L2_DISABLE_NEXT_LINE_PREFETCH_1321;
          msr = put_field msr 1 (bf msr1321_s ''L2_LLC_STREAM_AMP_XQ_THRESHOLD'') L2_LLC_STREAM_AMP_XQ_THRESHOLD_1321
      in msr)"

definition populate_msr1322 :: "msr_u arr \<Rightarrow> msr_u arr" where
  "populate_msr1322 msr =
     (let msr = put_field msr 2 (bf msr1322_s ''LLC_STREAM_DEMAND_DENSITY'') LLC_STREAM_DEMAND_DENSITY_1322;
          msr = put_field msr 2 (bf msr1322_s ''LLC_STREAM_DEMAND_DENSITY_OVR'') LLC_STREAM_DEMAND_DENSITY_OVR_1322;
          msr = put_field msr 2 (bf msr1322_s ''L2_AMP_CONFIDENCE_DPT0'') L2_AMP_CONFIDENCE_DPT0_1322;
          msr = put_field msr 2 (bf msr1322_s ''L2_AMP_CONFIDENCE_DPT1'') L2_AMP_CONFIDENCE_DPT1_1322;
          msr = put_field msr 2 (bf msr1322_s ''L2_AMP_CONFIDENCE_DPT2'') L2_AMP_CONFIDENCE_DPT2_1322;
          msr = put_field msr 2 (bf msr1322_s ''L2_AMP_CONFIDENCE_DPT3'') L2_AMP_CONFIDENCE_DPT3_1322;
          msr = put_field msr 2 (bf msr1322_s ''L2_LLC_STREAM_DEMAND_DENSITY_XQ'') L2_LLC_STREAM_DEMAND_DENSITY_XQ_1322
      in msr)"

definition populate_msr1323 :: "msr_u arr \<Rightarrow> msr_u arr" where
  "populate_msr1323 msr =
     (let msr = put_field msr 3 (bf msr1323_s ''L2_STREAM_AMP_CREATE_SWPFRFO'') L2_STREAM_AMP_CREATE_SWPFRFO_1323;
          msr = put_field msr 3 (bf msr1323_s ''L2_STREAM_AMP_CREATE_SWPFRD'') L2_STREAM_AMP_CREATE_SWPFRD_1323;
          msr = put_field msr 3 (bf msr1323_s ''L2_STREAM_AMP_CREATE_HWPFD'') L2_STREAM_AMP_CREATE_HWPFD_1323;
          msr = put_field msr 3 (bf msr1323_s ''L2_STREAM_AMP_CREATE_DRFO'') L2_STREAM_AMP_CREATE_DRFO_1323;
          msr = put_field msr 3 (bf msr1323_s ''STABILIZE_PREF_ON_SWPFRFO'') STABILIZE_PREF_ON_SWPFRFO_1323;
          msr = put_field msr 3 (bf msr1323_s ''STABILIZE_PREF_ON_SWPFRD'') STABILIZE_PREF_ON_SWPFRD_1323;
          msr = put_field msr 3 (bf msr1323_s ''STABILIZE_PREF_ON_IL1'') STABILIZE_PREF_ON_IL1_1323;
          msr = put_field msr 3 (bf msr1323_s ''STABILIZE_PREF_ON_HWPFD'') STABILIZE_PREF_ON_HWPFD_1323;
          msr = put_field msr 3 (bf msr1323_s ''STABILIZE_PREF_ON_DRFO'') STABILIZE_PREF_ON_DRFO_1323;
          msr = put_field msr 3 (bf msr1323_s ''L2_STREAM_AMP_CREATE_PFNPP'') L2_STREAM_AMP_CREATE_PFNPP_1323;
          msr = put_field msr 3 (bf msr1323_s ''L2_STREAM_AMP_CREATE_PFIPP'') L2_STREAM_AMP_CREATE_PFIPP_1323;
          msr = put_field msr 3 (bf msr1323_s ''STABILIZE_PREF_ON_PFNPP'') STABILIZE_PREF_ON_PFNPP_1323;
          msr = put_field msr 3 (bf msr1323_s ''STABILIZE_PREF_ON_PFIPP'') STABILIZE_PREF_ON_PFIPP_1323
      in msr)"

definition msr_slots :: "(nat \<times> bitfield) list" where
  "msr_slots =
    [(5, bf msr1A4_s ''L2_STREAM_DISABLED''),
     (5, bf msr1A4_s ''L1_DATA_STREAM_DISABLED''),
     (5, bf msr1A4_s ''L1_INSTRUCTION_STREAM_DISABLED''),
     (5, bf msr1A4_s ''L1_NEXT_PAGE_DISABLED''),
     (5, bf msr1A4_s ''L2_AMP_DISABLED''),
     (0, bf msr1320_s ''L2_STREAM_AMP_XQ_THRESHOLD''),
     (0, bf msr1320_s ''LLC_STREAM_XQ_THRESHOLD''),
     (0, bf msr1320_s ''L2_STREAM_MAX_DISTANCE''),
     (0, bf msr1320_s ''LLC_STREAM_MAX_DISTANCE''),
     (0, bf msr1320_s ''L2_AMP_DISABLE_RECURSION''),
     (0, bf msr1320_s ''LLC_STREAM_DISABLE''),
     (1, bf msr1321_s ''L2_STREAM_AMP_CREATE_IL1''),
     (1, bf msr1321_s ''L2_STREAM_DEMAND_DENSITY''),
     (1, bf msr1321_s ''L2_STREAM_DEMAND_DENSITY_OVR''),
     (1, bf msr1321_s ''L2_DISABLE_NEXT_LINE_PREFETCH''),
     (1, bf msr1321_s ''L2_LLC_STREAM_AMP_XQ_THRESHOLD''),
     (2, bf msr1322_s ''LLC_STREAM_DEMAND_DENSITY''),
     (2, bf msr1322_s ''LLC_STREAM_DEMAND_DENSITY_OVR''),
     (2, bf msr1322_s ''L2_AMP_CONFIDENCE_DPT0''),
     (2, bf msr1322_s ''L2_AMP_CONFIDENCE_DPT1''),
     (2, bf msr1322_s ''L2_AMP_CONFIDENCE_DPT2''),
     (2, bf msr1322_s ''L2_AMP_CONFIDENCE_DPT3''),
     (2, bf msr1322_s ''L2_LLC_STREAM_DEMAND_DENSITY_XQ''),
     (3, bf msr1323_s ''L2_STREAM_AMP_CREATE_SWPFRFO''),
     (3, bf msr1323_s ''L2_STREAM_AMP_CREATE_SWPFRD''),
     (3, bf msr1323_s ''L2_STREAM_AMP_CREATE_HWPFD''),
     (3, bf msr1323_s ''L2_STREAM_AMP_CREATE_DRFO''),
     (3, bf msr1323_s ''STABILIZE_PREF_ON_SWPFRFO''),
     (3, bf msr1323_s ''STABILIZE_PREF_ON_SWPFRD''),
     (3, bf msr1323_s ''STABILIZE_PREF_ON_IL1''),
     (3, bf msr1323_s ''STABILIZE_PREF_ON_HWPFD''),
     (3, bf msr1323_s ''STABILIZE_PREF_ON_DRFO''),
     (3, bf msr1323_s ''L2_STREAM_AMP_CREATE_PFNPP''),
     (3, bf msr1323_s ''L2_STREAM_AMP_CREATE_PFIPP''),
     (3, bf msr1323_s ''STABILIZE_PREF_ON_PFNPP''),
     (3, bf msr1323_s ''STABILIZE_PREF_ON_PFIPP''),
     (4, bf msr1324_s ''L1_HOMELESS_THRESHOLD'')]"

definition msr_accessors :: "((msr_u arr \<Rightarrow> int \<Rightarrow> msr_u arr) \<times> (msr_u arr \<Rightarrow> int)) list" where
  "msr_accessors =
    [(msr_set_mlc_disable, msr_get_mlc_disable),
     (msr_set_l1_data_disable, msr_get_l1_data_disable),
     (msr_set_l1_instruction_disable, msr_get_l1_instruction_disable),
     (msr_set_l1_next_page_disable, msr_get_l1_next_page_disable),
     (msr_set_amp_disable, msr_get_amp_disable),
     (msr_set_l2xq, msr_get_l2xq),
     (msr_set_l3xq, msr_get_l3xq),
     (msr_set_l2maxdist, msr_get_l2maxdist),
     (msr_set_l3maxdist, msr_get_l3maxdist),
     (msr_set_l2adr, msr_get_l2adr),
     (msr_set_llcoff, msr_get_llcoff),
     (msr_set_l2sacil1, msr_get_l2sacil1),
     (msr_set_l2dd, msr_get_l2dd),
     (msr_set_l2ddovr, msr_get_l2ddovr),
     (msr_set_nlpoff, msr_get_nlpoff),
     (msr_set_l2llcxq, msr_get_l2llcxq),
     (msr_set_l3dd, msr_get_l3dd),
     (msr_set_l3ddovr, msr_get_l3ddovr),
     (msr_set_ampconf0, msr_get_ampconf0),
     (msr_set_ampconf1, msr_get_ampconf1),
     (msr_set_ampconf2, msr_get_ampconf2),
     (msr_set_ampconf3, msr_get_ampconf3),
     (msr_set_l2llcddxq, msr_get_l2llcddxq),
     (msr_set_ampcswpfrfo, msr_get_ampcswpfrfo),
     (msr_set_ampcswpfrd, msr_get_ampcswpfrd),
     (msr_set_ampchwpfd, msr_get_ampchwpfd),
     (msr_set_ampcdrfo, msr_get_ampcdrfo),
     (msr_set_stabswpfrfo, msr_get_stabswpfrfo),
     (msr_set_stabswpfrd, msr_get_stabswpfrd),
     (msr_set_stabil1, msr_get_stabil1),
     (msr_set_stabhwpfd, msr_get_stabhwpfd),
     (msr_set_stabdrfo, msr_get_stabdrfo),
     (msr_set_ampcpfnpp, msr_get_ampcpfnpp),
     (msr_set_ampcpfipp, msr_get_ampcpfipp),
     (msr_set_stabpfnpp, msr_get_stabpfnpp),
     (msr_set_stabpfipp, msr_get_stabpfipp),
     (msr_set_l1ht, msr_get_l1ht)]"

definition msr_defaults :: "((msr_u arr \<Rightarrow> int) \<times> int) list" where
  "msr_defaults =
    [(msr_get_l2xq, L2_STREAM_AMP_XQ_THRESHOLD_1320),
     (msr_get_l2maxdist, L2_STREAM_MAX_DISTANCE_1320),
     (msr_get_l2adr, L2_AMP_DISABLE_RECURSION_1320),
     (msr_get_l3maxdist, LLC_STREAM_MAX_DISTANCE_1320),
     (msr_get_llcoff, LLC_STREAM_DISABLE_1320),
     (msr_get_l3xq, LLC_STREAM_XQ_THRESHOLD_1320),
     (msr_get_l2sacil1, L2_STREAM_AMP_CREATE_IL1_1321),
     (msr_get_l2dd, L2_STREAM_DEMAND_DENSITY_1321),
     (msr_get_l2ddovr, L2_STREAM_DEMAND_DENSITY_OVR_1321),
     (msr_get_nlpoff, L2_DISABLE_NEXT_LINE_PREFETCH_1321),
     (msr_get_l2llcxq, L2_LLC_STREAM_AMP_XQ_THRESHOLD_1321),
     (msr_get_l3dd, LLC_STREAM_DEMAND_DENSITY_1322),
     (msr_get_l3ddovr, LLC_STREAM_DEMAND_DENSITY_OVR_1322),
     (msr_get_ampconf0, L2_AMP_CONFIDENCE_DPT0_1322),
     (msr_get_ampconf1, L2_AMP_CONFIDENCE_DPT1_1322),
     (msr_get_ampconf2, L2_AMP_CONFIDENCE_DPT2_1322),
     (msr_get_ampconf3, L2_AMP_CONFIDENCE_DPT3_1322),
     (msr_get_l2llcddxq, L2_LLC_STREAM_DEMAND_DENSITY_XQ_1322),
     (msr_get_ampcswpfrfo, L2_STREAM_AMP_CREATE_SWPFRFO_1323),
     (msr_get_ampcswpfrd, L2_STREAM_AMP_CREATE_SWPFRD_1323),
     (msr_get_ampchwpfd, L2_STREAM_AMP_CREATE_HWPFD_1323),
     (msr_get_ampcdrfo, L2_STREAM_AMP_CREATE_DRFO_1323),
     (msr_get_stabswpfrfo, STABILIZE_PREF_ON_SWPFRFO_1323),
     (msr_get_stabswpfrd, STABILIZE_PREF_ON_SWPFRD_1323),
     (msr_get_stabil1, STABILIZE_PREF_ON_IL1_1323),
     (msr_get_stabhwpfd, STABILIZE_PREF_ON_HWPFD_1323),
     (msr_get_stabdrfo, STABILIZE_PREF_ON_DRFO_1323),
     (msr_get_ampcpfnpp, L2_STREAM_AMP_CREATE_PFNPP_1323),
     (msr_get_ampcpfipp, L2_STREAM_AMP_CREATE_PFIPP_1323),
     (msr_get_stabpfnpp, STABILIZE_PREF_ON_PFNPP_1323),
     (msr_get_stabpfipp, STABILIZE_PREF_ON_PFIPP_1323)]"

text \<open>\<open>populate_msr_u\<close> of \<open>tuners/mab_setup.c\<close>: the defaults of all four registers.\<close>

definition populate_msr_u :: "msr_u arr \<Rightarrow> msr_u arr" where
  "populate_msr_u msr = populate_msr1323 (populate_msr1322 (populate_msr1321 (populate_msr1320 msr)))"

section \<open>The accessor table\<close>

lemma msr1A4_s_members [layout_simps]:
  "bf msr1A4_s ''L2_STREAM_DISABLED'' = \<lparr>bf_off = 0, bf_width = 1\<rparr>"
  "bf msr1A4_s ''L1_DATA_STREAM_DISABLED'' = \<lparr>bf_off = 2, bf_width = 1\<rparr>"
  "bf msr1A4_s ''L1_INSTRUCTION_STREAM_DISABLED'' = \<lparr>bf_off = 3, bf_width = 1\<rparr>"
  "bf msr1A4_s ''L1_NEXT_PAGE_DISABLED'' = \<lparr>bf_off = 4, bf_width = 1\<rparr>"
  "bf msr1A4_s ''L2_AMP_DISABLED'' = \<lparr>bf_off = 5, bf_width = 1\<rparr>"
  by (simp_all add: bf_def msr1A4_s_def)

lemma msr1320_s_members [layout_simps]:
  "bf msr1320_s ''L2_STREAM_AMP_XQ_THRESHOLD'' = \<lparr>bf_off = 0, bf_width = 5\<rparr>"
  "bf msr1320_s ''L2_STREAM_MAX_DISTANCE'' = \<lparr>bf_off = 20, bf_width = 5\<rparr>"
  "bf msr1320_s ''L2_AMP_DISABLE_RECURSION'' = \<lparr>bf_off = 30, bf_width = 1\<rparr>"
  "bf msr1320_s ''LLC_STREAM_MAX_DISTANCE'' = \<lparr>bf_off = 37, bf_width = 6\<rparr>"
  "bf msr1320_s ''LLC_STREAM_DISABLE'' = \<lparr>bf_off = 43, bf_width = 1\<rparr>"
  "bf msr1320_s ''LLC_STREAM_XQ_THRESHOLD'' = \<lparr>bf_off = 58, bf_width = 5\<rparr>"
  by (simp_all add: bf_def msr1320_s_def)

lemma msr1321_s_members [layout_simps]:
  "bf msr1321_s ''L2_STREAM_AMP_CREATE_IL1'' = \<lparr>bf_off = 0, bf_width = 1\<rparr>"
  "bf msr1321_s ''L2_STREAM_DEMAND_DENSITY'' = \<lparr>bf_off = 21, bf_width = 8\<rparr>"
  "bf msr1321_s ''L2_STREAM_DEMAND_DENSITY_OVR'' = \<lparr>bf_off = 29, bf_width = 4\<rparr>"
  "bf msr1321_s ''L2_DISABLE_NEXT_LINE_PREFETCH'' = \<lparr>bf_off = 40, bf_width = 1\<rparr>"
  "bf msr1321_s ''L2_LLC_STREAM_AMP_XQ_THRESHOLD'' = \<lparr>bf_off = 41, bf_width = 6\<rparr>"
  by (simp_all add: bf_def msr1321_s_def)

lemma msr1322_s_members [layout_simps]:
  "bf msr1322_s ''LLC_STREAM_DEMAND_DENSITY'' = \<lparr>bf_off = 14, bf_width = 9\<rparr>"
  "bf msr1322_s ''LLC_STREAM_DEMAND_DENSITY_OVR'' = \<lparr>bf_off = 23, bf_width = 4\<rparr>"
  "bf msr1322_s ''L2_AMP_CONFIDENCE_DPT0'' = \<lparr>bf_off = 27, bf_width = 6\<rparr>"
  "bf msr1322_s ''L2_AMP_CONFIDENCE_DPT1'' = \<lparr>bf_off = 33, bf_width = 6\<rparr>"
  "bf msr1322_s ''L2_AMP_CONFIDENCE_DPT2'' = \<lparr>bf_off = 39, bf_width = 6\<rparr>"
  "bf msr1322_s ''L2_AMP_CONFIDENCE_DPT3'' = \<lparr>bf_off = 45, bf_width = 6\<rparr>"
  "bf msr1322_s ''L2_LLC_STREAM_DEMAND_DENSITY_XQ'' = \<lparr>bf_off = 59, bf_width = 3\<rparr>"
  by (simp_all add: bf_def msr1322_s_def)

lemma msr1323_s_members [layout_simps]:
  "bf msr1323_s ''L2_STREAM_AMP_CREATE_SWPFRFO'' = \<lparr>bf_off = 34, bf_width = 1\<rparr>"
  "bf msr1323_s ''L2_STREAM_AMP_CREATE_SWPFRD'' = \<lparr>bf_off = 35, bf_width = 1\<rparr>"
  "bf msr1323_s ''L2_STREAM_AMP_CREATE_HWPFD'' = \<lparr>bf_off = 37, bf_width = 1\<rparr>"
  "bf msr1323_s ''L2_STREAM_AMP_CREATE_DRFO'' = \<lparr>bf_off = 38, bf_width = 1\<rparr>"
  "bf msr1323_s ''STABILIZE_PREF_ON_SWPFRFO'' = \<lparr>bf_off = 39, bf_width = 1\<rparr>"
  "bf msr1323_s ''STABILIZE_PREF_ON_SWPFRD'' = \<lparr>bf_off = 40, bf_width = 1\<rparr>"
  "bf msr1323_s ''STABILIZE_PREF_ON_IL1'' = \<lparr>bf_off = 41, bf_width = 1\<rparr>"
  "bf msr1323_s ''STABILIZE_PREF_ON_HWPFD'' = \<lparr>bf_off = 43, bf_width = 1\<rparr>"
  "bf msr1323_s ''STABILIZE_PREF_ON_DRFO'' = \<lparr>bf_off = 44, bf_width = 1\<rparr>"
  "bf msr1323_s ''L2_STREAM_AMP_CREATE_PFNPP'' = \<lparr>bf_off = 45, bf_width = 1\<rparr>"
  "bf msr1323_s ''L2_STREAM_AMP_CREATE_PFIPP'' = \<lparr>bf_off = 46, bf_width = 1\<rparr>"
  "bf msr1323_s ''STABILIZE_PREF_ON_PFNPP'' = \<lparr>bf_off = 47, bf_width = 1\<rparr>"
  "bf msr1323_s ''STABILIZE_PREF_ON_PFIPP'' = \<lparr>bf_off = 48, bf_width = 1\<rparr>"
  by (simp_all add: bf_def msr1323_s_def)

lemma msr1324_s_members [layout_simps]:
  "bf msr1324_s ''L1_HOMELESS_THRESHOLD'' = \<lparr>bf_off = 54, bf_width = 8\<rparr>"
  by (simp_all add: bf_def msr1324_s_def)

lemmas msr_accessor_defs =
  msr_set_mlc_disable_def msr_get_mlc_disable_def
  msr_set_l1_data_disable_def msr_get_l1_data_disable_def
  msr_set_l1_instruction_disable_def msr_get_l1_instruction_disable_def
  msr_set_l1_next_page_disable_def msr_get_l1_next_page_disable_def
  msr_set_amp_disable_def msr_get_amp_disable_def
  msr_set_l2xq_def msr_get_l2xq_def
  msr_set_l3xq_def msr_get_l3xq_def
  msr_set_l2maxdist_def msr_get_l2maxdist_def
  msr_set_l3maxdist_def msr_get_l3maxdist_def
  msr_set_l2adr_def msr_get_l2adr_def
  msr_set_llcoff_def msr_get_llcoff_def
  msr_set_l2sacil1_def msr_get_l2sacil1_def
  msr_set_l2dd_def msr_get_l2dd_def
  msr_set_l2ddovr_def msr_get_l2ddovr_def
  msr_set_nlpoff_def msr_get_nlpoff_def
  msr_set_l2llcxq_def msr_get_l2llcxq_def
  msr_set_l3dd_def msr_get_l3dd_def
  msr_set_l3ddovr_def msr_get_l3ddovr_def
  msr_set_ampconf0_def msr_get_ampconf0_def
  msr_set_ampconf1_def msr_get_ampconf1_def
  msr_set_ampconf2_def msr_get_ampconf2_def
  msr_set_ampconf3_def msr_get_ampconf3_def
  msr_set_l2llcddxq_def msr_get_l2llcddxq_def
  msr_set_ampcswpfrfo_def msr_get_ampcswpfrfo_def
  msr_set_ampcswpfrd_def msr_get_ampcswpfrd_def
  msr_set_ampchwpfd_def msr_get_ampchwpfd_def
  msr_set_ampcdrfo_def msr_get_ampcdrfo_def
  msr_set_stabswpfrfo_def msr_get_stabswpfrfo_def
  msr_set_stabswpfrd_def msr_get_stabswpfrd_def
  msr_set_stabil1_def msr_get_stabil1_def
  msr_set_stabhwpfd_def msr_get_stabhwpfd_def
  msr_set_stabdrfo_def msr_get_stabdrfo_def
  msr_set_ampcpfnpp_def msr_get_ampcpfnpp_def
  msr_set_ampcpfipp_def msr_get_ampcpfipp_def
  msr_set_stabpfnpp_def msr_get_stabpfnpp_def
  msr_set_stabpfipp_def msr_get_stabpfipp_def
  msr_set_l1ht_def msr_get_l1ht_def

lemma msr_accessors_slots:
  "msr_accessors = map (\<lambda>(k, f). (\<lambda>m v. put_field m k f v, \<lambda>m. get_field m k f)) msr_slots"
  by (simp add: msr_accessors_def msr_slots_def fun_eq_iff msr_accessor_defs)

lemma msr_slots_fit: "\<forall>(k, f) \<in> set msr_slots. bf_fits f"
  by (simp add: msr_slots_def bf_fits_def layout_simps)

lemma msr_slots_disjoint: "sorted_wrt slot_disjoint msr_slots"
  by code_simp

lemma slot_disjoint_sym: "slot_disjoint a b \<Longrightarrow> slot_disjoint b a"
  by (auto simp: slot_disjoint_def bf_disjoint_def)

lemma msr_slots_disjoint_nth:
  assumes "i < length msr_slots" "j < length msr_slots" "i \<noteq> j"
  shows "slot_disjoint (msr_slots ! i) (msr_slots ! j)"
proof (cases "i < j")
  case True
  then show ?thesis using msr_slots_disjoint assms by (simp add: sorted_wrt_iff_nth_less)
next
  case False
  then have "slot_disjoint (msr_slots ! j) (msr_slots ! i)"
    using msr_slots_disjoint assms by (simp add: sorted_wrt_iff_nth_less)
  then show ?thesis by (rule slot_disjoint_sym)
qed

lemma length_msr_accessors: "length msr_accessors = length msr_slots"
  by (simp add: msr_accessors_slots)

lemma nth_msr_accessors:
  assumes "i < length msr_accessors"
  obtains k f where "msr_slots ! i = (k, f)" "bf_fits f"
    "msr_accessors ! i = (\<lambda>m v. put_field m k f v, \<lambda>m. get_field m k f)"
proof -
  have i: "i < length msr_slots" using assms by (simp add: length_msr_accessors)
  obtain k f where kf: "msr_slots ! i = (k, f)" by (cases "msr_slots ! i")
  have "(k, f) \<in> set msr_slots" using i kf nth_mem by fastforce
  then have "bf_fits f" using msr_slots_fit by auto
  then show ?thesis using that i kf by (simp add: msr_accessors_slots)
qed

text \<open>
  Claim C15: every setter/getter pair of \<open>msr.c\<close> addresses exactly its own setting. After a
  setter with any \<open>int\<close>, its getter returns the value modulo two to the width of the field
  (the silent truncation of the bit-field assignment), and every other getter of the table
  returns what it returned before.
\<close>

theorem msr_accessor_law:
  assumes "i < length msr_accessors" and "j < length msr_accessors"
  shows "snd (msr_accessors ! j) (fst (msr_accessors ! i) m v) =
         (if i = j then v mod 2 ^ bf_width (snd (msr_slots ! i)) else snd (msr_accessors ! j) m)"
proof -
  obtain k f where i: "msr_slots ! i = (k, f)" "bf_fits f"
    "msr_accessors ! i = (\<lambda>m v. put_field m k f v, \<lambda>m. get_field m k f)"
    using assms(1) by (rule nth_msr_accessors)
  obtain l g where j: "msr_slots ! j = (l, g)" "bf_fits g"
    "msr_accessors ! j = (\<lambda>m v. put_field m l g v, \<lambda>m. get_field m l g)"
    using assms(2) by (rule nth_msr_accessors)
  show ?thesis
  proof (cases "i = j")
    case True
    then show ?thesis using i j by (simp add: get_put_field)
  next
    case False
    then have "slot_disjoint (l, g) (k, f)"
      using msr_slots_disjoint_nth [of j i] assms i j by (simp add: length_msr_accessors)
    then show ?thesis using False i j by (simp add: get_put_field_other)
  qed
qed

theorem msr_accessor_law_witness:
  "msr_get_l2xq (msr_set_l2xq (\<lambda>_. 0) 40) = 8 \<and> msr_get_l3xq (msr_set_l2xq (\<lambda>_. 0) 40) = 0"
  using msr_accessor_law [of 5 5 "\<lambda>_. 0" 40] msr_accessor_law [of 5 6 "\<lambda>_. 0" 40]
  by (simp add: msr_accessors_def msr_slots_def layout_simps msr_get_l3xq_def get_field_def bf_get_def)

section \<open>The fields the tuners use\<close>

text \<open>The contract of a register field, for the settings that the tuners change.\<close>

lemmas tuner_field_laws =
  reg_field_def get_put_field put_get_field put_put_field bf_fits_def layout_simps msr_accessor_defs

interpretation l2xq: reg_field msr_get_l2xq msr_set_l2xq "\<lambda>v. v mod 32"
  by (simp add: tuner_field_laws)

interpretation l3xq: reg_field msr_get_l3xq msr_set_l3xq "\<lambda>v. v mod 32"
  by (simp add: tuner_field_laws)

interpretation l2maxdist: reg_field msr_get_l2maxdist msr_set_l2maxdist "\<lambda>v. v mod 32"
  by (simp add: tuner_field_laws)

interpretation l3maxdist: reg_field msr_get_l3maxdist msr_set_l3maxdist "\<lambda>v. v mod 64"
  by (simp add: tuner_field_laws)

interpretation xq: field_pair msr_get_l2xq msr_set_l2xq "\<lambda>v. v mod 32"
  msr_get_l3xq msr_set_l3xq "\<lambda>v. v mod 32"
  by unfold_locales
    (simp_all add: msr_accessor_defs get_put_field_other slot_disjoint_def bf_disjoint_def
      bf_fits_def layout_simps)

interpretation maxdist: field_pair msr_get_l2maxdist msr_set_l2maxdist "\<lambda>v. v mod 32"
  msr_get_l3maxdist msr_set_l3maxdist "\<lambda>v. v mod 64"
  by unfold_locales
    (simp_all add: msr_accessor_defs get_put_field_other slot_disjoint_def bf_disjoint_def
      bf_fits_def layout_simps)

section \<open>Defaults\<close>

lemmas slot_eval = slot_disjoint_def bf_disjoint_def bf_fits_def layout_simps

text \<open>
  \<open>populate_msr_u\<close> establishes the defaults of \<open>msr.h\<close>: each of its settings
  reads back exactly as its macro (none is truncated by its field), whatever the registers held
  before, and registers 0x1324 and 0x1A4 keep their values.
\<close>

theorem populate_defaults:
  "(\<forall>(get, d) \<in> set msr_defaults. get (populate_msr_u m) = d) \<and>
   populate_msr_u m 4 = m 4 \<and> populate_msr_u m 5 = m 5"
proof -
  have "\<forall>(get, d) \<in> set msr_defaults. get (populate_msr_u m) = d"
    by (simp add: msr_defaults_def populate_msr_u_def populate_msr1320_def populate_msr1321_def
        populate_msr1322_def populate_msr1323_def msr_accessor_defs Let_def get_put_field
        get_put_field_other slot_eval const_simps)
  moreover have "populate_msr_u m 4 = m 4 \<and> populate_msr_u m 5 = m 5"
    by (simp add: populate_msr_u_def populate_msr1320_def populate_msr1321_def
        populate_msr1322_def populate_msr1323_def Let_def put_field_def)
  ultimately show ?thesis by blast
qed

theorem populate_defaults_witness:
  "msr_get_l3dd (populate_msr_u (\<lambda>_. 0)) = 320 \<and> populate_msr_u (\<lambda>_. 7) 5 = 7"
  using populate_defaults [of "\<lambda>_. 0"] populate_defaults [of "\<lambda>_. 7"]
  by (simp add: msr_defaults_def const_simps)

section \<open>Writing and reading the registers\<close>

definition apply_writes :: "(nat \<times> u64) list \<Rightarrow> (nat \<Rightarrow> u64) \<Rightarrow> nat \<Rightarrow> u64" where
  "apply_writes ws r = fold (\<lambda>(a, v) r. r(a := v)) ws r"

lemma pwrite_all_ok:
  "\<forall>(a, v) \<in> set ws. os_pwrite_ok os fd a \<Longrightarrow>
   pwrite_all os fd ws s =
     (0, s\<lparr>regs := (regs s)(os_fd_core os fd := apply_writes ws (regs s (os_fd_core os fd)))\<rparr>)"
  by (induction os fd ws s rule: pwrite_all.induct) (auto simp: apply_writes_def pwrite8_def)

lemma pwrite_all_result:
  "pwrite_all os fd ws s = (r, s') \<Longrightarrow> r = 0 \<or> r = -1"
  by (induction os fd ws s rule: pwrite_all.induct) (auto split: option.splits)

lemma pwrite_all_frame:
  "pwrite_all os fd ws s = (r, s') \<Longrightarrow> c \<noteq> os_fd_core os fd \<or> a \<notin> fst ` set ws \<Longrightarrow>
   regs s' c a = regs s c a"
proof (induction os fd ws s rule: pwrite_all.induct)
  case (1 os fd s)
  then show ?case by simp
next
  case (2 os fd b v ws s)
  show ?case
  proof (cases "os_pwrite_ok os fd b")
    case True
    let ?s = "s\<lparr>regs := (regs s)(os_fd_core os fd := (regs s (os_fd_core os fd))(b := v))\<rparr>"
    have w: "pwrite8 os s fd b v = Some ?s" using True by (simp add: pwrite8_def)
    have "regs s' c a = regs ?s c a" using "2.IH" [OF w] "2.prems" w by auto
    then show ?thesis using "2.prems"(2) by auto
  next
    case False
    then show ?thesis using "2.prems"(1) by (simp add: pwrite8_def)
  qed
qed

lemma pwrite_all_file_id: "pwrite_all os fd ws s = (r, s') \<Longrightarrow> msr_file_id s' = msr_file_id s"
  by (induction os fd ws s rule: pwrite_all.induct)
    (auto simp: pwrite8_def split: option.splits if_splits)

lemma hwpf_writes_eval:
  "hwpf_writes msr = [(0x1320, msr 0), (0x1321, msr 1), (0x1322, msr 2), (0x1323, msr 3),
     (0x1324, msr 4), (0x1A4, msr 5)]"
  by (simp add: hwpf_writes_def const_simps upt_5)

definition hwpf_registers :: "nat set" where
  "hwpf_registers = {0x1320, 0x1321, 0x1322, 0x1323, 0x1324, 0x1A4}"

text \<open>
  \<open>msr_hwpf_write\<close> touches nothing but the six prefetch registers of the core its
  descriptor belongs to, also when it gives up at a failing write, and it reports \<open>0\<close> or
  \<open>-1\<close>.
\<close>

theorem hwpf_write_frame:
  assumes "msr_hwpf_write os fd msr s = (r, s')"
    and "c \<noteq> os_fd_core os fd \<or> a \<notin> hwpf_registers"
  shows "regs s' c a = regs s c a \<and> msr_file_id s' = msr_file_id s \<and> (r = 0 \<or> r = -1)"
  using assms pwrite_all_frame [of os fd "hwpf_writes msr" s r s' c a]
    pwrite_all_result [of os fd "hwpf_writes msr" s r s']
    pwrite_all_file_id [of os fd "hwpf_writes msr" s r s']
  by (auto simp: msr_hwpf_write_def hwpf_writes_eval hwpf_registers_def)

definition demo_os :: msr_os where
  "demo_os = \<lparr>os_open = (\<lambda>c. c + 10), os_fd_core = (\<lambda>fd. fd - 10),
     os_pread_ok = (\<lambda>_ _. True), os_pwrite_ok = (\<lambda>_ a. a \<noteq> 0x1322), os_errno = 5, os_tsc = 0\<rparr>"

definition demo_sys :: msr_sys where
  "demo_sys = \<lparr>msr_file_id = (\<lambda>c. int c + 10), regs = (\<lambda>_ _. 0)\<rparr>"

theorem hwpf_write_frame_witness:
  "let (r, s') = msr_hwpf_write demo_os 13 (\<lambda>_. 1) demo_sys in
     regs s' 4 0x1320 = 0 \<and> r = -1 \<and> regs s' 3 0x1321 = 1"
proof -
  obtain r s' where e: "msr_hwpf_write demo_os 13 (\<lambda>_. 1) demo_sys = (r, s')" by fastforce
  have "regs s' 4 0x1320 = regs demo_sys 4 0x1320"
    using hwpf_write_frame [OF e, of 4 "0x1320"] by (simp add: demo_os_def)
  with e show ?thesis
    by (auto simp: msr_hwpf_write_def hwpf_writes_eval pwrite8_def demo_os_def demo_sys_def)
qed

lemma pread_all_hwpf:
  assumes "\<forall>a \<in> hwpf_registers. os_pread_ok os fd a"
    and "0 \<le> core" "core < MAX_NUM_CORES" "msr_file_id s (nat core) = fd" "fd \<noteq> 0"
  shows "\<exists>m'. msr_init os core m s = Ret (fd, m', s) \<and>
    (\<forall>i < 5. m' i = regs s (os_fd_core os fd) (0x1320 + i)) \<and> m' 5 = regs s (os_fd_core os fd) 0x1A4"
  using assms
  by (simp add: msr_init_def const_simps upt_5 pread8_def hwpf_registers_def fun_upd_idem
      all_less_5)

text \<open>
  Claim C14: register write and read are inverse. Where the OS lets the six registers be written
  and read, \<open>msr_hwpf_write\<close> returns 0, and \<open>msr_init\<close> of a core whose descriptor is
  already open returns that descriptor and fills the array with exactly the six values written.
\<close>

theorem hwpf_write_init_roundtrip:
  assumes "\<forall>a \<in> hwpf_registers. os_pwrite_ok os fd a \<and> os_pread_ok os fd a"
    and "0 \<le> core" "core < MAX_NUM_CORES" "msr_file_id s (nat core) = fd" "fd \<noteq> 0"
  shows "\<exists>s' m'. msr_hwpf_write os fd msr s = (0, s') \<and>
           msr_init os core m0 s' = Ret (fd, m', s') \<and> (\<forall>i < HWPF_MSR_FIELDS. m' i = msr i)"
proof -
  let ?s = "s\<lparr>regs := (regs s)(os_fd_core os fd :=
              apply_writes (hwpf_writes msr) (regs s (os_fd_core os fd)))\<rparr>"
  have w: "msr_hwpf_write os fd msr s = (0, ?s)"
    unfolding msr_hwpf_write_def
    by (rule pwrite_all_ok) (use assms(1) in \<open>simp add: hwpf_writes_eval hwpf_registers_def\<close>)
  obtain m' where m': "msr_init os core m0 ?s = Ret (fd, m', ?s)"
    "\<forall>i < 5. m' i = regs ?s (os_fd_core os fd) (0x1320 + i)"
    "m' 5 = regs ?s (os_fd_core os fd) 0x1A4"
    using pread_all_hwpf [of os fd core ?s m0] assms by auto
  have "\<forall>i < HWPF_MSR_FIELDS. m' i = msr i"
    using m'(2,3) by (simp add: const_simps apply_writes_def hwpf_writes_eval all_less_5 all_less_6)
  with w m'(1) show ?thesis by blast
qed

theorem hwpf_write_init_roundtrip_witness:
  "\<exists>s' m'. msr_hwpf_write (demo_os\<lparr>os_pwrite_ok := \<lambda>_ _. True\<rparr>) 13 (\<lambda>i. word_of_nat i) demo_sys = (0, s') \<and>
     msr_init (demo_os\<lparr>os_pwrite_ok := \<lambda>_ _. True\<rparr>) 3 (\<lambda>_. 0) s' = Ret (13, m', s') \<and> m' 5 = 5"
proof -
  have "\<forall>i < HWPF_MSR_FIELDS. m' i = word_of_nat i \<Longrightarrow> m' 5 = (5 :: u64)" for m'
    by (auto simp: const_simps)
  moreover have "\<forall>a \<in> hwpf_registers. os_pwrite_ok (demo_os\<lparr>os_pwrite_ok := \<lambda>_ _. True\<rparr>) 13 a \<and>
      os_pread_ok (demo_os\<lparr>os_pwrite_ok := \<lambda>_ _. True\<rparr>) 13 a"
    by (simp add: demo_os_def)
  moreover have "(0 :: int) \<le> 3" "3 < MAX_NUM_CORES" "msr_file_id demo_sys (nat 3) = 13" "(13 :: int) \<noteq> 0"
    by (simp_all add: demo_sys_def const_simps)
  ultimately show ?thesis
    using hwpf_write_init_roundtrip [of "demo_os\<lparr>os_pwrite_ok := \<lambda>_ _. True\<rparr>" 13 3 demo_sys
        "\<lambda>i. word_of_nat i" "\<lambda>_. 0"]
    by blast
qed

end
