(* ===== verification/Ddr_Types.thy ===== *)
theory Ddr_Types
  imports Dpf_Prelude
begin

text \<open>
  \<open>include/pmu_ddr.h\<close>, shared by the kernel module and the user-space tool: the kinds of
  memory controllers, their register offsets and the record of the last counter values. A mapped
  register window is its virtual address, \<open>0\<close> for \<open>NULL\<close>.
\<close>

definition DDR_NONE :: int where [const_simps]: "DDR_NONE = -1"
definition DDR_CLIENT :: int where [const_simps]: "DDR_CLIENT = 1"
definition DDR_GRR_SRF :: int where [const_simps]: "DDR_GRR_SRF = 2"
definition DDR_PMU_RD :: int where [const_simps]: "DDR_PMU_RD = 1"
definition DDR_PMU_WR :: int where [const_simps]: "DDR_PMU_WR = 2"
definition CLIENT_DDR0_OFFSET :: u64 where [const_simps]: "CLIENT_DDR0_OFFSET = 0"
definition CLIENT_DDR1_OFFSET :: u64 where [const_simps]: "CLIENT_DDR1_OFFSET = 0x10000"
definition GRR_SRF_MC_ADDRESS :: "int \<Rightarrow> u64" where
  "GRR_SRF_MC_ADDRESS n = 0x24C000 + 0x4000 * word_of_int n"
definition CLIENT_DDR_RANGE :: nat where [const_simps]: "CLIENT_DDR_RANGE = 0x10000"
definition GRR_SRF_DDR_RANGE :: nat where [const_simps]: "GRR_SRF_DDR_RANGE = 0x10000"
definition CLIENT_DDR_RD_BW :: u64 where [const_simps]: "CLIENT_DDR_RD_BW = 0xd858"
definition CLIENT_DDR_WR_BW :: u64 where [const_simps]: "CLIENT_DDR_WR_BW = 0xd8a0"
definition GRR_SRF_FREE_RUN_CNTR_READ :: u64 where [const_simps]: "GRR_SRF_FREE_RUN_CNTR_READ = 0x1A40"
definition GRR_SRF_FREE_RUN_CNTR_WRITE :: u64 where [const_simps]: "GRR_SRF_FREE_RUN_CNTR_WRITE = 0x1A48"
definition MAX_NUM_DDR_CONTROLLERS :: int where [const_simps]: "MAX_NUM_DDR_CONTROLLERS = 16"

record ddr_s =
  rd_last_update :: "u64 arr"
  wr_last_update :: "u64 arr"
  ddr_mmap :: "u64 arr"
  mem_file :: int
  bar_address :: u64
  ddr_interface_type :: int
  ddr_num_controllers :: int

definition zero_ddr :: ddr_s where
  "zero_ddr = \<lparr>rd_last_update = (\<lambda>_. 0), wr_last_update = (\<lambda>_. 0), ddr_mmap = (\<lambda>_. 0),
     mem_file = 0, bar_address = 0, ddr_interface_type = 0, ddr_num_controllers = 0\<rparr>"

end
