(* ===== verification/Kernel_Common.thy ===== *)
theory Kernel_Common
  imports Atom_Msr
begin

text \<open>
  \<open>kernelmod/kernel_common.h\<close> and \<open>kernelmod/kernel_common.c\<close>: the per-core state of the
  kernel module and the operations that move PMU counters and prefetch registers between it and
  the hardware.

  \<open>kcommon\<close> holds the globals of the file and the model-specific registers of every CPU
  (\<open>hwreg\<close>, by CPU and address); the later components extend it. The performance counters
  are the parameter \<open>pmc\<close> (by CPU and counter), since they change by themselves. Every
  operation that executes \<open>rdmsr\<close>, \<open>wrmsr\<close> or \<open>rdpmc\<close> takes the number of the CPU
  it runs on, which is not always the core it is called for.
\<close>

definition K_PMU_COUNTERS :: nat where [const_simps]: "K_PMU_COUNTERS = 8"
definition NR_OF_MSR :: nat where [const_simps]: "NR_OF_MSR = 7"
definition MSR_1320_INDEX :: nat where [const_simps]: "MSR_1320_INDEX = 0"
definition MSR_1321_INDEX :: nat where [const_simps]: "MSR_1321_INDEX = 1"
definition MSR_1322_INDEX :: nat where [const_simps]: "MSR_1322_INDEX = 2"
definition MSR_1323_INDEX :: nat where [const_simps]: "MSR_1323_INDEX = 3"
definition MSR_1324_INDEX :: nat where [const_simps]: "MSR_1324_INDEX = 4"
definition MSR_1327_INDEX :: nat where [const_simps]: "MSR_1327_INDEX = 5"
definition MSR_1A4_INDEX :: nat where [const_simps]: "MSR_1A4_INDEX = 6"

definition PERF_MEM_UOPS_RETIRED_ALL_LOADS :: nat where
  [const_simps]: "PERF_MEM_UOPS_RETIRED_ALL_LOADS = 0"
definition PERF_MEM_LOAD_UOPS_RETIRED_L2_HIT :: nat where
  [const_simps]: "PERF_MEM_LOAD_UOPS_RETIRED_L2_HIT = 1"
definition PERF_MEM_LOAD_UOPS_RETIRED_L3_HIT :: nat where
  [const_simps]: "PERF_MEM_LOAD_UOPS_RETIRED_L3_HIT = 2"
definition PERF_MEM_LOAD_UOPS_RETIRED_DRAM_HIT :: nat where
  [const_simps]: "PERF_MEM_LOAD_UOPS_RETIRED_DRAM_HIT = 3"
definition PERF_XQ_PROMOTION_ALL :: nat where
  [const_simps]: "PERF_XQ_PROMOTION_ALL = 4"
definition PERF_CPU_CLK_UNHALTED_THREAD :: nat where
  [const_simps]: "PERF_CPU_CLK_UNHALTED_THREAD = 5"
definition PERF_INST_RETIRED_ANY_P :: nat where
  [const_simps]: "PERF_INST_RETIRED_ANY_P = 6"
definition PERF_MEM_LOAD_UOPS_RETIRED_L2_MISS :: nat where
  [const_simps]: "PERF_MEM_LOAD_UOPS_RETIRED_L2_MISS = 7"

record core_state_s =
  pmu_raw :: "u64 arr"
  pmu_old :: "u64 arr"
  pf_msr :: "msr_u arr"
  pf_msr_dirty :: int
  core_disabled :: int

record kcommon =
  sys_first_core :: int
  sys_active_cores :: int
  corestate :: "core_state_s arr"
  ddr_bw_target :: int
  hwreg :: "nat \<Rightarrow> nat \<Rightarrow> u64"

definition first_core :: "'a kcommon_scheme \<Rightarrow> int" where
  "first_core s = sys_first_core s"

definition active_cores :: "'a kcommon_scheme \<Rightarrow> int" where
  "active_cores s = sys_active_cores s"

definition core_in_module :: "'a kcommon_scheme \<Rightarrow> int \<Rightarrow> int" where
  "core_in_module s core_id = (core_id - sys_first_core s) smod 4"

definition module_id :: "'a kcommon_scheme \<Rightarrow> int \<Rightarrow> int" where
  "module_id s core_id = (core_id - sys_first_core s) sdiv 4"

text \<open>Reading and updating one element of \<open>corestate\<close>.\<close>

definition core_at :: "'a kcommon_scheme \<Rightarrow> int \<Rightarrow> core_state_s option" where
  "core_at s i = aget MAX_NUM_CORES (corestate s) i"

definition upd_core ::
    "int \<Rightarrow> (core_state_s \<Rightarrow> core_state_s) \<Rightarrow> 'a kcommon_scheme \<Rightarrow> 'a kcommon_scheme option" where
  "upd_core i f s =
     do { c \<leftarrow> core_at s i; Some (s\<lparr>corestate := (corestate s)(nat i := f c)\<rparr>) }"

definition read_counters :: "(nat \<Rightarrow> nat \<Rightarrow> u64) \<Rightarrow> nat \<Rightarrow> u64 arr \<Rightarrow> u64 arr" where
  "read_counters pmc cpu raw =
     raw(PERF_MEM_UOPS_RETIRED_ALL_LOADS := pmc cpu 0,
         PERF_MEM_LOAD_UOPS_RETIRED_L2_HIT := pmc cpu 1,
         PERF_MEM_LOAD_UOPS_RETIRED_L3_HIT := pmc cpu 2,
         PERF_MEM_LOAD_UOPS_RETIRED_DRAM_HIT := pmc cpu 3,
         PERF_XQ_PROMOTION_ALL := pmc cpu 4,
         PERF_CPU_CLK_UNHALTED_THREAD := pmc cpu 5,
         PERF_INST_RETIRED_ANY_P := pmc cpu 6,
         PERF_MEM_LOAD_UOPS_RETIRED_L2_MISS := pmc cpu 7)"

definition pmu_update ::
    "(nat \<Rightarrow> nat \<Rightarrow> u64) \<Rightarrow> nat \<Rightarrow> int \<Rightarrow> 'a kcommon_scheme \<Rightarrow> int \<times> 'a kcommon_scheme" where
  "pmu_update pmc cpu core_id s =
     (if core_id < 0 \<or> core_id \<ge> MAX_NUM_CORES \<or> core_disabled (corestate s (nat core_id)) \<noteq> 0
      then (- EINVAL, s)
      else (0, s\<lparr>corestate := (corestate s)(nat core_id :=
              (let c = corestate s (nat core_id)
               in c\<lparr>pmu_old := (\<lambda>i. if i < K_PMU_COUNTERS then pmu_raw c i else pmu_old c i),
                    pmu_raw := read_counters pmc cpu (pmu_raw c)\<rparr>))\<rparr>))"

definition is_msr_dirty :: "int \<Rightarrow> 'a kcommon_scheme \<Rightarrow> int option" where
  "is_msr_dirty core_id s = map_option pf_msr_dirty (core_at s core_id)"

definition msr_set_dirty :: "int \<Rightarrow> 'a kcommon_scheme \<Rightarrow> 'a kcommon_scheme option" where
  "msr_set_dirty core_id s = upd_core core_id (\<lambda>c. c\<lparr>pf_msr_dirty := 1\<rparr>) s"

definition rdmsr :: "'a kcommon_scheme \<Rightarrow> nat \<Rightarrow> nat \<Rightarrow> u64" where
  "rdmsr s cpu a = hwreg s cpu a"

definition msr_load :: "nat \<Rightarrow> int \<Rightarrow> 'a kcommon_scheme \<Rightarrow> 'a kcommon_scheme option" where
  "msr_load cpu core_id s =
     upd_core core_id (\<lambda>c. c\<lparr>pf_msr := (pf_msr c)(
        MSR_1320_INDEX := rdmsr s cpu 0x1320,
        MSR_1321_INDEX := rdmsr s cpu 0x1321,
        MSR_1322_INDEX := rdmsr s cpu 0x1322,
        MSR_1323_INDEX := rdmsr s cpu 0x1323,
        MSR_1324_INDEX := rdmsr s cpu 0x1324,
        MSR_1327_INDEX := rdmsr s cpu 0x1327,
        MSR_1A4_INDEX := rdmsr s cpu 0x1a4)\<rparr>) s"

text \<open>\<open>wrmsr\<close> takes the register's value in two 32-bit halves.\<close>

definition wrmsr :: "nat \<Rightarrow> nat \<Rightarrow> u32 \<Rightarrow> u32 \<Rightarrow> 'a kcommon_scheme \<Rightarrow> 'a kcommon_scheme" where
  "wrmsr cpu a low high s =
     s\<lparr>hwreg := (hwreg s)(cpu := (hwreg s cpu)(a := push_bit 32 (ucast high) OR ucast low))\<rparr>"

definition wrmsr64 :: "nat \<Rightarrow> nat \<Rightarrow> u64 \<Rightarrow> 'a kcommon_scheme \<Rightarrow> 'a kcommon_scheme" where
  "wrmsr64 cpu a v s = wrmsr cpu a (ucast v) (ucast (drop_bit 32 v)) s"

definition msr_update :: "nat \<Rightarrow> int \<Rightarrow> 'a kcommon_scheme \<Rightarrow> 'a kcommon_scheme option" where
  "msr_update cpu core_id s =
     do { s \<leftarrow> upd_core core_id (\<lambda>c. c\<lparr>pf_msr_dirty := 0\<rparr>) s;
          c \<leftarrow> core_at s core_id;
          let s = wrmsr64 cpu 0x1320 (pf_msr c MSR_1320_INDEX) s;
          let s = wrmsr64 cpu 0x1321 (pf_msr c MSR_1321_INDEX) s;
          let s = wrmsr64 cpu 0x1322 (pf_msr c MSR_1322_INDEX) s;
          let s = wrmsr64 cpu 0x1323 (pf_msr c MSR_1323_INDEX) s;
          let s = wrmsr64 cpu 0x1324 (pf_msr c MSR_1324_INDEX) s;
          let s = wrmsr64 cpu 0x1327 (pf_msr c MSR_1327_INDEX) s;
          let s = wrmsr64 cpu 0x1a4 (pf_msr c MSR_1A4_INDEX) s;
          Some s }"

definition k_msr_set_l2xq :: "int \<Rightarrow> int \<Rightarrow> 'a kcommon_scheme \<Rightarrow> 'a kcommon_scheme option" where
  "k_msr_set_l2xq core_id value s =
     upd_core core_id (\<lambda>c. c\<lparr>pf_msr :=
       put_field (pf_msr c) MSR_1320_INDEX (bf msr1320_s ''L2_STREAM_AMP_XQ_THRESHOLD'') value\<rparr>) s"

definition k_msr_get_l2xq :: "int \<Rightarrow> 'a kcommon_scheme \<Rightarrow> int option" where
  "k_msr_get_l2xq core_id s =
     map_option (\<lambda>c. get_field (pf_msr c) MSR_1320_INDEX (bf msr1320_s ''L2_STREAM_AMP_XQ_THRESHOLD''))
       (core_at s core_id)"

definition k_msr_set_l3xq :: "int \<Rightarrow> int \<Rightarrow> 'a kcommon_scheme \<Rightarrow> 'a kcommon_scheme option" where
  "k_msr_set_l3xq core_id value s =
     upd_core core_id (\<lambda>c. c\<lparr>pf_msr :=
       put_field (pf_msr c) MSR_1320_INDEX (bf msr1320_s ''LLC_STREAM_XQ_THRESHOLD'') value\<rparr>) s"

definition k_msr_get_l3xq :: "int \<Rightarrow> 'a kcommon_scheme \<Rightarrow> int option" where
  "k_msr_get_l3xq core_id s =
     map_option (\<lambda>c. get_field (pf_msr c) MSR_1320_INDEX (bf msr1320_s ''LLC_STREAM_XQ_THRESHOLD''))
       (core_at s core_id)"

section \<open>Access to one core\<close>

definition core_ok :: "int \<Rightarrow> bool" where
  "core_ok i \<longleftrightarrow> 0 \<le> i \<and> i < MAX_NUM_CORES"

lemma core_at_Some [simp]: "core_ok i \<Longrightarrow> core_at s i = Some (corestate s (nat i))"
  by (simp add: core_at_def core_ok_def)

lemma core_at_None [simp]: "\<not> core_ok i \<Longrightarrow> core_at s i = None"
  by (auto simp: core_at_def core_ok_def)

lemma core_at_eq_Some: "core_at s i = Some c \<longleftrightarrow> core_ok i \<and> c = corestate s (nat i)"
  by (cases "core_ok i") auto

lemma upd_core_Some [simp]:
  "core_ok i \<Longrightarrow>
   upd_core i f s = Some (s\<lparr>corestate := (corestate s)(nat i := f (corestate s (nat i)))\<rparr>)"
  by (simp add: upd_core_def)

lemma upd_core_None [simp]: "\<not> core_ok i \<Longrightarrow> upd_core i f s = None"
  by (simp add: upd_core_def)

lemma upd_core_eq_Some:
  "upd_core i f s = Some t \<longleftrightarrow>
   core_ok i \<and> t = s\<lparr>corestate := (corestate s)(nat i := f (corestate s (nat i)))\<rparr>"
  by (cases "core_ok i") auto

section \<open>Registers and counters\<close>

lemma join_halves: "push_bit 32 (ucast (ucast (drop_bit 32 v) :: u32)) OR ucast (ucast v :: u32) = (v :: u64)"
  by (rule bit_word_eqI) (auto simp: bit_simps)

lemma hwreg_wrmsr64 [simp]:
  "hwreg (wrmsr64 cpu a v s) = (hwreg s)(cpu := (hwreg s cpu)(a := v))"
  by (simp add: wrmsr64_def wrmsr_def join_halves)

lemma wrmsr64_frame [frame_simps, simp]:
  "corestate (wrmsr64 cpu a v s) = corestate s"
  "sys_first_core (wrmsr64 cpu a v s) = sys_first_core s"
  "sys_active_cores (wrmsr64 cpu a v s) = sys_active_cores s"
  "ddr_bw_target (wrmsr64 cpu a v s) = ddr_bw_target s"
  "kcommon.more (wrmsr64 cpu a v s) = kcommon.more s"
  by (simp_all add: wrmsr64_def wrmsr_def)

definition kmsr_addr :: "nat list" where
  "kmsr_addr = [0x1320, 0x1321, 0x1322, 0x1323, 0x1324, 0x1327, 0x1a4]"

lemma msr_update_eq:
  assumes "core_ok i"
  shows "\<exists>t. msr_update cpu i s = Some t \<and>
    corestate t = (corestate s)(nat i := (corestate s (nat i))\<lparr>pf_msr_dirty := 0\<rparr>) \<and>
    hwreg t = (hwreg s)(cpu := (hwreg s cpu)(
        0x1320 := pf_msr (corestate s (nat i)) 0, 0x1321 := pf_msr (corestate s (nat i)) 1,
        0x1322 := pf_msr (corestate s (nat i)) 2, 0x1323 := pf_msr (corestate s (nat i)) 3,
        0x1324 := pf_msr (corestate s (nat i)) 4, 0x1327 := pf_msr (corestate s (nat i)) 5,
        0x1a4 := pf_msr (corestate s (nat i)) 6)) \<and>
    sys_first_core t = sys_first_core s \<and> sys_active_cores t = sys_active_cores s \<and>
    ddr_bw_target t = ddr_bw_target s \<and> kcommon.more t = kcommon.more s"
  using assms by (simp add: msr_update_def const_simps)


lemma msr_load_eq:
  assumes "core_ok i"
  shows "msr_load cpu i s =
    Some (s\<lparr>corestate := (corestate s)(nat i := (corestate s (nat i))\<lparr>pf_msr :=
      (pf_msr (corestate s (nat i)))(0 := hwreg s cpu 0x1320, 1 := hwreg s cpu 0x1321,
         2 := hwreg s cpu 0x1322, 3 := hwreg s cpu 0x1323, 4 := hwreg s cpu 0x1324,
         5 := hwreg s cpu 0x1327, 6 := hwreg s cpu 0x1a4)\<rparr>)\<rparr>)"
  using assms by (simp add: msr_load_def rdmsr_def const_simps)

lemma all_less_7: "(\<forall>k < 7. P k) \<longleftrightarrow> P 0 \<and> P 1 \<and> P 2 \<and> P 3 \<and> P 4 \<and> P 5 \<and> P (6 :: nat)"
  by (simp add: numeral_eq_Suc All_less_Suc conj_ac)

text \<open>
  Writing a core's register image to the hardware and loading it again is the
  identity. For any core numbers in range \<open>msr_update\<close> succeeds, clears the dirty mark,
  changes no register of another CPU and no register other than the seven it names; a
  \<open>msr_load\<close> on the same CPU then gives any core exactly the image that was written.
\<close>

theorem msr_update_load:
  assumes "core_ok i" and "core_ok j"
  shows "\<exists>t u. msr_update cpu i s = Some t \<and> msr_load cpu j t = Some u \<and>
    pf_msr_dirty (corestate t (nat i)) = 0 \<and>
    (\<forall>k < NR_OF_MSR. pf_msr (corestate u (nat j)) k = pf_msr (corestate s (nat i)) k) \<and>
    (\<forall>c a. c \<noteq> cpu \<or> a \<notin> set kmsr_addr \<longrightarrow> hwreg t c a = hwreg s c a)"
proof -
  obtain t where t: "msr_update cpu i s = Some t"
    "corestate t = (corestate s)(nat i := (corestate s (nat i))\<lparr>pf_msr_dirty := 0\<rparr>)"
    "hwreg t = (hwreg s)(cpu := (hwreg s cpu)(
        0x1320 := pf_msr (corestate s (nat i)) 0, 0x1321 := pf_msr (corestate s (nat i)) 1,
        0x1322 := pf_msr (corestate s (nat i)) 2, 0x1323 := pf_msr (corestate s (nat i)) 3,
        0x1324 := pf_msr (corestate s (nat i)) 4, 0x1327 := pf_msr (corestate s (nat i)) 5,
        0x1a4 := pf_msr (corestate s (nat i)) 6))"
    using msr_update_eq [OF assms(1), of cpu s] by blast
  have "\<forall>c a. c \<noteq> cpu \<or> a \<notin> set kmsr_addr \<longrightarrow> hwreg t c a = hwreg s c a"
    unfolding t(3) by (simp add: kmsr_addr_def)
  moreover have "pf_msr_dirty (corestate t (nat i)) = 0"
    unfolding t(2) by simp
  ultimately show ?thesis
    unfolding msr_load_eq [OF assms(2)] NR_OF_MSR_def all_less_7 using t(1,3) by simp
qed

definition demo_core :: core_state_s where
  "demo_core = \<lparr>pmu_raw = (\<lambda>_. 0), pmu_old = (\<lambda>_. 0), pf_msr = (\<lambda>i. word_of_nat i), pf_msr_dirty = 1,
     core_disabled = 0\<rparr>"

definition demo_kcommon :: kcommon where
  "demo_kcommon = \<lparr>sys_first_core = 0, sys_active_cores = 4, corestate = (\<lambda>_. demo_core),
     ddr_bw_target = 0, hwreg = (\<lambda>_ _. 0)\<rparr>"

theorem msr_update_load_witness:
  "core_ok 1 \<and> core_ok 2 \<and>
   (\<exists>t u. msr_update 1 1 demo_kcommon = Some t \<and> msr_load 1 2 t = Some u \<and>
     pf_msr_dirty (corestate t 1) = 0 \<and>
     (\<forall>k < NR_OF_MSR. pf_msr (corestate u 2) k = word_of_nat k) \<and>
     (\<forall>c a. c \<noteq> 1 \<or> a \<notin> set kmsr_addr \<longrightarrow> hwreg t c a = 0))"
proof -
  have ok: "core_ok 1" "core_ok 2" by (simp_all add: core_ok_def const_simps)
  show ?thesis
    using ok msr_update_load [OF ok, of 1 demo_kcommon]
    by (simp add: demo_kcommon_def demo_core_def)
qed

lemma all_less_8:
  "(\<forall>k < 8. P k) \<longleftrightarrow> P 0 \<and> P 1 \<and> P 2 \<and> P 3 \<and> P 4 \<and> P 5 \<and> P 6 \<and> P (7 :: nat)"
  by (simp add: numeral_eq_Suc All_less_Suc conj_ac)

lemma read_counters_eq: "k < K_PMU_COUNTERS \<Longrightarrow> read_counters pmc cpu raw k = pmc cpu k"
proof -
  have "\<forall>k < 8. read_counters pmc cpu raw k = pmc cpu k"
    unfolding all_less_8 by (simp add: read_counters_def const_simps)
  then show "k < K_PMU_COUNTERS \<Longrightarrow> ?thesis" by (simp add: const_simps)
qed

lemma pmu_update_enabled:
  assumes "core_ok i" and "core_disabled (corestate s (nat i)) = 0"
  shows "pmu_update pmc cpu i s =
    (0, s\<lparr>corestate := (corestate s)(nat i := (corestate s (nat i))
      \<lparr>pmu_old := (\<lambda>k. if k < K_PMU_COUNTERS then pmu_raw (corestate s (nat i)) k
                       else pmu_old (corestate s (nat i)) k),
       pmu_raw := read_counters pmc cpu (pmu_raw (corestate s (nat i)))\<rparr>)\<rparr>)"
  using assms by (auto simp: pmu_update_def core_ok_def Let_def)

lemma pmu_update_rejected:
  assumes "\<not> (core_ok i \<and> core_disabled (corestate s (nat i)) = 0)"
  shows "pmu_update pmc cpu i s = (- EINVAL, s)"
  using assms by (auto simp: pmu_update_def core_ok_def)

text \<open>
  Between two updates of an enabled core, \<open>pmu_raw - pmu_old\<close> is the progress of
  each of the eight counters, modulo their width, whatever the core held before; a core that is
  disabled or out of range is refused with \<open>-EINVAL\<close> and nothing changes.
\<close>

theorem pmu_update_twice:
  "if core_ok i \<and> core_disabled (corestate s (nat i)) = 0
   then \<exists>t u. pmu_update pmc1 cpu i s = (0, t) \<and> pmu_update pmc2 cpu i t = (0, u) \<and>
      (\<forall>k < K_PMU_COUNTERS. pmu_raw (corestate u (nat i)) k - pmu_old (corestate u (nat i)) k
                            = pmc2 cpu k - pmc1 cpu k) \<and>
      (\<forall>j. j \<noteq> nat i \<longrightarrow> corestate u j = corestate s j)
   else pmu_update pmc1 cpu i s = (- EINVAL, s)"
proof (cases "core_ok i \<and> core_disabled (corestate s (nat i)) = 0")
  case True
  then show ?thesis
    by (simp add: pmu_update_enabled read_counters_eq)
next
  case False
  then show ?thesis by (simp only: if_False pmu_update_rejected [OF False])
qed

theorem pmu_update_twice_witness:
  "\<exists>t u. pmu_update (\<lambda>_ k. word_of_nat k) 0 0 demo_kcommon = (0, t) \<and>
     pmu_update (\<lambda>_ k. 10) 0 0 t = (0, u) \<and>
     (\<forall>k < K_PMU_COUNTERS. pmu_raw (corestate u 0) k - pmu_old (corestate u 0) k = 10 - word_of_nat k) \<and>
     (\<forall>j. j \<noteq> 0 \<longrightarrow> corestate u j = demo_core)"
  using pmu_update_twice [of 0 demo_kcommon "\<lambda>_ k. word_of_nat k" 0 "\<lambda>_ _. 10"]
  by (simp add: demo_kcommon_def demo_core_def core_ok_def const_simps)

end
