(* ===== verification/Kernel_Mab.thy ===== *)
theory Kernel_Mab
  imports Kernel_Common
begin

text \<open>
  \<open>kernelmod/kernel_mab.h\<close> and \<open>kernelmod/kernel_mab.c\<close>: the multi-armed bandit that runs
  in the kernel module. Each arm is one configuration of the prefetch registers. A compute
  module is four consecutive cores; its first active core (the leader) scans the arms once and
  then, tick by tick, keeps or changes the arm of the module.

  The clock is the parameter \<open>now\<close> (\<open>ktime_get_ns\<close>). The local array \<open>scores\<close> of
  \<open>mab_tuning\<close> is not initialised by the code; what it holds on entry is the parameter
  \<open>junk\<close>. The argument list of a \<open>pr_info\<close> is evaluated before the call, so the
  divisions and array accesses in it are part of the model.
\<close>

definition CORES_PER_COMPUTE_MODULE :: int where [const_simps]: "CORES_PER_COMPUTE_MODULE = 4"
definition IDLE_CYCLES_THRESHOLD :: u64 where [const_simps]: "IDLE_CYCLES_THRESHOLD = 500000"
definition MAX_ARMS :: int where [const_simps]: "MAX_ARMS = 10"
definition AVAILABLE_ARMS :: int where [const_simps]: "AVAILABLE_ARMS = 2"
definition SCORE_EVENT_A :: nat where [const_simps]: "SCORE_EVENT_A = PERF_INST_RETIRED_ANY_P"
definition SCORE_EVENT_B :: nat where [const_simps]: "SCORE_EVENT_B = PERF_CPU_CLK_UNHALTED_THREAD"
definition SHIFT_A :: nat where [const_simps]: "SHIFT_A = 0"
definition SHIFT_B :: nat where [const_simps]: "SHIFT_B = 10"
definition IDLE_THRESHOLD :: int where [const_simps]: "IDLE_THRESHOLD = 5"
definition MAX_MODULES :: int where [const_simps]: "MAX_MODULES = MAX_NUM_CORES div CORES_PER_COMPUTE_MODULE"
definition MAB_INIT_NOT_STARTED :: int where [const_simps]: "MAB_INIT_NOT_STARTED = -1"
definition MAB_INIT_IN_PROGRESS :: int where [const_simps]: "MAB_INIT_IN_PROGRESS = 0"
definition MAB_INIT_DONE :: int where [const_simps]: "MAB_INIT_DONE = 1"

record mab_arm =
  score :: u32
  last_score :: u32

record mab_core =
  arms :: "mab_arm arr"
  mc_active_arm :: int
  mc_initialized :: int
  mc_idle_counter :: int
  time_old :: u64

record mab_module =
  mm_active_arm :: int
  mm_initialized :: int
  mm_idle_counter :: int

record kmab = kcommon +
  tune_alg :: int
  aggr :: int
  mab_cores :: "mab_core arr"
  mab_modules :: "mab_module arr"
  mab_arm_configs :: "msr_u arr arr"

section \<open>Access to the arrays\<close>

definition mab_core_at :: "'a kmab_scheme \<Rightarrow> int \<Rightarrow> mab_core option" where
  "mab_core_at s i = aget MAX_NUM_CORES (mab_cores s) i"

definition upd_mab_core ::
    "int \<Rightarrow> (mab_core \<Rightarrow> mab_core) \<Rightarrow> 'a kmab_scheme \<Rightarrow> 'a kmab_scheme option" where
  "upd_mab_core i f s =
     do { c \<leftarrow> mab_core_at s i; Some (s\<lparr>mab_cores := (mab_cores s)(nat i := f c)\<rparr>) }"

definition mab_module_at :: "'a kmab_scheme \<Rightarrow> int \<Rightarrow> mab_module option" where
  "mab_module_at s i = aget MAX_MODULES (mab_modules s) i"

definition upd_mab_module ::
    "int \<Rightarrow> (mab_module \<Rightarrow> mab_module) \<Rightarrow> 'a kmab_scheme \<Rightarrow> 'a kmab_scheme option" where
  "upd_mab_module i f s =
     do { c \<leftarrow> mab_module_at s i; Some (s\<lparr>mab_modules := (mab_modules s)(nat i := f c)\<rparr>) }"

definition arm_at :: "'a kmab_scheme \<Rightarrow> int \<Rightarrow> int \<Rightarrow> mab_arm option" where
  "arm_at s core_id arm = do { c \<leftarrow> mab_core_at s core_id; aget MAX_ARMS (arms c) arm }"

definition upd_arm ::
    "int \<Rightarrow> int \<Rightarrow> (mab_arm \<Rightarrow> mab_arm) \<Rightarrow> 'a kmab_scheme \<Rightarrow> 'a kmab_scheme option" where
  "upd_arm core_id arm f s =
     do { a \<leftarrow> arm_at s core_id arm;
          upd_mab_core core_id (\<lambda>c. c\<lparr>arms := (arms c)(nat arm := f a)\<rparr>) s }"

text \<open>A loop that returns the first index that satisfies a test, else \<open>-1\<close>.\<close>

fun find_from :: "nat \<Rightarrow> int \<Rightarrow> (int \<Rightarrow> bool option) \<Rightarrow> int option" where
  "find_from 0 i p = Some (-1)"
| "find_from (Suc n) i p = do { b \<leftarrow> p i; if b then Some i else find_from n (i + 1) p }"

definition module_start :: "'a kmab_scheme \<Rightarrow> int \<Rightarrow> int" where
  "module_start s module_idx = sys_first_core s + module_idx * CORES_PER_COMPUTE_MODULE"

definition mab_first_enabled_core :: "int \<Rightarrow> 'a kmab_scheme \<Rightarrow> int option" where
  "mab_first_enabled_core module_idx s =
     find_from (nat CORES_PER_COMPUTE_MODULE) (module_start s module_idx)
       (\<lambda>i. do { c \<leftarrow> core_at s i; Some (core_disabled c = 0) })"

text \<open>Enabled and not idle: the test of the loops over a module's cores.\<close>

definition core_participates :: "'a kmab_scheme \<Rightarrow> int \<Rightarrow> bool option" where
  "core_participates s i =
     do { c \<leftarrow> core_at s i;
          if core_disabled c \<noteq> 0 then Some False
          else do { m \<leftarrow> mab_core_at s i; Some (\<not> mc_idle_counter m > 0) } }"

definition mab_first_active_core :: "int \<Rightarrow> 'a kmab_scheme \<Rightarrow> int option" where
  "mab_first_active_core module_idx s =
     find_from (nat CORES_PER_COMPUTE_MODULE) (module_start s module_idx) (core_participates s)"

definition mab_module_score :: "int \<Rightarrow> int \<Rightarrow> 'a kmab_scheme \<Rightarrow> u32 option" where
  "mab_module_score module_idx arm_id s =
     do { (total_score, cores_count) \<leftarrow>
            for_range (module_start s module_idx) (module_start s module_idx + CORES_PER_COMPUTE_MODULE)
              (\<lambda>i (total_score :: u64, cores_count :: int).
                 do { p \<leftarrow> core_participates s i;
                      if \<not> p then Some (total_score, cores_count)
                      else do { a \<leftarrow> arm_at s i arm_id;
                                Some (total_score + ucast (score a), cores_count + 1) } })
              (0, 0);
          Some (if cores_count = 0 then 0 else ucast (total_score div word_of_int cores_count)) }"

definition mab_apply_msr_config :: "int \<Rightarrow> int \<Rightarrow> 'a kmab_scheme \<Rightarrow> (int \<times> 'a kmab_scheme) option" where
  "mab_apply_msr_config core_id arm_id s =
     (if arm_id < 0 \<or> arm_id \<ge> MAX_ARMS then Some (- EINVAL, s)
      else do { s \<leftarrow> upd_core core_id (\<lambda>c. c\<lparr>pf_msr := (\<lambda>i. if i < NR_OF_MSR
                   then mab_arm_configs s (nat arm_id) i else pf_msr c i)\<rparr>) s;
                s \<leftarrow> msr_set_dirty core_id s;
                Some (0, s) })"

text \<open>The \<open>pr_info\<close> divides before the test for zero: with no scaled cycles the division
  traps.\<close>

definition mab_compute_score :: "int \<Rightarrow> 'a kmab_scheme \<Rightarrow> u32 option" where
  "mab_compute_score core_id s =
     do { c \<leftarrow> core_at s core_id;
          let event_a = pmu_raw c SCORE_EVENT_A - pmu_old c SCORE_EVENT_A;
          let event_b = pmu_raw c SCORE_EVENT_B - pmu_old c SCORE_EVENT_B;
          let a_scaled = drop_bit SHIFT_A event_a;
          let b_scaled = drop_bit SHIFT_B event_b;
          if b_scaled = 0 then None
          else Some (ucast (a_scaled div b_scaled)) }"

definition mab_core_is_active :: "u64 \<Rightarrow> int \<Rightarrow> 'a kmab_scheme \<Rightarrow> (int \<times> 'a kmab_scheme) option" where
  "mab_core_is_active now core_id s =
     do { m \<leftarrow> mab_core_at s core_id;
          c \<leftarrow> core_at s core_id;
          s' \<leftarrow> upd_mab_core core_id (\<lambda>m. m\<lparr>time_old := now\<rparr>) s;
          if time_old m = 0 then Some (-1, s')
          else let time_delta_ms = (now - time_old m) div 1000000
               in if time_delta_ms = 0 then Some (-1, s')
                  else let core_cycles = pmu_raw c PERF_CPU_CLK_UNHALTED_THREAD
                                         - pmu_old c PERF_CPU_CLK_UNHALTED_THREAD;
                           cycles_per_ms = core_cycles div time_delta_ms
                       in if cycles_per_ms < IDLE_CYCLES_THRESHOLD then Some (0, s') else Some (1, s') }"

definition boot_default_arm :: "msr_u arr" where
  "boot_default_arm = (\<lambda>_. 0)(MSR_1320_INDEX := 0x10883fea070906c4,
     MSR_1321_INDEX := 0x0000251134140001, MSR_1322_INDEX := 0x2807ffff4cd0046c,
     MSR_1323_INDEX := 0x0001f9c0c0000000, MSR_1324_INDEX := 0x0600000000000000,
     MSR_1327_INDEX := 0x0000000005920014, MSR_1A4_INDEX := 0x0000000000000004)"

definition aggressive_arm :: "msr_u arr" where
  "aggressive_arm = (\<lambda>_. 0)(MSR_1320_INDEX := 0x008837ea070906c0,
     MSR_1321_INDEX := 0x0000251134040001, MSR_1322_INDEX := 0x280020820cd0046c,
     MSR_1323_INDEX := 0x0001f9c0c0000000, MSR_1324_INDEX := 0x0600000000000000,
     MSR_1327_INDEX := 0x0000000001920014, MSR_1A4_INDEX := 0x0000000000000004)"

definition set_arm :: "msr_u arr \<Rightarrow> msr_u arr \<Rightarrow> msr_u arr" where
  "set_arm cfg old = (\<lambda>i. if i < NR_OF_MSR then cfg i else old i)"

definition mab_setup_default_arms :: "'a kmab_scheme \<Rightarrow> 'a kmab_scheme" where
  "mab_setup_default_arms s =
     s\<lparr>mab_arm_configs := (mab_arm_configs s)(
         0 := set_arm boot_default_arm (mab_arm_configs s 0),
         1 := set_arm aggressive_arm (mab_arm_configs s 1))\<rparr>"

text \<open>The best of the arms by the scores kept in one core, lowest index first.\<close>

definition best_arm_of :: "int \<Rightarrow> 'a kmab_scheme \<Rightarrow> int option" where
  "best_arm_of core_id s =
     for_range 1 AVAILABLE_ARMS
       (\<lambda>i best_arm. do { a \<leftarrow> arm_at s core_id i; b \<leftarrow> arm_at s core_id best_arm;
                          Some (if score a > score b then i else best_arm) }) 0"

definition mab_init_core_step :: "int \<Rightarrow> 'a kmab_scheme \<Rightarrow> (int \<times> 'a kmab_scheme) option" where
  "mab_init_core_step core_id s =
     do { m \<leftarrow> mab_core_at s core_id;
          if mc_initialized m = MAB_INIT_NOT_STARTED
          then do { (r, s) \<leftarrow> mab_apply_msr_config core_id 0 s;
                    if r < 0 then Some (- EINVAL, s)
                    else do { s \<leftarrow> upd_mab_core core_id
                                (\<lambda>m. m\<lparr>mc_active_arm := 0, mc_initialized := MAB_INIT_IN_PROGRESS\<rparr>) s;
                              Some (0, s) } }
          else do { sc \<leftarrow> mab_compute_score core_id s;
                    let active_arm = mc_active_arm m;
                    s \<leftarrow> upd_arm core_id active_arm (\<lambda>a. a\<lparr>last_score := score a, score := sc\<rparr>) s;
                    if active_arm + 1 < AVAILABLE_ARMS
                    then do { s \<leftarrow> upd_mab_core core_id (\<lambda>m. m\<lparr>mc_active_arm := active_arm + 1\<rparr>) s;
                              (r, s) \<leftarrow> mab_apply_msr_config core_id (active_arm + 1) s;
                              if r < 0 then Some (- EINVAL, s) else Some (0, s) }
                    else do { best_arm \<leftarrow> best_arm_of core_id s;
                              s \<leftarrow> upd_mab_core core_id (\<lambda>m. m\<lparr>mc_active_arm := best_arm\<rparr>) s;
                              (r, s) \<leftarrow> mab_apply_msr_config core_id best_arm s;
                              if r < 0 then Some (- EINVAL, s)
                              else do { s \<leftarrow> upd_mab_core core_id
                                          (\<lambda>m. m\<lparr>mc_initialized := MAB_INIT_DONE\<rparr>) s;
                                        Some (0, s) } } } }"

text \<open>The update of one core's scores: the active arm takes the new score, the others gain
  \<open>aggr\<close>.\<close>

definition mab_tuning_scores :: "int \<Rightarrow> int \<Rightarrow> 'a kmab_scheme \<Rightarrow> 'a kmab_scheme option" where
  "mab_tuning_scores core_id active_arm s =
     do { sc \<leftarrow> mab_compute_score core_id s;
          s \<leftarrow> upd_arm core_id active_arm (\<lambda>a. a\<lparr>last_score := score a, score := sc\<rparr>) s;
          s \<leftarrow> for_range 0 AVAILABLE_ARMS
                (\<lambda>i s. if i \<noteq> active_arm
                       then upd_arm core_id i (\<lambda>a. a\<lparr>score := score a + word_of_int (aggr s)\<rparr>) s
                       else Some s) s;
          _ \<leftarrow> arm_at s core_id (1 - active_arm);
          Some s }"

definition mab_select :: "u32 arr \<Rightarrow> int \<Rightarrow> int \<Rightarrow> 'a kmab_scheme \<Rightarrow> int option" where
  "mab_select junk module_idx active_arm s =
     map_option snd
       (for_range 0 AVAILABLE_ARMS
          (\<lambda>i (scores, best_arm).
             do { sc \<leftarrow> mab_module_score module_idx i s;
                  scores \<leftarrow> aset AVAILABLE_ARMS scores i sc;
                  a \<leftarrow> aget AVAILABLE_ARMS scores i;
                  b \<leftarrow> aget AVAILABLE_ARMS scores best_arm;
                  Some (scores, if a > b then i else best_arm) })
          (junk, active_arm))"

definition mab_tuning :: "u32 arr \<Rightarrow> int \<Rightarrow> 'a kmab_scheme \<Rightarrow> (int \<times> 'a kmab_scheme) option" where
  "mab_tuning junk core_id s =
     do { let module_idx = module_id s core_id;
          md \<leftarrow> mab_module_at s module_idx;
          let active_arm = mm_active_arm md;
          s \<leftarrow> mab_tuning_scores core_id active_arm s;
          leader \<leftarrow> mab_first_active_core module_idx s;
          if core_id \<noteq> leader then Some (0, s)
          else do { best_arm \<leftarrow> mab_select junk module_idx active_arm s;
                    if best_arm \<noteq> active_arm
                    then do { s \<leftarrow> upd_mab_module module_idx (\<lambda>m. m\<lparr>mm_active_arm := best_arm\<rparr>) s;
                              (_, s) \<leftarrow> mab_apply_msr_config core_id best_arm s;
                              Some (0, s) }
                    else Some (0, s) } }"

definition mab_module_fresh_scores :: "int \<Rightarrow> int \<Rightarrow> 'a kmab_scheme \<Rightarrow> 'a kmab_scheme option" where
  "mab_module_fresh_scores module_idx active_arm s =
     for_range (module_start s module_idx) (module_start s module_idx + CORES_PER_COMPUTE_MODULE)
       (\<lambda>i s. do { p \<leftarrow> core_participates s i;
                   if \<not> p then Some s
                   else do { sc \<leftarrow> mab_compute_score i s;
                             upd_arm i active_arm (\<lambda>a. a\<lparr>score := sc\<rparr>) s } }) s"

definition mab_init_module_step :: "int \<Rightarrow> 'a kmab_scheme \<Rightarrow> (int \<times> 'a kmab_scheme) option" where
  "mab_init_module_step core_id s =
     do { let module_idx = module_id s core_id;
          md \<leftarrow> mab_module_at s module_idx;
          if mm_initialized md = MAB_INIT_NOT_STARTED
          then do { (_, s) \<leftarrow> mab_apply_msr_config core_id 0 s;
                    s \<leftarrow> upd_mab_module module_idx
                          (\<lambda>m. m\<lparr>mm_active_arm := 0, mm_initialized := MAB_INIT_IN_PROGRESS\<rparr>) s;
                    Some (0, s) }
          else do { let active_arm = mm_active_arm md;
                    s \<leftarrow> mab_module_fresh_scores module_idx active_arm s;
                    sc \<leftarrow> mab_module_score module_idx active_arm s;
                    s \<leftarrow> upd_arm core_id active_arm (\<lambda>a. a\<lparr>score := sc\<rparr>) s;
                    if active_arm + 1 < AVAILABLE_ARMS
                    then do { s \<leftarrow> upd_mab_module module_idx (\<lambda>m. m\<lparr>mm_active_arm := active_arm + 1\<rparr>) s;
                              (_, s) \<leftarrow> mab_apply_msr_config core_id (active_arm + 1) s;
                              Some (0, s) }
                    else do { best_arm \<leftarrow> best_arm_of core_id s;
                              s \<leftarrow> upd_mab_module module_idx (\<lambda>m. m\<lparr>mm_active_arm := best_arm\<rparr>) s;
                              (_, s) \<leftarrow> mab_apply_msr_config core_id best_arm s;
                              s \<leftarrow> upd_mab_module module_idx
                                    (\<lambda>m. m\<lparr>mm_initialized := MAB_INIT_DONE\<rparr>) s;
                              Some (0, s) } } }"

section \<open>The cores of a module\<close>

lemmas mab_consts = CORES_PER_COMPUTE_MODULE_def MAX_NUM_CORES_def MAX_ARMS_def AVAILABLE_ARMS_def
  MAX_MODULES_def

definition module_cores :: "'a kmab_scheme \<Rightarrow> int \<Rightarrow> int set" where
  "module_cores s m = {module_start s m ..< module_start s m + CORES_PER_COMPUTE_MODULE}"

definition module_in_bounds :: "'a kmab_scheme \<Rightarrow> int \<Rightarrow> bool" where
  "module_in_bounds s m \<longleftrightarrow>
     0 \<le> module_start s m \<and> module_start s m + CORES_PER_COMPUTE_MODULE \<le> MAX_NUM_CORES"

definition enabled :: "'a kmab_scheme \<Rightarrow> int \<Rightarrow> bool" where
  "enabled s i \<longleftrightarrow> core_disabled (corestate s (nat i)) = 0"

definition participates :: "'a kmab_scheme \<Rightarrow> int \<Rightarrow> bool" where
  "participates s i \<longleftrightarrow> enabled s i \<and> mc_idle_counter (mab_cores s (nat i)) \<le> 0"

definition active_set :: "'a kmab_scheme \<Rightarrow> int \<Rightarrow> int set" where
  "active_set s m = {i \<in> module_cores s m. participates s i}"

definition arm_score :: "'a kmab_scheme \<Rightarrow> int \<Rightarrow> int \<Rightarrow> u32" where
  "arm_score s i a = score (arms (mab_cores s (nat i)) (nat a))"

text \<open>The first element that satisfies a test, as a minimum.\<close>

definition least_or_none :: "int set \<Rightarrow> int" where
  "least_or_none A = (if A = {} then -1 else Min A)"

lemma least_or_none_least:
  assumes "finite A" "k \<in> A" "\<And>j. j \<in> A \<Longrightarrow> k \<le> j"
  shows "least_or_none A = k"
  using assms by (auto simp: least_or_none_def intro!: Min_eqI)

lemma find_from_least:
  assumes "\<And>j. i \<le> j \<Longrightarrow> j < i + int n \<Longrightarrow> p j = Some (P j)"
  shows "find_from n i p = Some (least_or_none {j \<in> {i ..< i + int n}. P j})"
  using assms
proof (induction n arbitrary: i)
  case 0
  then show ?case by (simp add: least_or_none_def)
next
  case (Suc n)
  show ?case
  proof (cases "P i")
    case True
    have "least_or_none {j \<in> {i ..< i + int (Suc n)}. P j} = i"
    proof (rule least_or_none_least)
      show "finite {j \<in> {i ..< i + int (Suc n)}. P j}" by (rule finite_subset [of _ "{i ..< i + int (Suc n)}"]) auto
    qed (use True in auto)
    then show ?thesis using Suc.prems [of i] True by simp
  next
    case False
    have "{j \<in> {i ..< i + int (Suc n)}. P j} = {j \<in> {i + 1 ..< i + 1 + int n}. P j}"
    proof (rule set_eqI)
      fix j
      show "j \<in> {j \<in> {i ..< i + int (Suc n)}. P j} \<longleftrightarrow> j \<in> {j \<in> {i + 1 ..< i + 1 + int n}. P j}"
        using False by (cases "j = i") auto
    qed
    moreover have "find_from n (i + 1) p = Some (least_or_none {j \<in> {i + 1 ..< i + 1 + int n}. P j})"
      using Suc.prems by (intro Suc.IH) auto
    ultimately show ?thesis using Suc.prems [of i] False by simp
  qed
qed

lemma module_core_ok:
  "module_in_bounds s m \<Longrightarrow> module_start s m \<le> i \<Longrightarrow> i < module_start s m + 4 \<Longrightarrow> core_ok i"
  by (auto simp: module_in_bounds_def core_ok_def mab_consts)

lemma mab_core_at_ok [simp]: "core_ok i \<Longrightarrow> mab_core_at s i = Some (mab_cores s (nat i))"
  by (simp add: mab_core_at_def core_ok_def)

lemma upd_mab_core_ok [simp]:
  "core_ok i \<Longrightarrow>
   upd_mab_core i f s = Some (s\<lparr>mab_cores := (mab_cores s)(nat i := f (mab_cores s (nat i)))\<rparr>)"
  by (simp add: upd_mab_core_def)

lemma arm_at_ok [simp]:
  "core_ok i \<Longrightarrow> 0 \<le> a \<Longrightarrow> a < MAX_ARMS \<Longrightarrow> arm_at s i a = Some (arms (mab_cores s (nat i)) (nat a))"
  by (simp add: arm_at_def)

lemma core_participates_ok [simp]: "core_ok i \<Longrightarrow> core_participates s i = Some (participates s i)"
  by (auto simp: core_participates_def participates_def enabled_def)

lemma core_participates_None: "core_participates s i = None \<longleftrightarrow> \<not> core_ok i"
  by (cases "core_ok i") (simp, simp add: core_participates_def)

lemma mab_first_active_core_eq:
  assumes "module_in_bounds s m"
  shows "mab_first_active_core m s = Some (least_or_none (active_set s m))"
  unfolding mab_first_active_core_def
  by (subst find_from_least [where P = "participates s"])
     (use module_core_ok [OF assms] in
      \<open>auto simp: active_set_def module_cores_def mab_consts\<close>)

lemma mab_first_enabled_core_eq:
  assumes "module_in_bounds s m"
  shows "mab_first_enabled_core m s = Some (least_or_none {i \<in> module_cores s m. enabled s i})"
  unfolding mab_first_enabled_core_def
  by (subst find_from_least [where P = "enabled s"])
     (use module_core_ok [OF assms] in \<open>auto simp: module_cores_def enabled_def mab_consts\<close>)

text \<open>
  Claim C9: leader election. When the four cores of a module lie inside the core table,
  \<open>mab_first_active_core\<close> returns the smallest enabled core of the module that is not idle,
  and \<open>mab_first_enabled_core\<close> the smallest enabled one; \<open>-1\<close> stands for none.
\<close>

theorem leader_election:
  assumes "module_in_bounds s m"
  shows "mab_first_active_core m s = Some (least_or_none (active_set s m)) \<and>
         mab_first_enabled_core m s = Some (least_or_none {i \<in> module_cores s m. enabled s i})"
  using assms by (simp add: mab_first_active_core_eq mab_first_enabled_core_eq)

definition demo_arm :: mab_arm where
  "demo_arm = \<lparr>score = 0, last_score = 0\<rparr>"

definition demo_kmab :: kmab where
  "demo_kmab = kcommon.extend
     (demo_kcommon\<lparr>corestate := (\<lambda>i. demo_core\<lparr>core_disabled := if i = 0 then 1 else 0,
        pmu_raw := (\<lambda>j. if j = PERF_INST_RETIRED_ANY_P then word_of_nat (4096 * i) else 2048)\<rparr>)\<rparr>)
     (kmab.fields 0 3
       (\<lambda>i. \<lparr>arms = (\<lambda>_. demo_arm), mc_active_arm = 0, mc_initialized = -1,
             mc_idle_counter = (if i = 1 then 2 else 0), time_old = 5\<rparr>)
       (\<lambda>_. \<lparr>mm_active_arm = 0, mm_initialized = -1, mm_idle_counter = 0\<rparr>)
       (\<lambda>a k. word_of_nat (10 * a + k)))"

lemmas demo_kmab_simps = demo_kmab_def kcommon.defs kmab.defs demo_kcommon_def demo_core_def demo_arm_def

text \<open>Core 0 is disabled and core 1 idle, so core 2 leads.\<close>

theorem leader_election_witness:
  "module_in_bounds demo_kmab 0 \<and>
   mab_first_active_core 0 demo_kmab = Some 2 \<and> mab_first_enabled_core 0 demo_kmab = Some 1"
proof -
  have b: "module_in_bounds demo_kmab 0"
    by (simp add: module_in_bounds_def module_start_def demo_kmab_simps mab_consts)
  have "least_or_none (active_set demo_kmab 0) = 2"
  proof (rule least_or_none_least)
    show "finite (active_set demo_kmab 0)"
      by (rule finite_subset [of _ "module_cores demo_kmab 0"]) (auto simp: active_set_def module_cores_def)
  qed (auto simp: active_set_def module_cores_def module_start_def participates_def enabled_def
         demo_kmab_simps mab_consts split: if_splits)
  moreover have "least_or_none {i \<in> module_cores demo_kmab 0. enabled demo_kmab i} = 1"
  proof (rule least_or_none_least)
    show "finite {i \<in> module_cores demo_kmab 0. enabled demo_kmab i}"
      by (rule finite_subset [of _ "module_cores demo_kmab 0"]) (auto simp: module_cores_def)
  qed (auto simp: module_cores_def module_start_def enabled_def demo_kmab_simps mab_consts split: if_splits)
  ultimately show ?thesis
    using leader_election [OF b] b by simp
qed

section \<open>Scores\<close>

definition score_cycles :: "'a kcommon_scheme \<Rightarrow> int \<Rightarrow> u64" where
  "score_cycles s i = pmu_raw (corestate s (nat i)) SCORE_EVENT_B - pmu_old (corestate s (nat i)) SCORE_EVENT_B"

definition score_insts :: "'a kcommon_scheme \<Rightarrow> int \<Rightarrow> u64" where
  "score_insts s i = pmu_raw (corestate s (nat i)) SCORE_EVENT_A - pmu_old (corestate s (nat i)) SCORE_EVENT_A"

text \<open>A core whose score can be computed: at least \<open>2^10\<close> cycles since the last reading.\<close>

definition scorable :: "'a kcommon_scheme \<Rightarrow> int \<Rightarrow> bool" where
  "scorable s i \<longleftrightarrow> 1024 \<le> score_cycles s i"

definition core_score :: "'a kcommon_scheme \<Rightarrow> int \<Rightarrow> u32" where
  "core_score s i = ucast (score_insts s i div drop_bit 10 (score_cycles s i))"

lemma ucast_of_unat: "(ucast (w :: u64) :: u32) = word_of_nat (unat w)"
  by (simp add: unsigned_of_nat [symmetric])

lemma drop_bit_10_zero: "drop_bit 10 (w :: u64) = 0 \<longleftrightarrow> w < 1024"
  by (simp add: drop_bit_eq_div word_less_nat_alt word_eq_iff_unsigned [where 'a = nat] unat_div div_eq_0_iff)

lemma mab_compute_score_eq:
  "mab_compute_score i s = (if core_ok i \<and> scorable s i then Some (core_score s i) else None)"
  by (cases "core_ok i")
     (auto simp: mab_compute_score_def scorable_def core_score_def score_cycles_def score_insts_def
        drop_bit_10_zero SHIFT_A_def SHIFT_B_def not_le Let_def)

text \<open>
  The exact condition under which scoring a core is defined. A score is computed iff
  the core is in range and has run at least \<open>2^10\<close> cycles since the previous reading; with
  fewer cycles the argument list of the log line divides by zero, although the code after it
  guards against that. The score is the number of instructions divided by the number of whole
  units of \<open>2^10\<close> cycles, cut to 32 bits.
\<close>

theorem mab_compute_score_defined_iff:
  "(mab_compute_score i s = None \<longleftrightarrow> \<not> core_ok i \<or> unat (score_cycles s i) < 2 ^ SHIFT_B) \<and>
   (core_ok i \<and> 2 ^ SHIFT_B \<le> unat (score_cycles s i) \<longrightarrow>
    mab_compute_score i s =
      Some (word_of_nat (unat (score_insts s i) div (unat (score_cycles s i) div 2 ^ SHIFT_B))))"
proof -
  have c: "scorable s i \<longleftrightarrow> 2 ^ SHIFT_B \<le> unat (score_cycles s i)"
    by (simp add: scorable_def word_le_nat_alt SHIFT_B_def)
  have "core_score s i = word_of_nat (unat (score_insts s i) div (unat (score_cycles s i) div 2 ^ SHIFT_B))"
    by (simp add: core_score_def SHIFT_B_def ucast_of_unat unat_div drop_bit_eq_div)
  then show ?thesis
    by (auto simp: mab_compute_score_eq c)
qed

lemma demo_score_regs: "score_cycles demo_kmab 2 = 2048" "score_insts demo_kmab 2 = 8192"
  by (simp_all add: score_cycles_def score_insts_def demo_kmab_simps const_simps)

theorem mab_compute_score_defined_iff_witness:
  "mab_compute_score 2 demo_kmab = Some 4096 \<and>
   mab_compute_score 2 (demo_kmab\<lparr>corestate := (\<lambda>_. demo_core)\<rparr>) = None"
  using mab_compute_score_defined_iff [of 2 demo_kmab]
    mab_compute_score_defined_iff [of 2 "demo_kmab\<lparr>corestate := (\<lambda>_. demo_core)\<rparr>"]
  by (simp add: demo_score_regs SHIFT_B_def core_ok_def mab_consts)
     (simp add: score_cycles_def demo_core_def)

text \<open>The test for activity leaves everything but \<open>time_old\<close> alone.\<close>

lemma mab_core_is_active_eq:
  assumes "core_ok i"
  shows "mab_core_is_active now i s = Some
    (let dt = (now - time_old (mab_cores s (nat i))) div 1000000
     in if time_old (mab_cores s (nat i)) = 0 \<or> dt = 0 then -1
        else if score_cycles s i div dt < IDLE_CYCLES_THRESHOLD then 0 else 1,
     s\<lparr>mab_cores := (mab_cores s)(nat i := (mab_cores s (nat i))\<lparr>time_old := now\<rparr>)\<rparr>)"
  using assms by (simp add: mab_core_is_active_def score_cycles_def SCORE_EVENT_B_def Let_def)

lemma u64_div_le: "(a :: u64) div b \<le> a"
  by (simp add: word_le_nat_alt unat_div)

lemma active_scorable:
  assumes "mab_core_is_active now i s = Some (1, t)" and "core_ok i"
  shows "scorable t i"
proof -
  let ?dt = "(now - time_old (mab_cores s (nat i))) div 1000000"
  have "\<not> score_cycles s i div ?dt < 500000" and t: "corestate t = corestate s"
    using assms by (auto simp: mab_core_is_active_eq Let_def IDLE_CYCLES_THRESHOLD_def split: if_splits)
  then have "500000 \<le> score_cycles s i"
    using order_trans [OF _ u64_div_le, of 500000 "score_cycles s i" ?dt] by (simp add: not_less)
  then have "1024 \<le> score_cycles s i"
    by (rule order_trans [rotated]) simp
  then show ?thesis
    by (simp add: scorable_def score_cycles_def t)
qed

text \<open>
  A core that the activity test reports as active can be scored: the interval and
  the cycle threshold exclude the division by zero, so the score of the very core that is
  running is always defined.
\<close>

theorem active_core_has_score:
  assumes "mab_core_is_active now i s = Some (1, t)"
  shows "\<exists>v. mab_compute_score i t = Some v"
proof -
  have "core_ok i"
    using assms by (cases "core_ok i") (simp_all add: mab_core_is_active_def mab_core_at_def core_ok_def)
  then show ?thesis
    using active_scorable [OF assms] by (simp add: mab_compute_score_eq)
qed

definition busy_kmab :: kmab where
  "busy_kmab = demo_kmab\<lparr>corestate := (\<lambda>_. demo_core\<lparr>pmu_raw := (\<lambda>_. 1000000)\<rparr>)\<rparr>"

theorem active_core_has_score_witness:
  "\<exists>t v. mab_core_is_active 1000005 2 busy_kmab = Some (1, t) \<and> mab_compute_score 2 t = Some v"
proof -
  have "\<exists>t. mab_core_is_active 1000005 2 busy_kmab = Some (1, t)"
    by (simp add: mab_core_is_active_eq core_ok_def mab_consts score_cycles_def busy_kmab_def
        IDLE_CYCLES_THRESHOLD_def demo_kmab_simps)
  then obtain t where t: "mab_core_is_active 1000005 2 busy_kmab = Some (1, t)" by blast
  then show ?thesis using active_core_has_score [OF t] by blast
qed

section \<open>The score of a module\<close>

lemma filtered_range_step:
  "{i \<in> {lo ..< j + 1}. P i} = (if lo \<le> j \<and> P j then insert j {i \<in> {lo ..< j}. P i} else {i \<in> {lo ..< j :: int}. P i})"
proof (rule set_eqI)
  fix i
  show "i \<in> {i \<in> {lo ..< j + 1}. P i} \<longleftrightarrow>
    i \<in> (if lo \<le> j \<and> P j then insert j {i \<in> {lo ..< j}. P i} else {i \<in> {lo ..< j}. P i})"
    by (cases "i = j") auto
qed

lemma finite_filtered_range [simp]: "finite {i \<in> {lo ..< hi :: int}. P i}"
  by (rule finite_subset [of _ "{lo ..< hi}"]) auto

lemma finite_filtered_range' [simp]: "finite {i :: int. lo \<le> i \<and> i < hi \<and> P i}"
  by (rule finite_subset [of _ "{lo ..< hi}"]) auto

lemma module_score_loop:
  assumes b: "module_in_bounds s m" and a: "0 \<le> a" "a < MAX_ARMS"
  shows "for_range (module_start s m) (module_start s m + CORES_PER_COMPUTE_MODULE)
     (\<lambda>i (total_score :: u64, cores_count :: int).
        do { p \<leftarrow> core_participates s i;
             if \<not> p then Some (total_score, cores_count)
             else do { x \<leftarrow> arm_at s i a; Some (total_score + ucast (score x), cores_count + 1) } }) (0, 0)
   = Some (word_of_nat (\<Sum>i\<in>active_set s m. unat (arm_score s i a)), int (card (active_set s m)))"
    (is "for_range ?lo ?hi ?body _ = _")
proof -
  let ?A = "\<lambda>j. {i \<in> {?lo ..< j}. participates s i}"
  let ?I = "\<lambda>j (t, c). t = (word_of_nat (\<Sum>i\<in>?A j. unat (arm_score s i a)) :: u64) \<and> c = int (card (?A j))"
  have "\<exists>t. for_range ?lo ?hi ?body (0, 0) = Some t \<and> ?I ?hi t"
  proof (rule for_range_rule [where I = ?I])
    show "?I ?lo (0, 0)" by simp
    show "?lo \<le> ?hi" by (simp add: mab_consts)
  next
    fix j t
    assume j: "?lo \<le> j" "j < ?hi" and I: "?I j t"
    have ok: "core_ok j"
      using j module_core_ok [OF b, of j] by (simp add: mab_consts)
    obtain tt c where t: "t = (tt, c)" by (cases t)
    show "\<exists>t'. ?body j t = Some t' \<and> ?I (j + 1) t'"
    proof (cases "participates s j")
      case True
      have A: "?A (j + 1) = insert j (?A j)"
        unfolding filtered_range_step using j(1) True by simp
      show ?thesis
        using I True a ok unfolding t A
        by (simp add: arm_score_def unsigned_ucast_eq take_bit_word_eq_self)
    next
      case False
      have A: "?A (j + 1) = ?A j"
        unfolding filtered_range_step using False by simp
      show ?thesis
        using I False ok unfolding t A by simp
    qed
  qed
  then show ?thesis
    by (auto simp: active_set_def module_cores_def)
qed

lemma card_active_set: "card (active_set s m) \<le> 4"
proof -
  have "card (active_set s m) \<le> card (module_cores s m)"
    by (rule card_mono) (auto simp: active_set_def module_cores_def)
  then show ?thesis by (simp add: module_cores_def mab_consts)
qed

lemma finite_active_set [simp]: "finite (active_set s m)"
  by (rule finite_subset [of _ "module_cores s m"]) (auto simp: active_set_def module_cores_def)

definition module_mean :: "'a kmab_scheme \<Rightarrow> int \<Rightarrow> int \<Rightarrow> nat" where
  "module_mean s m a =
     (\<Sum>i\<in>active_set s m. unat (arm_score s i a)) div card (active_set s m)"

lemma active_sum_bound: "(\<Sum>i\<in>active_set s m. unat (arm_score s i a)) \<le> card (active_set s m) * (2 ^ 32 - 1)"
proof -
  have "unat (arm_score s i a) \<le> 2 ^ 32 - 1" for i
    using unsigned_less [where 'a = nat, of "arm_score s i a"] by simp
  then show ?thesis
    using sum_bounded_above [of "active_set s m" "\<lambda>i. unat (arm_score s i a)" "2 ^ 32 - 1"] by simp
qed

lemma module_mean_bound: "module_mean s m a < 2 ^ 32"
proof (cases "card (active_set s m) = 0")
  case True
  then show ?thesis by (simp add: module_mean_def)
next
  case False
  have "module_mean s m a \<le> card (active_set s m) * (2 ^ 32 - 1) div card (active_set s m)"
    unfolding module_mean_def by (rule div_le_mono) (rule active_sum_bound)
  then show ?thesis using False by simp
qed

lemma mab_module_score_eq:
  assumes "module_in_bounds s m" and "0 \<le> a" "a < MAX_ARMS"
  shows "mab_module_score m a s = Some (word_of_nat (module_mean s m a))"
proof -
  let ?S = "\<Sum>i\<in>active_set s m. unat (arm_score s i a)" and ?n = "card (active_set s m)"
  have "?S \<le> 4 * (2 ^ 32 - 1)"
    using active_sum_bound [where s = s and m = m and a = a]
      mult_le_mono1 [OF card_active_set [of s m], of "2 ^ 32 - 1"] by linarith
  then have S: "unat (word_of_nat ?S :: u64) = ?S" by (simp add: unat_of_nat del: of_nat_sum)
  have n: "unat (word_of_nat ?n :: u64) = ?n"
    using card_active_set [of s m] by (simp add: unat_of_nat)
  have "unat (word_of_nat ?S div word_of_nat ?n :: u64) = module_mean s m a"
    by (simp add: unat_div S n module_mean_def del: of_nat_sum)
  then have "ucast (word_of_nat ?S div word_of_nat ?n :: u64) = (word_of_nat (module_mean s m a) :: u32)"
    by (simp add: ucast_of_unat del: of_nat_sum)
  then show ?thesis
    unfolding mab_module_score_def module_score_loop [OF assms]
    by (auto simp: module_mean_def simp del: of_nat_sum)
qed

text \<open>
  The score of a module. When the module lies in the core table,
  \<open>mab_module_score\<close> is the mean, rounded down, of the arm's scores over the enabled cores
  that are not idle (0 when there is none): the 64-bit sum cannot wrap and the mean fits the
  32-bit result.
\<close>

theorem module_score_is_mean:
  assumes "module_in_bounds s m" and "0 \<le> a" and "a < MAX_ARMS"
  shows "\<exists>v. mab_module_score m a s = Some v \<and>
    unat v = (\<Sum>i\<in>active_set s m. unat (arm_score s i a)) div card (active_set s m)"
  using mab_module_score_eq [OF assms] module_mean_bound [of s m a]
  by (simp add: unat_of_nat module_mean_def)

lemma demo_active_set: "active_set demo_kmab 0 = {2, 3}"
  by (auto simp: active_set_def module_cores_def module_start_def participates_def enabled_def
      demo_kmab_simps mab_consts split: if_splits)

text \<open>Both arms of core \<open>i\<close> have score \<open>10 * i\<close>.\<close>

definition tied_kmab :: kmab where
  "tied_kmab = demo_kmab\<lparr>mab_cores := (\<lambda>i. (mab_cores demo_kmab i)
     \<lparr>arms := (\<lambda>_. \<lparr>score = word_of_nat (10 * i), last_score = 0\<rparr>)\<rparr>)\<rparr>"

lemma tied_in_bounds: "module_in_bounds tied_kmab 0"
  by (simp add: module_in_bounds_def module_start_def tied_kmab_def demo_kmab_simps mab_consts)

lemma tied_active_set: "active_set tied_kmab 0 = {2, 3}"
proof -
  have "active_set tied_kmab 0 = active_set demo_kmab 0"
    by (simp add: active_set_def module_cores_def module_start_def participates_def enabled_def tied_kmab_def)
  then show ?thesis by (simp add: demo_active_set)
qed

lemma tied_sum:
  "(\<Sum>i\<in>active_set tied_kmab 0. unat (arm_score tied_kmab i a)) div card (active_set tied_kmab 0) = 25"
  unfolding tied_active_set
  by (simp add: arm_score_def tied_kmab_def unat_of_nat numeral_2_eq_2 [symmetric])

theorem module_score_is_mean_witness:
  "module_in_bounds tied_kmab 0 \<and> (\<exists>v. mab_module_score 0 1 tied_kmab = Some v \<and> unat v = 25)"
  using module_score_is_mean [OF tied_in_bounds, of 1]
  by (simp add: tied_in_bounds tied_sum mab_consts)

text \<open>
  The exact bounds condition of the module scan. Aggregating a module's scores is
  defined iff all four cores of the module are inside the core table: the loop visits all four
  whether they are enabled or not, so a module that starts at one of the last three cores reads
  outside the table.
\<close>

theorem module_scan_defined_iff:
  assumes "0 \<le> a" and "a < MAX_ARMS"
  shows "mab_module_score m a s \<noteq> None \<longleftrightarrow> module_in_bounds s m"
proof (cases "module_in_bounds s m")
  case True
  then show ?thesis using assms by (simp add: mab_module_score_eq)
next
  case False
  then obtain j where j: "module_start s m \<le> j" "j < module_start s m + CORES_PER_COMPUTE_MODULE" "\<not> core_ok j"
    by (cases "0 \<le> module_start s m")
       (auto simp: module_in_bounds_def core_ok_def mab_consts
         intro: that [of "module_start s m"] that [of "module_start s m + 3"])
  then have "core_participates s j = None" by (simp add: core_participates_None)
  then have "mab_module_score m a s = None"
    unfolding mab_module_score_def by (subst for_range_None [OF j(1,2)]) auto
  then show ?thesis using False by simp
qed

theorem module_scan_defined_iff_witness:
  "mab_module_score 0 0 (demo_kmab\<lparr>sys_first_core := 509\<rparr>) = None \<and>
   mab_module_score 0 0 (demo_kmab\<lparr>sys_first_core := 508\<rparr>) \<noteq> None"
  using module_scan_defined_iff [of 0 0 "demo_kmab\<lparr>sys_first_core := 509\<rparr>"]
    module_scan_defined_iff [of 0 0 "demo_kmab\<lparr>sys_first_core := 508\<rparr>"]
  by (simp add: module_in_bounds_def module_start_def mab_consts)

section \<open>Tuning\<close>

text \<open>The effect of the score update of one core.\<close>

definition scored :: "'a kmab_scheme \<Rightarrow> int \<Rightarrow> int \<Rightarrow> 'a kmab_scheme" where
  "scored s i a =
     s\<lparr>mab_cores := (mab_cores s)(nat i := (mab_cores s (nat i))\<lparr>arms :=
       (arms (mab_cores s (nat i)))(
          nat a := (arms (mab_cores s (nat i)) (nat a))\<lparr>last_score := arm_score s i a, score := core_score s i\<rparr>,
          nat (1 - a) := (arms (mab_cores s (nat i)) (nat (1 - a)))
            \<lparr>score := arm_score s i (1 - a) + word_of_int (aggr s)\<rparr>)\<rparr>)\<rparr>"

lemma two_arms: "0 \<le> a \<Longrightarrow> a < AVAILABLE_ARMS \<Longrightarrow> a = 0 \<or> a = 1"
  by (auto simp: mab_consts)

lemma for_two: "for_range 0 AVAILABLE_ARMS body s = Option.bind (body 0 s) (body 1)"
proof -
  have "for_range 1 2 body t = body 1 t" for t
    by (cases "body 1 t") (simp_all add: for_range_step)
  then have "for_range 1 2 body = body 1" by (rule ext)
  then show ?thesis by (simp add: for_range_step mab_consts)
qed

lemma upd_arm_ok [simp]:
  "core_ok i \<Longrightarrow> 0 \<le> a \<Longrightarrow> a < MAX_ARMS \<Longrightarrow>
   upd_arm i a f s = Some (s\<lparr>mab_cores := (mab_cores s)(nat i := (mab_cores s (nat i))
      \<lparr>arms := (arms (mab_cores s (nat i)))(nat a := f (arms (mab_cores s (nat i)) (nat a)))\<rparr>)\<rparr>)"
  by (simp add: upd_arm_def)

lemma mab_tuning_scores_eq:
  assumes "core_ok i" and "scorable s i" and "0 \<le> a" "a < AVAILABLE_ARMS"
  shows "mab_tuning_scores i a s = Some (scored s i a)"
  using two_arms [OF assms(3,4)] assms(1,2)
  by (auto simp: mab_tuning_scores_def mab_compute_score_eq for_two scored_def arm_score_def
      MAX_ARMS_def)

lemma scored_frame [simp, frame_simps]:
  "corestate (scored s i a) = corestate s" "mab_modules (scored s i a) = mab_modules s"
  "sys_first_core (scored s i a) = sys_first_core s" "aggr (scored s i a) = aggr s"
  "mab_arm_configs (scored s i a) = mab_arm_configs s" "hwreg (scored s i a) = hwreg s"
  "module_in_bounds (scored s i a) m = module_in_bounds s m"
  "mc_idle_counter (mab_cores (scored s i a) k) = mc_idle_counter (mab_cores s k)"
  by (simp_all add: scored_def module_in_bounds_def module_start_def)

lemma active_set_scored [simp, frame_simps]: "active_set (scored s i a) m = active_set s m"
  by (simp add: active_set_def module_cores_def module_start_def participates_def enabled_def)

text \<open>The arm the leader chooses, given what the uninitialised array held.\<close>

definition select_spec :: "u32 arr \<Rightarrow> int \<Rightarrow> nat \<Rightarrow> nat \<Rightarrow> int" where
  "select_spec junk active m0 m1 =
     (if active = 0 then if m1 > m0 then 1 else 0
      else if m0 > unat (junk 1) \<and> m1 \<le> m0 then 0 else 1)"

lemma less_mean_iff: "(w :: u32) < word_of_nat (module_mean s m a) \<longleftrightarrow> unat w < module_mean s m a"
  using module_mean_bound [of s m a] by (simp add: word_less_nat_alt unat_of_nat)

lemma unat_mean [simp]: "unat (word_of_nat (module_mean s m a) :: u32) = module_mean s m a"
  using module_mean_bound [of s m a] by (simp add: unat_of_nat)

lemma mab_select_eq:
  assumes "module_in_bounds s m" and "0 \<le> a" "a < AVAILABLE_ARMS"
  shows "mab_select junk m a s = Some (select_spec junk a (module_mean s m 0) (module_mean s m 1))"
  using two_arms [OF assms(2,3)] assms(1)
  unfolding mab_select_def for_two
  by (auto simp: mab_module_score_eq MAX_ARMS_def AVAILABLE_ARMS_def
      select_spec_def less_mean_iff)

text \<open>
  Claim C13: the choice of the module leader, for every content \<open>junk\<close> of the uninitialised
  local array. With arm 0 running, the arm with the greater module score is chosen and a tie
  keeps arm 0. With arm 1 running, arm 0 is chosen iff its score is at least that of arm 1 and
  exceeds whatever the array held at index 1; a tie may therefore leave the running arm, and a
  better arm 0 may be ignored.
\<close>

theorem mab_select_spec:
  assumes "module_in_bounds s m"
  shows "mab_select junk m 0 s = Some (if module_mean s m 0 < module_mean s m 1 then 1 else 0) \<and>
         mab_select junk m 1 s =
           Some (if unat (junk 1) < module_mean s m 0 \<and> module_mean s m 1 \<le> module_mean s m 0 then 0 else 1)"
  using assms by (simp add: mab_select_eq mab_consts select_spec_def)

theorem mab_select_spec_witness:
  "module_in_bounds tied_kmab 0 \<and> mab_select (\<lambda>_. 0) 0 1 tied_kmab = Some 0 \<and>
   mab_select (\<lambda>_. 100) 0 1 tied_kmab = Some 1"
proof -
  have "module_mean tied_kmab 0 a = 25" for a
    by (simp add: module_mean_def tied_sum)
  then show ?thesis
    using mab_select_spec [OF tied_in_bounds, of "\<lambda>_. 0"] mab_select_spec [OF tied_in_bounds, of "\<lambda>_. 100"]
    by (simp add: tied_in_bounds)
qed

section \<open>Switching the arm of a module\<close>

definition module_ok :: "int \<Rightarrow> bool" where
  "module_ok m \<longleftrightarrow> 0 \<le> m \<and> m < MAX_MODULES"

definition arm_ok :: "int \<Rightarrow> bool" where
  "arm_ok a \<longleftrightarrow> 0 \<le> a \<and> a < AVAILABLE_ARMS"

lemma arm_ok_cases: "arm_ok a \<Longrightarrow> a = 0 \<or> a = 1"
  by (auto simp: arm_ok_def mab_consts)

lemma mab_module_at_ok [simp]: "module_ok m \<Longrightarrow> mab_module_at s m = Some (mab_modules s (nat m))"
  by (simp add: mab_module_at_def module_ok_def)

lemma upd_mab_module_ok [simp]:
  "module_ok m \<Longrightarrow>
   upd_mab_module m f s = Some (s\<lparr>mab_modules := (mab_modules s)(nat m := f (mab_modules s (nat m)))\<rparr>)"
  by (simp add: upd_mab_module_def)

text \<open>The register image of an arm, marked for writing.\<close>

definition armed :: "'a kmab_scheme \<Rightarrow> int \<Rightarrow> int \<Rightarrow> 'a kmab_scheme" where
  "armed s i a =
     s\<lparr>corestate := (corestate s)(nat i := (corestate s (nat i))
        \<lparr>pf_msr := (\<lambda>k. if k < NR_OF_MSR then mab_arm_configs s (nat a) k else pf_msr (corestate s (nat i)) k),
         pf_msr_dirty := 1\<rparr>)\<rparr>"

lemma mab_apply_msr_config_eq:
  "core_ok i \<Longrightarrow> 0 \<le> a \<Longrightarrow> a < MAX_ARMS \<Longrightarrow> mab_apply_msr_config i a s = Some (0, armed s i a)"
  by (simp add: mab_apply_msr_config_def msr_set_dirty_def armed_def)

lemma armed_frame [simp, frame_simps]:
  "mab_modules (armed s i a) = mab_modules s" "mab_cores (armed s i a) = mab_cores s"
  "hwreg (armed s i a) = hwreg s" "sys_first_core (armed s i a) = sys_first_core s"
  "sys_active_cores (armed s i a) = sys_active_cores s" "mab_arm_configs (armed s i a) = mab_arm_configs s"
  "aggr (armed s i a) = aggr s" "kmab.more (armed s i a) = kmab.more s"
  "core_disabled (corestate (armed s i a) k) = core_disabled (corestate s k)"
  "pmu_raw (corestate (armed s i a) k) = pmu_raw (corestate s k)"
  "pmu_old (corestate (armed s i a) k) = pmu_old (corestate s k)"
  by (simp_all add: armed_def)

lemma arm_ok_max: "arm_ok a \<Longrightarrow> 0 \<le> a \<and> a < MAX_ARMS"
  by (auto simp: arm_ok_def mab_consts)

definition set_module :: "int \<Rightarrow> (mab_module \<Rightarrow> mab_module) \<Rightarrow> 'a kmab_scheme \<Rightarrow> 'a kmab_scheme" where
  "set_module m f s = s\<lparr>mab_modules := (mab_modules s)(nat m := f (mab_modules s (nat m)))\<rparr>"

lemma set_module_frame [simp, frame_simps]:
  "corestate (set_module m f s) = corestate s" "mab_cores (set_module m f s) = mab_cores s"
  "hwreg (set_module m f s) = hwreg s" "sys_first_core (set_module m f s) = sys_first_core s"
  "sys_active_cores (set_module m f s) = sys_active_cores s"
  "mab_arm_configs (set_module m f s) = mab_arm_configs s" "aggr (set_module m f s) = aggr s"
  "kmab.more (set_module m f s) = kmab.more s"
  "mab_modules (set_module m f s) = (mab_modules s)(nat m := f (mab_modules s (nat m)))"
  by (simp_all add: set_module_def)

definition tuned :: "u32 arr \<Rightarrow> int \<Rightarrow> 'a kmab_scheme \<Rightarrow> 'a kmab_scheme" where
  "tuned junk i s =
     (let m = module_id s i;
          a = mm_active_arm (mab_modules s (nat m));
          t = scored s i a;
          b = select_spec junk a (module_mean t m 0) (module_mean t m 1)
      in if i = least_or_none (active_set s m) \<and> b \<noteq> a
         then armed (set_module m (\<lambda>d. d\<lparr>mm_active_arm := b\<rparr>) t) i b else t)"

lemma select_spec_arm_ok: "arm_ok (select_spec junk a m0 m1)"
  by (simp add: select_spec_def arm_ok_def mab_consts)

lemma mab_tuning_eq:
  assumes i: "core_ok i" "scorable s i"
    and m: "module_ok (module_id s i)" "module_in_bounds s (module_id s i)"
    and a: "arm_ok (mm_active_arm (mab_modules s (nat (module_id s i))))"
  shows "mab_tuning junk i s = Some (0, tuned junk i s)"
proof -
  let ?m = "module_id s i" and ?a = "mm_active_arm (mab_modules s (nat (module_id s i)))"
  let ?t = "scored s i ?a"
  let ?b = "select_spec junk ?a (module_mean ?t ?m 0) (module_mean ?t ?m 1)"
  have a': "0 \<le> ?a" "?a < AVAILABLE_ARMS" using a by (simp_all add: arm_ok_def)
  have b: "0 \<le> ?b \<and> ?b < MAX_ARMS" by (rule arm_ok_max) (rule select_spec_arm_ok)
  show ?thesis
    using i m a' b
    by (simp add: mab_tuning_def tuned_def Let_def mab_tuning_scores_eq mab_first_active_core_eq
        mab_select_eq mab_apply_msr_config_eq set_module_def)
qed

section \<open>Scanning the arms of a module\<close>

definition freshened :: "'a kmab_scheme \<Rightarrow> int set \<Rightarrow> int \<Rightarrow> 'a kmab_scheme" where
  "freshened s A a =
     s\<lparr>mab_cores := (\<lambda>k. if int k \<in> A
         then (mab_cores s k)\<lparr>arms := (arms (mab_cores s k))(nat a :=
                (arms (mab_cores s k) (nat a))\<lparr>score := core_score s (int k)\<rparr>)\<rparr>
         else mab_cores s k)\<rparr>"

lemma freshened_frame [simp, frame_simps]:
  "corestate (freshened s A a) = corestate s" "mab_modules (freshened s A a) = mab_modules s"
  "hwreg (freshened s A a) = hwreg s" "sys_first_core (freshened s A a) = sys_first_core s"
  "sys_active_cores (freshened s A a) = sys_active_cores s"
  "mab_arm_configs (freshened s A a) = mab_arm_configs s" "aggr (freshened s A a) = aggr s"
  "mc_idle_counter (mab_cores (freshened s A a) k) = mc_idle_counter (mab_cores s k)"
  "kmab.more (freshened s A a) = kmab.more s"
  by (simp_all add: freshened_def)

lemma participates_freshened [simp, frame_simps]:
  "participates (freshened s A a) i = participates s i"
  "active_set (freshened s A a) m = active_set s m"
  "module_in_bounds (freshened s A a) m = module_in_bounds s m"
  "core_score (freshened s A a) i = core_score s i" "scorable (freshened s A a) i = scorable s i"
  by (simp_all add: participates_def enabled_def active_set_def module_cores_def module_start_def
      module_in_bounds_def core_score_def score_insts_def score_cycles_def scorable_def)

lemma freshened_insert:
  assumes "0 \<le> j" "j \<notin> A"
  shows "(freshened s A a)\<lparr>mab_cores := (mab_cores (freshened s A a))(nat j :=
      (mab_cores s (nat j))\<lparr>arms := (arms (mab_cores s (nat j)))(nat a :=
        (arms (mab_cores s (nat j)) (nat a))\<lparr>score := core_score s j\<rparr>)\<rparr>)\<rparr> = freshened s (insert j A) a"
proof -
  have "(int k = j) = (k = nat j)" for k using assms(1) by auto
  then show ?thesis
    using assms by (simp add: freshened_def fun_eq_iff fun_upd_def)
qed

lemma freshened_other: "0 \<le> j \<Longrightarrow> j \<notin> A \<Longrightarrow> mab_cores (freshened s A a) (nat j) = mab_cores s (nat j)"
  by (simp add: freshened_def)

lemma mab_module_fresh_scores_eq:
  assumes b: "module_in_bounds s m" and a: "arm_ok a" and sc: "\<forall>i\<in>active_set s m. scorable s i"
  shows "mab_module_fresh_scores m a s = Some (freshened s (active_set s m) a)"
proof -
  let ?lo = "module_start s m" and ?hi = "module_start s m + CORES_PER_COMPUTE_MODULE"
  let ?A = "\<lambda>j. {i \<in> {?lo ..< j}. participates s i}"
  let ?body = "\<lambda>i s. do { p \<leftarrow> core_participates s i;
                   if \<not> p then Some s
                   else do { sc \<leftarrow> mab_compute_score i s;
                             upd_arm i a (\<lambda>a. a\<lparr>score := sc\<rparr>) s } }"
  have "\<exists>t. for_range ?lo ?hi ?body s = Some t \<and> t = freshened s (?A ?hi) a"
  proof (rule for_range_rule [where I = "\<lambda>j t. t = freshened s (?A j) a"])
    show "s = freshened s (?A ?lo) a" by (simp add: freshened_def)
    show "?lo \<le> ?hi" by (simp add: mab_consts)
  next
    fix j t
    assume j: "?lo \<le> j" "j < ?hi" and t: "t = freshened s (?A j) a"
    have ok: "core_ok j" using j module_core_ok [OF b, of j] by (simp add: mab_consts)
    then have j0: "0 \<le> j" by (simp add: core_ok_def)
    show "\<exists>t'. ?body j t = Some t' \<and> t' = freshened s (?A (j + 1)) a"
    proof (cases "participates s j")
      case True
      then have "scorable s j" using sc j by (auto simp: active_set_def module_cores_def)
      then have "?body j t = Some (freshened s (insert j (?A j)) a)"
        using True ok j0 arm_ok_max [OF a]
        by (simp add: t mab_compute_score_eq freshened_other freshened_insert)
      then show ?thesis
        unfolding filtered_range_step using True j(1) by simp
    next
      case False
      then show ?thesis unfolding filtered_range_step using ok by (simp add: t)
    qed
  qed
  then show ?thesis
    by (simp add: mab_module_fresh_scores_def active_set_def module_cores_def)
qed

definition measured_mean :: "'a kmab_scheme \<Rightarrow> int \<Rightarrow> nat" where
  "measured_mean s m = (\<Sum>i\<in>active_set s m. unat (core_score s i)) div card (active_set s m)"

lemma arm_score_freshened: "i \<in> A \<Longrightarrow> 0 \<le> i \<Longrightarrow> arm_score (freshened s A a) i a = core_score s i"
  by (simp add: arm_score_def freshened_def)

lemma module_mean_freshened:
  assumes "module_in_bounds s m"
  shows "module_mean (freshened s (active_set s m) a) m a = measured_mean s m"
proof -
  have "0 \<le> i" if "i \<in> active_set s m" for i
    using assms that by (auto simp: active_set_def module_cores_def module_in_bounds_def)
  then show ?thesis
    by (simp add: module_mean_def measured_mean_def arm_score_freshened)
qed

text \<open>The state after the scores of the running arm were measured and the leader recorded their
  mean.\<close>

definition measured :: "'a kmab_scheme \<Rightarrow> int \<Rightarrow> 'a kmab_scheme" where
  "measured s i =
     (let m = module_id s i; a = mm_active_arm (mab_modules s (nat m)); f = freshened s (active_set s m) a
      in f\<lparr>mab_cores := (mab_cores f)(nat i := (mab_cores f (nat i))\<lparr>arms := (arms (mab_cores f (nat i)))(
              nat a := (arms (mab_cores f (nat i)) (nat a))\<lparr>score := word_of_nat (measured_mean s m)\<rparr>)\<rparr>)\<rparr>)"

lemma measured_frame [simp, frame_simps]:
  "corestate (measured s i) = corestate s" "mab_modules (measured s i) = mab_modules s"
  "hwreg (measured s i) = hwreg s" "sys_first_core (measured s i) = sys_first_core s"
  "sys_active_cores (measured s i) = sys_active_cores s"
  "mab_arm_configs (measured s i) = mab_arm_configs s" "aggr (measured s i) = aggr s"
  "mc_idle_counter (mab_cores (measured s i) k) = mc_idle_counter (mab_cores s k)"
  "kmab.more (measured s i) = kmab.more s"
  by (simp_all add: measured_def Let_def)

definition best_recorded :: "'a kmab_scheme \<Rightarrow> int \<Rightarrow> int" where
  "best_recorded s i = (if arm_score s i 1 > arm_score s i 0 then 1 else 0)"

lemma best_arm_of_eq: "core_ok i \<Longrightarrow> best_arm_of i s = Some (best_recorded s i)"
  by (simp add: best_arm_of_def AVAILABLE_ARMS_def MAX_ARMS_def for_range_step best_recorded_def arm_score_def)

lemma best_recorded_arm_ok: "arm_ok (best_recorded s i)"
  by (simp add: best_recorded_def arm_ok_def mab_consts)

text \<open>The state after one step of the scan.\<close>

definition scanned :: "'a kmab_scheme \<Rightarrow> int \<Rightarrow> 'a kmab_scheme" where
  "scanned s i =
     (let m = module_id s i; d = mab_modules s (nat m); a = mm_active_arm d; t = measured s i
      in if mm_initialized d = MAB_INIT_NOT_STARTED
         then set_module m (\<lambda>d. d\<lparr>mm_active_arm := 0, mm_initialized := MAB_INIT_IN_PROGRESS\<rparr>) (armed s i 0)
         else if a + 1 < AVAILABLE_ARMS
         then armed (set_module m (\<lambda>d. d\<lparr>mm_active_arm := a + 1\<rparr>) t) i (a + 1)
         else let b = best_recorded t i
              in set_module m (\<lambda>d. d\<lparr>mm_initialized := MAB_INIT_DONE\<rparr>)
                   (armed (set_module m (\<lambda>d. d\<lparr>mm_active_arm := b\<rparr>) t) i b))"

definition module_scorable :: "'a kmab_scheme \<Rightarrow> int \<Rightarrow> bool" where
  "module_scorable s m \<longleftrightarrow> (\<forall>i\<in>active_set s m. scorable s i)"

lemma mab_init_module_step_eq:
  assumes i: "core_ok i"
    and m: "module_ok (module_id s i)" "module_in_bounds s (module_id s i)"
    and a: "arm_ok (mm_active_arm (mab_modules s (nat (module_id s i))))"
    and sc: "mm_initialized (mab_modules s (nat (module_id s i))) = MAB_INIT_NOT_STARTED
             \<or> module_scorable s (module_id s i)"
  shows "mab_init_module_step i s = Some (0, scanned s i)"
proof (cases "mm_initialized (mab_modules s (nat (module_id s i))) = MAB_INIT_NOT_STARTED")
  case True
  then show ?thesis
    using i m by (simp add: mab_init_module_step_def scanned_def set_module_def mab_apply_msr_config_eq MAX_ARMS_def Let_def)
next
  case False
  let ?m = "module_id s i" and ?a = "mm_active_arm (mab_modules s (nat (module_id s i)))"
  let ?f = "freshened s (active_set s ?m) ?a"
  have fresh: "mab_module_fresh_scores ?m ?a s = Some ?f"
    using sc False by (intro mab_module_fresh_scores_eq m(2) a) (simp add: module_scorable_def)
  have mean: "mab_module_score ?m ?a ?f = Some (word_of_nat (measured_mean s ?m))"
    using m(2) arm_ok_max [OF a] by (simp add: mab_module_score_eq module_mean_freshened)
  have meas: "upd_arm i ?a (\<lambda>x. x\<lparr>score := word_of_nat (measured_mean s ?m)\<rparr>) ?f = Some (measured s i)"
    using i arm_ok_max [OF a] by (simp add: measured_def Let_def)
  have best: "0 \<le> best_recorded (measured s i) i \<and> best_recorded (measured s i) i < MAX_ARMS"
    by (rule arm_ok_max) (rule best_recorded_arm_ok)
  have best_eq: "best_recorded (s\<lparr>mab_modules := x\<rparr>) i = best_recorded s i" for s :: "'a kmab_scheme" and x
    by (simp add: best_recorded_def arm_score_def)
  have next_arm: "0 \<le> ?a + 1 \<and> ?a + 1 < MAX_ARMS"
    using arm_ok_cases [OF a] by (auto simp: MAX_ARMS_def)
  show ?thesis
    using False i m best next_arm
    by (simp add: mab_init_module_step_def scanned_def Let_def fresh mean meas best_arm_of_eq
        mab_apply_msr_config_eq set_module_def best_eq del: upd_arm_ok)
qed

section \<open>The life of a module\<close>

text \<open>
  The abstract state of a module and its transitions: an unscanned module starts with arm 0,
  tests the arms in order, settles on one, may change it later, and is forgotten after a long
  idle period.
\<close>

datatype phase = Fresh | Scanning int | Settled int

definition phase_of :: "mab_module \<Rightarrow> phase" where
  "phase_of d =
     (if mm_initialized d = MAB_INIT_NOT_STARTED then Fresh
      else if mm_initialized d = MAB_INIT_DONE then Settled (mm_active_arm d)
      else Scanning (mm_active_arm d))"

inductive phase_step :: "phase \<Rightarrow> phase \<Rightarrow> bool" where
  start: "phase_step Fresh (Scanning 0)"
| advance: "a + 1 < AVAILABLE_ARMS \<Longrightarrow> phase_step (Scanning a) (Scanning (a + 1))"
| settle: "a + 1 = AVAILABLE_ARMS \<Longrightarrow> arm_ok b \<Longrightarrow> phase_step (Scanning a) (Settled b)"
| retune: "arm_ok b \<Longrightarrow> a \<noteq> b \<Longrightarrow> phase_step (Settled a) (Settled b)"
| forget: "phase_step p Fresh"

inductive_cases phase_step_FreshE: "phase_step Fresh q"
inductive_cases phase_step_ScanningE: "phase_step (Scanning a) q"
inductive_cases phase_step_SettledE: "phase_step (Settled a) q"

text \<open>What every module satisfies in a running system.\<close>

definition module_wf :: "mab_module \<Rightarrow> bool" where
  "module_wf d \<longleftrightarrow> mm_initialized d \<in> {MAB_INIT_NOT_STARTED, MAB_INIT_IN_PROGRESS, MAB_INIT_DONE} \<and>
     arm_ok (mm_active_arm d)"

fun phase_wf :: "phase \<Rightarrow> bool" where
  "phase_wf Fresh = True"
| "phase_wf (Scanning a) = arm_ok a"
| "phase_wf (Settled a) = arm_ok a"

lemma phase_step_wf: "phase_step p q \<Longrightarrow> phase_wf p \<Longrightarrow> phase_wf q"
  by (induction rule: phase_step.induct) (auto simp: arm_ok_def mab_consts)

lemmas phase_consts = MAB_INIT_NOT_STARTED_def MAB_INIT_IN_PROGRESS_def MAB_INIT_DONE_def

lemma modules_scanned:
  "mab_modules (scanned s i) = (mab_modules s)(nat (module_id s i) :=
     (let d = mab_modules s (nat (module_id s i)); a = mm_active_arm d
      in if mm_initialized d = MAB_INIT_NOT_STARTED
         then d\<lparr>mm_active_arm := 0, mm_initialized := MAB_INIT_IN_PROGRESS\<rparr>
         else if a + 1 < AVAILABLE_ARMS then d\<lparr>mm_active_arm := a + 1\<rparr>
         else d\<lparr>mm_active_arm := best_recorded (measured s i) i, mm_initialized := MAB_INIT_DONE\<rparr>))"
  by (simp add: scanned_def Let_def)

lemma modules_tuned:
  "mab_modules (tuned junk i s) = (mab_modules s)(nat (module_id s i) :=
     (let m = module_id s i; d = mab_modules s (nat m); t = scored s i (mm_active_arm d);
          b = select_spec junk (mm_active_arm d) (module_mean t m 0) (module_mean t m 1)
      in if i = least_or_none (active_set s m) \<and> b \<noteq> mm_active_arm d then d\<lparr>mm_active_arm := b\<rparr> else d))"
  by (simp add: tuned_def Let_def)

lemma scanned_phase:
  assumes "module_wf (mab_modules s (nat (module_id s i)))"
    and "mm_initialized (mab_modules s (nat (module_id s i))) \<noteq> MAB_INIT_DONE"
  shows "phase_step (phase_of (mab_modules s (nat (module_id s i))))
           (phase_of (mab_modules (scanned s i) (nat (module_id s i))))"
    and "module_wf (mab_modules (scanned s i) (nat (module_id s i)))"
  using assms best_recorded_arm_ok [of "measured s i" i] arm_ok_cases
  by (auto simp: modules_scanned Let_def phase_of_def module_wf_def phase_consts arm_ok_def mab_consts
      intro: phase_step.start phase_step.advance phase_step.settle)

lemma tuned_phase:
  fixes s :: "'a kmab_scheme"
  assumes "module_wf (mab_modules s (nat (module_id s i)))"
    and "mm_initialized (mab_modules s (nat (module_id s i))) = MAB_INIT_DONE"
  shows "phase_of (mab_modules (tuned junk i s) (nat (module_id s i))) = phase_of (mab_modules s (nat (module_id s i))) \<or>
         phase_step (phase_of (mab_modules s (nat (module_id s i))))
           (phase_of (mab_modules (tuned junk i s) (nat (module_id s i))))"
    and "module_wf (mab_modules (tuned junk i s) (nat (module_id s i)))"
  using assms select_spec_arm_ok
  by (auto simp: modules_tuned Let_def phase_of_def module_wf_def phase_consts
      intro: phase_step.retune)

lemma module_id_cong: "sys_first_core t = sys_first_core s \<Longrightarrow> module_id t i = module_id s i"
  for s :: "'a kmab_scheme" and t :: "'a kmab_scheme"
  by (simp add: module_id_def)

lemma scanned_frame [simp, frame_simps]:
  "sys_first_core (scanned s i) = sys_first_core s" "sys_active_cores (scanned s i) = sys_active_cores s"
  "hwreg (scanned s i) = hwreg s" "mab_arm_configs (scanned s i) = mab_arm_configs s"
  "aggr (scanned s i) = aggr s" "kmab.more (scanned s i) = kmab.more s"
  "mc_idle_counter (mab_cores (scanned s i) k) = mc_idle_counter (mab_cores s k)"
  "core_disabled (corestate (scanned s i) k) = core_disabled (corestate s k)"
  "pmu_raw (corestate (scanned s i) k) = pmu_raw (corestate s k)"
  "pmu_old (corestate (scanned s i) k) = pmu_old (corestate s k)"
  by (simp_all add: scanned_def Let_def)

lemma tuned_frame [simp, frame_simps]:
  "sys_first_core (tuned junk i s) = sys_first_core s" "sys_active_cores (tuned junk i s) = sys_active_cores s"
  "hwreg (tuned junk i s) = hwreg s" "mab_arm_configs (tuned junk i s) = mab_arm_configs s"
  "aggr (tuned junk i s) = aggr s" "kmab.more (tuned junk i s) = kmab.more s"
  "mc_idle_counter (mab_cores (tuned junk i s) k) = mc_idle_counter (mab_cores s k)"
  "core_disabled (corestate (tuned junk i s) k) = core_disabled (corestate s k)"
  "pmu_raw (corestate (tuned junk i s) k) = pmu_raw (corestate s k)"
  "pmu_old (corestate (tuned junk i s) k) = pmu_old (corestate s k)"
  by (simp_all add: tuned_def scored_def Let_def)

text \<open>After a step of the scan the core holds the image of the module's new arm.\<close>

lemma armed_image:
  "pf_msr_dirty (corestate (armed s i a) (nat i)) = 1"
  "k < NR_OF_MSR \<Longrightarrow> pf_msr (corestate (armed s i a) (nat i)) k = mab_arm_configs s (nat a) k"
  by (simp_all add: armed_def)

lemma scanned_image:
  "pf_msr_dirty (corestate (scanned s i) (nat i)) = 1 \<and>
   (\<forall>k < NR_OF_MSR. pf_msr (corestate (scanned s i) (nat i)) k =
      mab_arm_configs s (nat (mm_active_arm (mab_modules (scanned s i) (nat (module_id s i))))) k)"
  by (simp add: scanned_def Let_def armed_image)

text \<open>
  Claim C7: one step of the scan refines one transition of the abstract module life. For a
  module in range that has not settled, \<open>mab_init_module_step\<close> succeeds and moves the module
  along \<open>phase_step\<close>, leaves every other module alone, and gives the leader the register
  image of the arm the module is now on, marked dirty so that it will be written. Only a module
  that is already scanning needs its active cores to have run long enough to be scored.
\<close>

theorem init_module_step_refines:
  assumes "core_ok i" and "module_ok (module_id s i)" and "module_in_bounds s (module_id s i)"
    and "module_wf (mab_modules s (nat (module_id s i)))"
    and "mm_initialized (mab_modules s (nat (module_id s i))) \<noteq> MAB_INIT_DONE"
    and "phase_of (mab_modules s (nat (module_id s i))) = Fresh \<or> module_scorable s (module_id s i)"
  shows "\<exists>t. mab_init_module_step i s = Some (0, t) \<and>
    phase_step (phase_of (mab_modules s (nat (module_id s i)))) (phase_of (mab_modules t (nat (module_id s i)))) \<and>
    (\<forall>k. k \<noteq> nat (module_id s i) \<longrightarrow> mab_modules t k = mab_modules s k) \<and>
    pf_msr_dirty (corestate t (nat i)) = 1 \<and>
    (\<forall>k < NR_OF_MSR. pf_msr (corestate t (nat i)) k =
       mab_arm_configs s (nat (mm_active_arm (mab_modules t (nat (module_id s i))))) k)"
proof -
  have "mab_init_module_step i s = Some (0, scanned s i)"
    using assms by (intro mab_init_module_step_eq) (auto simp: module_wf_def phase_of_def split: if_splits)
  then show ?thesis
    using scanned_phase(1) [OF assms(4,5)] scanned_image [of s i] by (auto simp: modules_scanned)
qed

theorem init_module_step_refines_witness:
  "\<exists>t. mab_init_module_step 2 demo_kmab = Some (0, t) \<and> phase_step Fresh (phase_of (mab_modules t 0)) \<and>
     pf_msr_dirty (corestate t 2) = 1"
proof -
  have m: "module_id demo_kmab 2 = 0" by (simp add: module_id_def demo_kmab_simps)
  have d: "mab_modules demo_kmab 0 = \<lparr>mm_active_arm = 0, mm_initialized = -1, mm_idle_counter = 0\<rparr>"
    by (simp add: demo_kmab_simps)
  have b: "module_in_bounds demo_kmab 0"
    by (simp add: module_in_bounds_def module_start_def demo_kmab_simps mab_consts)
  show ?thesis
    using init_module_step_refines [of 2 demo_kmab]
    by (auto simp: m d b module_wf_def arm_ok_def module_ok_def core_ok_def phase_of_def phase_consts mab_consts)
qed

section \<open>The outcome of a scan\<close>

lemma measured_mean_bound: "measured_mean s m < 2 ^ 32"
proof (cases "card (active_set s m) = 0")
  case True
  then show ?thesis by (simp add: measured_mean_def)
next
  case False
  have "unat (core_score s i) \<le> 2 ^ 32 - 1" for i
    using unsigned_less [where 'a = nat, of "core_score s i"] by simp
  then have "(\<Sum>i\<in>active_set s m. unat (core_score s i)) \<le> card (active_set s m) * (2 ^ 32 - 1)"
    using sum_bounded_above [of "active_set s m" "\<lambda>i. unat (core_score s i)" "2 ^ 32 - 1"] by simp
  then have "measured_mean s m \<le> card (active_set s m) * (2 ^ 32 - 1) div card (active_set s m)"
    unfolding measured_mean_def by (rule div_le_mono)
  then show ?thesis using False by simp
qed

lemma arm_score_measured:
  assumes "arm_ok a" and "mm_active_arm (mab_modules s (nat (module_id s i))) = b" "arm_ok b"
  shows "arm_score (measured s i) i a =
    (if a = b then word_of_nat (measured_mean s (module_id s i)) else arm_score s i a)"
  using assms arm_ok_cases [OF assms(1)] arm_ok_cases [OF assms(3)]
  by (auto simp: measured_def Let_def arm_score_def freshened_def)

lemma arm_score_scanned:
  assumes "mm_initialized (mab_modules s (nat (module_id s i))) = MAB_INIT_IN_PROGRESS"
    and "mm_active_arm (mab_modules s (nat (module_id s i))) = 0"
  shows "arm_score (scanned s i) i 0 = word_of_nat (measured_mean s (module_id s i))"
proof -
  have "arm_score (scanned s i) i 0 = arm_score (measured s i) i 0"
    using assms by (simp add: scanned_def Let_def phase_consts arm_score_def AVAILABLE_ARMS_def)
  then show ?thesis
    using assms(2) by (simp add: arm_score_measured arm_ok_def AVAILABLE_ARMS_def)
qed

lemma module_in_bounds_cong:
  "sys_first_core t = sys_first_core s \<Longrightarrow> module_in_bounds t m = module_in_bounds s m"
  for s :: "'a kmab_scheme" and t :: "'a kmab_scheme"
  by (simp add: module_in_bounds_def module_start_def)

lemma scan_started:
  assumes "mm_initialized (mab_modules s (nat (module_id s i))) = MAB_INIT_NOT_STARTED"
  shows "mab_modules (scanned s i) (nat (module_id s i)) =
    (mab_modules s (nat (module_id s i)))\<lparr>mm_active_arm := 0, mm_initialized := MAB_INIT_IN_PROGRESS\<rparr>"
  using assms by (simp add: modules_scanned)

lemma scan_second:
  assumes "mm_initialized (mab_modules s (nat (module_id s i))) = MAB_INIT_IN_PROGRESS"
    and "mm_active_arm (mab_modules s (nat (module_id s i))) = 0"
  shows "mab_modules (scanned s i) (nat (module_id s i)) =
    (mab_modules s (nat (module_id s i)))\<lparr>mm_active_arm := 1\<rparr>"
  using assms by (simp add: modules_scanned phase_consts AVAILABLE_ARMS_def)

lemma scan_last:
  assumes "mm_initialized (mab_modules s (nat (module_id s i))) = MAB_INIT_IN_PROGRESS"
    and "mm_active_arm (mab_modules s (nat (module_id s i))) = 1"
    and "arm_score s i 0 = word_of_nat n" "n < 2 ^ 32"
  shows "phase_of (mab_modules (scanned s i) (nat (module_id s i))) =
    Settled (if n < measured_mean s (module_id s i) then 1 else 0)"
proof -
  have "best_recorded (measured s i) i = (if n < measured_mean s (module_id s i) then 1 else 0)"
    using assms(2-) measured_mean_bound [of s "module_id s i"]
    by (simp add: best_recorded_def arm_score_measured arm_ok_def AVAILABLE_ARMS_def word_less_nat_alt unat_of_nat)
  then show ?thesis
    using assms(1,2) by (simp add: modules_scanned phase_of_def phase_consts AVAILABLE_ARMS_def)
qed

text \<open>
  Claim C4: a scan ends after three steps with the better arm. Starting from a module that was
  not scanned, the leader's three steps succeed whatever the cores' counters are in between, as
  long as the active cores ran long enough to be scored, and the module settles on the arm whose
  measured mean is greater, on arm 0 when they are equal. \<open>cs1\<close> and \<open>cs2\<close> are the core
  states at the second and third step.
\<close>

theorem init_scan_settles_on_best:
  assumes "core_ok i" and "module_id s i = m" and "module_ok m" and "module_in_bounds s m"
    and "module_wf (mab_modules s (nat m))" and "phase_of (mab_modules s (nat m)) = Fresh"
  shows "\<exists>t0. mab_init_module_step i s = Some (0, t0) \<and>
    (\<forall>cs1. module_scorable (t0\<lparr>corestate := cs1\<rparr>) m \<longrightarrow>
      (\<exists>t1. mab_init_module_step i (t0\<lparr>corestate := cs1\<rparr>) = Some (0, t1) \<and>
        (\<forall>cs2. module_scorable (t1\<lparr>corestate := cs2\<rparr>) m \<longrightarrow>
          (\<exists>t2. mab_init_module_step i (t1\<lparr>corestate := cs2\<rparr>) = Some (0, t2) \<and>
            phase_of (mab_modules t2 (nat m)) =
              Settled (if measured_mean (t0\<lparr>corestate := cs1\<rparr>) m < measured_mean (t1\<lparr>corestate := cs2\<rparr>) m
                       then 1 else 0)))))"
proof -
  have fresh: "mm_initialized (mab_modules s (nat m)) = MAB_INIT_NOT_STARTED"
    using assms(6) by (auto simp: phase_of_def split: if_splits)
  have step: "mab_init_module_step i u = Some (0, scanned u i)"
    if "sys_first_core u = sys_first_core s" "module_wf (mab_modules u (nat m))"
       "mm_initialized (mab_modules u (nat m)) = MAB_INIT_NOT_STARTED \<or> module_scorable u m" for u :: "'a kmab_scheme"
    using that assms module_id_cong [OF that(1), of i] module_in_bounds_cong [OF that(1), of m]
    by (intro mab_init_module_step_eq) (auto simp: module_wf_def)
  have id: "module_id u i = m" if "sys_first_core u = sys_first_core s" for u :: "'a kmab_scheme"
    using module_id_cong [OF that, of i] assms(2) by simp
  define t0 where "t0 = scanned s i"
  have m0: "mab_modules t0 (nat m) = (mab_modules s (nat m))\<lparr>mm_active_arm := 0, mm_initialized := MAB_INIT_IN_PROGRESS\<rparr>"
    using scan_started [of s i] fresh assms(2) by (simp add: t0_def)
  have "mab_init_module_step i s = Some (0, t0)"
    using step [of s] assms(5) fresh by (simp add: t0_def)
  moreover have "\<exists>t1. mab_init_module_step i (t0\<lparr>corestate := cs1\<rparr>) = Some (0, t1) \<and>
        (\<forall>cs2. module_scorable (t1\<lparr>corestate := cs2\<rparr>) m \<longrightarrow>
          (\<exists>t2. mab_init_module_step i (t1\<lparr>corestate := cs2\<rparr>) = Some (0, t2) \<and>
            phase_of (mab_modules t2 (nat m)) =
              Settled (if measured_mean (t0\<lparr>corestate := cs1\<rparr>) m < measured_mean (t1\<lparr>corestate := cs2\<rparr>) m
                       then 1 else 0)))"
    if sc1: "module_scorable (t0\<lparr>corestate := cs1\<rparr>) m" for cs1
  proof -
    let ?u = "t0\<lparr>corestate := cs1\<rparr>"
    define t1 where "t1 = scanned ?u i"
    have idu: "module_id ?u i = m" by (rule id) (simp add: t0_def)
    have m1: "mab_modules t1 (nat m) = (mab_modules ?u (nat m))\<lparr>mm_active_arm := 1\<rparr>"
      using scan_second [of ?u i] by (simp add: t1_def idu m0)
    have a1: "arm_score t1 i 0 = word_of_nat (measured_mean ?u m)"
      using arm_score_scanned [of ?u i] by (simp add: t1_def idu m0)
    have "mab_init_module_step i ?u = Some (0, t1)"
      unfolding t1_def
      by (rule step) (use sc1 in \<open>simp_all add: t0_def [symmetric] m0 module_wf_def phase_consts arm_ok_def mab_consts\<close>,
                      simp add: t0_def)
    moreover have "\<exists>t2. mab_init_module_step i (t1\<lparr>corestate := cs2\<rparr>) = Some (0, t2) \<and>
            phase_of (mab_modules t2 (nat m)) =
              Settled (if measured_mean ?u m < measured_mean (t1\<lparr>corestate := cs2\<rparr>) m then 1 else 0)"
      if sc2: "module_scorable (t1\<lparr>corestate := cs2\<rparr>) m" for cs2
    proof -
      let ?v = "t1\<lparr>corestate := cs2\<rparr>"
      have idv: "module_id ?v i = m" by (rule id) (simp add: t0_def t1_def)
      have "mab_init_module_step i ?v = Some (0, scanned ?v i)"
        by (rule step) (use sc2 in \<open>simp_all add: m0 m1 module_wf_def phase_consts arm_ok_def mab_consts\<close>,
                        simp add: t0_def t1_def)
      moreover have "phase_of (mab_modules (scanned ?v i) (nat (module_id ?v i))) =
        Settled (if measured_mean ?u m < measured_mean ?v (module_id ?v i) then 1 else 0)"
        using a1 measured_mean_bound [of ?u m]
        by (intro scan_last) (simp_all add: idv m0 m1, simp add: arm_score_def)
      ultimately show ?thesis unfolding idv by blast
    qed
    ultimately show ?thesis by blast
  qed
  ultimately show ?thesis by blast
qed

text \<open>Cores 2 and 3 run 20480 instructions per unit of cycles in the second interval.\<close>

definition fast_cores :: "core_state_s arr" where
  "fast_cores = (\<lambda>i. demo_core\<lparr>core_disabled := if i = 0 then 1 else 0,
     pmu_raw := (\<lambda>j. if j = PERF_INST_RETIRED_ANY_P then 40960 else 2048)\<rparr>)"

lemma demo_like_active_set:
  assumes "sys_first_core u = 0"
    and "\<And>k. mc_idle_counter (mab_cores u k) = mc_idle_counter (mab_cores demo_kmab k)"
    and "\<And>k. core_disabled (corestate u k) = (if k = 0 then 1 else 0)"
  shows "active_set u 0 = {2, 3}"
proof -
  have "active_set u 0 = active_set demo_kmab 0"
    using assms by (simp add: active_set_def module_cores_def module_start_def participates_def enabled_def demo_kmab_simps)
  then show ?thesis by (simp add: demo_active_set)
qed

lemmas demo_measure_simps = module_scorable_def scorable_def measured_mean_def core_score_def score_insts_def
  score_cycles_def fast_cores_def demo_kmab_simps const_simps numeral_2_eq_2 [symmetric]

lemma demo_measured:
  assumes "active_set u 0 = {2, 3}" and "corestate u = corestate demo_kmab"
  shows "module_scorable u 0" and "measured_mean u 0 = 5120"
  using assms by (simp_all add: demo_measure_simps)

lemma fast_measured:
  assumes "active_set u 0 = {2, 3}" and "corestate u = fast_cores"
  shows "module_scorable u 0" and "measured_mean u 0 = 20480"
  using assms by (simp_all add: demo_measure_simps)

theorem init_scan_settles_on_best_witness:
  "\<exists>t0 t1 t2. mab_init_module_step 2 demo_kmab = Some (0, t0) \<and>
     mab_init_module_step 2 (t0\<lparr>corestate := corestate demo_kmab\<rparr>) = Some (0, t1) \<and>
     mab_init_module_step 2 (t1\<lparr>corestate := fast_cores\<rparr>) = Some (0, t2) \<and>
     phase_of (mab_modules t2 0) = Settled 1"
proof -
  have m: "module_id demo_kmab 2 = 0" by (simp add: module_id_def demo_kmab_simps)
  have d: "mab_modules demo_kmab 0 = \<lparr>mm_active_arm = 0, mm_initialized = -1, mm_idle_counter = 0\<rparr>"
    by (simp add: demo_kmab_simps)
  have b: "module_in_bounds demo_kmab 0"
    by (simp add: module_in_bounds_def module_start_def demo_kmab_simps mab_consts)
  have ok: "core_ok 2" "module_ok 0" by (simp_all add: core_ok_def module_ok_def mab_consts)
  have fc: "sys_first_core demo_kmab = 0" by (simp add: demo_kmab_simps)
  have dis: "core_disabled (corestate demo_kmab k) = (if k = 0 then 1 else 0)"
    "core_disabled (fast_cores k) = (if k = 0 then 1 else 0)" for k
    by (simp_all add: demo_kmab_simps fast_cores_def)
  let ?t0 = "scanned demo_kmab 2"
  let ?u = "?t0\<lparr>corestate := corestate demo_kmab\<rparr>"
  let ?t1 = "scanned ?u 2"
  let ?v = "?t1\<lparr>corestate := fast_cores\<rparr>"
  have A: "active_set ?u 0 = {2, 3}" "active_set ?v 0 = {2, 3}"
    by (rule demo_like_active_set; simp add: fc dis)+
  have s0: "mab_init_module_step 2 demo_kmab = Some (0, ?t0)"
    by (rule mab_init_module_step_eq) (simp_all add: m d b ok arm_ok_def phase_consts mab_consts)
  have mu: "module_id ?u 2 = 0" by (simp add: module_id_def fc)
  have s1: "mab_init_module_step 2 ?u = Some (0, ?t1)"
    by (rule mab_init_module_step_eq)
       (use b demo_measured(1) [OF A(1)] in
        \<open>simp_all add: mu ok modules_scanned m d arm_ok_def phase_consts mab_consts Let_def
           module_in_bounds_def module_start_def fc\<close>)
  have wf: "module_wf (mab_modules demo_kmab (nat 0))" "phase_of (mab_modules demo_kmab (nat 0)) = Fresh"
    by (simp_all add: d module_wf_def arm_ok_def phase_of_def phase_consts mab_consts)
  obtain t2 where "mab_init_module_step 2 ?v = Some (0, t2)" "phase_of (mab_modules t2 (nat 0)) = Settled 1"
    using init_scan_settles_on_best [OF ok(1) m ok(2) b wf] demo_measured [OF A(1)] fast_measured [OF A(2)]
    unfolding s0 by (force simp: s1)
  then show ?thesis using s0 s1 by auto
qed

section \<open>The effect of a tuning tick\<close>

lemma arm_score_scored:
  assumes "arm_ok a" and "b = a \<or> b = 1 - a"
  shows "arm_score (scored s i a) i b = (if b = a then core_score s i else arm_score s i b + word_of_int (aggr s))"
  using assms arm_ok_cases [OF assms(1)] by (auto simp: scored_def arm_score_def)

lemma scores_tuned:
  "mab_cores (tuned junk i s) = mab_cores (scored s i (mm_active_arm (mab_modules s (nat (module_id s i)))))"
  by (simp add: tuned_def Let_def)

text \<open>
  Claim C6: one tick of the bandit on one core. It always succeeds for an active core of a
  module in range. The running arm gets the measured score and the other arm gains the
  aggressiveness; no other core's scores change. Only the leader of the module can change the
  module's arm, no other module is touched, and when the arm does change the leader gets the
  register image of the new arm, marked dirty.
\<close>

theorem mab_tuning_effect:
  assumes "core_ok i" and "scorable s i" and "module_ok (module_id s i)" and "module_in_bounds s (module_id s i)"
    and "mm_active_arm (mab_modules s (nat (module_id s i))) = a" and "arm_ok a"
  shows "\<exists>t. mab_tuning junk i s = Some (0, t) \<and>
    arm_score t i a = core_score s i \<and> arm_score t i (1 - a) = arm_score s i (1 - a) + word_of_int (aggr s) \<and>
    (\<forall>k. k \<noteq> nat i \<longrightarrow> mab_cores t k = mab_cores s k) \<and>
    (\<forall>k. k \<noteq> nat (module_id s i) \<longrightarrow> mab_modules t k = mab_modules s k) \<and>
    (if i = least_or_none (active_set s (module_id s i)) \<and> mm_active_arm (mab_modules t (nat (module_id s i))) \<noteq> a
     then pf_msr_dirty (corestate t (nat i)) = 1 \<and>
          (\<forall>k < NR_OF_MSR. pf_msr (corestate t (nat i)) k =
             mab_arm_configs s (nat (mm_active_arm (mab_modules t (nat (module_id s i))))) k)
     else mab_modules t = mab_modules s \<and> corestate t = corestate s)"
proof -
  have "mab_tuning junk i s = Some (0, tuned junk i s)"
    using assms by (intro mab_tuning_eq) auto
  moreover have "arm_score (tuned junk i s) i b = arm_score (scored s i a) i b" for b
    using assms(5) by (simp add: arm_score_def scores_tuned)
  moreover have "mab_cores (scored s i a) k = mab_cores s k" if "k \<noteq> nat i" for k
    using that by (simp add: scored_def)
  moreover have "1 - a \<noteq> a"
    using arm_ok_cases [OF assms(6)] by auto
  moreover have "if i = least_or_none (active_set s (module_id s i)) \<and>
        mm_active_arm (mab_modules (tuned junk i s) (nat (module_id s i))) \<noteq> a
     then pf_msr_dirty (corestate (tuned junk i s) (nat i)) = 1 \<and>
          (\<forall>k < NR_OF_MSR. pf_msr (corestate (tuned junk i s) (nat i)) k =
             mab_arm_configs s (nat (mm_active_arm (mab_modules (tuned junk i s) (nat (module_id s i))))) k)
     else mab_modules (tuned junk i s) = mab_modules s \<and> corestate (tuned junk i s) = corestate s"
    using assms(5) by (auto simp: tuned_def Let_def armed_image)
  ultimately show ?thesis
    using assms(5,6) by (simp add: arm_score_scored scores_tuned modules_tuned)
qed

text \<open>The running arm 0 of core 2 gets the measured score, arm 1 goes from 20 to 23.\<close>

theorem mab_tuning_effect_witness:
  "\<exists>t. mab_tuning (\<lambda>_. 0) 2 tied_kmab = Some (0, t) \<and> arm_score t 2 0 = 4096 \<and> arm_score t 2 1 = 23"
proof -
  have m: "module_id tied_kmab 2 = 0" by (simp add: module_id_def tied_kmab_def demo_kmab_simps)
  have sc: "scorable tied_kmab 2" "core_score tied_kmab 2 = 4096" "arm_score tied_kmab 2 1 = 20"
    by (simp_all add: scorable_def core_score_def score_insts_def score_cycles_def arm_score_def tied_kmab_def
        demo_kmab_simps const_simps)
  have a: "mm_active_arm (mab_modules tied_kmab 0) = 0" "aggr tied_kmab = 3"
    by (simp_all add: tied_kmab_def demo_kmab_simps)
  show ?thesis
    using mab_tuning_effect [of 2 tied_kmab 0 "\<lambda>_. 0"]
    by (auto simp: m sc a tied_in_bounds core_ok_def module_ok_def arm_ok_def mab_consts)
qed

end
