(* ===== verification/Kernel_Ddr.thy ===== *)
theory Kernel_Ddr
  imports Ddr_Types Kernel_Mab
begin

text \<open>
  \<open>kernelmod/kernel_pmu_ddr.c\<close>: the free-running bandwidth counters of the memory
  controllers. The MMIO services of the kernel are the parameter \<open>mmio\<close>: \<open>io_remap\<close>
  maps a physical range (0 on failure), \<open>io_readq\<close> reads a counter at the time of the call.
  \<open>io_live\<close> counts the mappings that were made and not yet undone.
\<close>

record mmio =
  io_remap :: "u64 \<Rightarrow> nat \<Rightarrow> u64"
  io_readq :: "u64 \<Rightarrow> u64"

record kddr = kmab +
  ddr_cpu_type :: u32
  num_ddr_controllers :: u32
  ddr :: ddr_s
  io_live :: int

definition num_ctrl :: "'a kddr_scheme \<Rightarrow> int" where
  "num_ctrl s = uint (num_ddr_controllers s)"

definition mmap_at :: "'a kddr_scheme \<Rightarrow> int \<Rightarrow> u64 option" where
  "mmap_at s i = aget MAX_NUM_DDR_CONTROLLERS (ddr_mmap (ddr s)) i"

definition set_mmap :: "int \<Rightarrow> u64 \<Rightarrow> 'a kddr_scheme \<Rightarrow> 'a kddr_scheme option" where
  "set_mmap i p s =
     do { m \<leftarrow> aset MAX_NUM_DDR_CONTROLLERS (ddr_mmap (ddr s)) i p;
          Some (s\<lparr>ddr := (ddr s)\<lparr>ddr_mmap := m\<rparr>\<rparr>) }"

text \<open>One pass over the controllers, reading the counter at offset \<open>off\<close> of each mapped one
  and adding the difference to the value of the pass before.\<close>

definition scan_rd :: "mmio \<Rightarrow> u64 \<Rightarrow> 'a kddr_scheme \<Rightarrow> ('a kddr_scheme \<times> u64) option" where
  "scan_rd e off s =
     for_range 0 (num_ctrl s)
       (\<lambda>i (s, total).
          do { p \<leftarrow> mmap_at s i;
               if p = 0 then Some (s, total)
               else do { oldvalue_rd \<leftarrow> aget MAX_NUM_DDR_CONTROLLERS (rd_last_update (ddr s)) i;
                         let v = io_readq e (p + off);
                         let s = s\<lparr>ddr := (ddr s)\<lparr>rd_last_update := (rd_last_update (ddr s))(nat i := v)\<rparr>\<rparr>;
                         Some (s, total + (v - oldvalue_rd)) } })
       (s, 0)"

definition scan_wr :: "mmio \<Rightarrow> u64 \<Rightarrow> 'a kddr_scheme \<Rightarrow> ('a kddr_scheme \<times> u64) option" where
  "scan_wr e off s =
     for_range 0 (num_ctrl s)
       (\<lambda>i (s, total).
          do { p \<leftarrow> mmap_at s i;
               if p = 0 then Some (s, total)
               else do { oldvalue_wr \<leftarrow> aget MAX_NUM_DDR_CONTROLLERS (wr_last_update (ddr s)) i;
                         let v = io_readq e (p + off);
                         let s = s\<lparr>ddr := (ddr s)\<lparr>wr_last_update := (wr_last_update (ddr s))(nat i := v)\<rparr>\<rparr>;
                         Some (s, total + (v - oldvalue_wr)) } })
       (s, 0)"

definition kernel_pmu_ddr_grr_srf :: "mmio \<Rightarrow> int \<Rightarrow> 'a kddr_scheme \<Rightarrow> (u64 \<times> 'a kddr_scheme) option" where
  "kernel_pmu_ddr_grr_srf e type s =
     do { (s, total) \<leftarrow>
            (if type = DDR_PMU_RD then scan_rd e 0 s
             else if type = DDR_PMU_WR
                  then scan_wr e (GRR_SRF_FREE_RUN_CNTR_WRITE - GRR_SRF_FREE_RUN_CNTR_READ) s
             else Some (s, 0));
          Some (total * 64, s) }"

definition kernel_pmu_ddr_client :: "mmio \<Rightarrow> int \<Rightarrow> 'a kddr_scheme \<Rightarrow> (u64 \<times> 'a kddr_scheme) option" where
  "kernel_pmu_ddr_client e type s =
     do { (s, total) \<leftarrow>
            (if type = DDR_PMU_RD then scan_rd e CLIENT_DDR_RD_BW s
             else if type = DDR_PMU_WR then scan_wr e CLIENT_DDR_WR_BW s
             else Some (s, 0));
          Some (total * 64, s) }"

definition kernel_pmu_ddr :: "mmio \<Rightarrow> int \<Rightarrow> 'a kddr_scheme \<Rightarrow> (u64 \<times> 'a kddr_scheme) option" where
  "kernel_pmu_ddr e type s =
     (if ddr_cpu_type s = word_of_int DDR_CLIENT then kernel_pmu_ddr_client e type s
      else if ddr_cpu_type s = word_of_int DDR_GRR_SRF then kernel_pmu_ddr_grr_srf e type s
      else Some (word_of_int (- EINVAL), s))"

text \<open>The mapping loop of the two init functions: \<open>base i\<close> is the address of controller
  \<open>i\<close> and undefined where the code would index outside a local array. The result is the
  index that failed to map, if any.\<close>

fun init_maps ::
    "mmio \<Rightarrow> (int \<Rightarrow> u64 option) \<Rightarrow> nat \<Rightarrow> nat \<Rightarrow> int \<Rightarrow> 'a kddr_scheme \<Rightarrow>
     (int option \<times> 'a kddr_scheme) option" where
  "init_maps e base rng 0 i s = Some (None, s)"
| "init_maps e base rng (Suc n) i s =
     do { reg_base \<leftarrow> base i;
          let p = io_remap e reg_base rng;
          if p = 0 then Some (Some i, s)
          else do { s \<leftarrow> set_mmap i p (s\<lparr>io_live := io_live s + 1\<rparr>);
                    init_maps e base rng n (i + 1) s } }"

text \<open>\<open>while (--i >= 0)\<close> of the cleanup label: \<open>mapping[i]\<close> and \<open>ddr->mmap[i]\<close> hold
  the same pointer.\<close>

fun unmap_below :: "nat \<Rightarrow> 'a kddr_scheme \<Rightarrow> 'a kddr_scheme option" where
  "unmap_below 0 s = Some s"
| "unmap_below (Suc i) s =
     do { p \<leftarrow> mmap_at s (int i);
          s \<leftarrow> (if p \<noteq> 0 then set_mmap (int i) 0 (s\<lparr>io_live := io_live s - 1\<rparr>) else Some s);
          unmap_below i s }"

definition ddr_init_with ::
    "mmio \<Rightarrow> (int \<Rightarrow> u64 option) \<Rightarrow> nat \<Rightarrow> 'a kddr_scheme \<Rightarrow> (int \<times> 'a kddr_scheme) option" where
  "ddr_init_with e base rng s =
     do { (failed, s) \<leftarrow> init_maps e base rng (nat (num_ctrl s)) 0 s;
          case failed of
            None \<Rightarrow> do { (_, s) \<leftarrow> kernel_pmu_ddr e DDR_PMU_RD s;
                         (_, s) \<leftarrow> kernel_pmu_ddr e DDR_PMU_WR s;
                         Some (0, s) }
          | Some i \<Rightarrow> do { s \<leftarrow> unmap_below (nat i) s; Some (- ENOMEM, s) } }"

definition grr_srf_base :: "u64 \<Rightarrow> int \<Rightarrow> u64 option" where
  "grr_srf_base ddr_bar i =
     (if 0 \<le> i \<and> i < MAX_NUM_DDR_CONTROLLERS
      then Some (ddr_bar + GRR_SRF_MC_ADDRESS i + GRR_SRF_FREE_RUN_CNTR_READ) else None)"

definition kernel_pmu_ddr_init_grr_srf ::
    "mmio \<Rightarrow> u64 \<Rightarrow> 'a kddr_scheme \<Rightarrow> (int \<times> 'a kddr_scheme) option" where
  "kernel_pmu_ddr_init_grr_srf e ddr_bar s =
     (let s = (if num_ctrl s > MAX_NUM_DDR_CONTROLLERS
               then s\<lparr>num_ddr_controllers := word_of_int MAX_NUM_DDR_CONTROLLERS\<rparr> else s);
          s = s\<lparr>ddr := zero_ddr\<lparr>ddr_interface_type := DDR_GRR_SRF, bar_address := ddr_bar\<rparr>\<rparr>
      in if num_ctrl s \<le> 0 then Some (- ENODEV, s)
         else ddr_init_with e (grr_srf_base ddr_bar) GRR_SRF_DDR_RANGE s)"

definition client_base :: "u64 \<Rightarrow> int \<Rightarrow> u64 option" where
  "client_base ddr_bar i =
     map_option ((+) ddr_bar) (aget 2 ((\<lambda>_. 0)(0 := CLIENT_DDR0_OFFSET, 1 := CLIENT_DDR1_OFFSET)) i)"

definition kernel_pmu_ddr_init_client ::
    "mmio \<Rightarrow> u64 \<Rightarrow> 'a kddr_scheme \<Rightarrow> (int \<times> 'a kddr_scheme) option" where
  "kernel_pmu_ddr_init_client e ddr_bar s =
     (let s = s\<lparr>ddr := zero_ddr\<lparr>ddr_interface_type := DDR_CLIENT, bar_address := ddr_bar\<rparr>\<rparr>
      in ddr_init_with e (client_base ddr_bar) CLIENT_DDR_RANGE s)"

definition read_ddr_counters :: "mmio \<Rightarrow> 'a kddr_scheme \<Rightarrow> (int \<times> u64 \<times> u64 \<times> 'a kddr_scheme) option" where
  "read_ddr_counters e s =
     (if ddr_cpu_type s \<noteq> word_of_int DDR_GRR_SRF \<and> ddr_cpu_type s \<noteq> word_of_int DDR_CLIENT
      then Some (- ENOMEM, 0, 0, s)
      else if num_ctrl s \<le> 0 then Some (- ENOMEM, 0, 0, s)
      else do { (read_bw, s) \<leftarrow> kernel_pmu_ddr e DDR_PMU_RD s;
                (write_bw, s) \<leftarrow> kernel_pmu_ddr e DDR_PMU_WR s;
                if read_bw = word_of_int (- EINVAL) \<or> write_bw = word_of_int (- EINVAL)
                then Some (- ENOMEM, 0, 0, s)
                else Some (0, read_bw, write_bw, s) })"

section \<open>Reading the counters\<close>

definition mapped :: "'a kddr_scheme \<Rightarrow> nat set" where
  "mapped s = {i. int i < num_ctrl s \<and> ddr_mmap (ddr s) i \<noteq> 0}"

text \<open>
  The two scans differ only in the array of last values they use. \<open>counter_bank\<close> is that
  interface: how the array is read and replaced, and the loop over it. Its one law about the
  scan gives the closed form that the clients use.
\<close>

locale counter_bank =
  fixes last_values :: "ddr_s \<Rightarrow> u64 arr"
    and upd :: "(u64 arr \<Rightarrow> u64 arr) \<Rightarrow> ddr_s \<Rightarrow> ddr_s"
    and scan :: "mmio \<Rightarrow> u64 \<Rightarrow> 'a kddr_scheme \<Rightarrow> ('a kddr_scheme \<times> u64) option"
  assumes last_upd: "last_values (upd f d) = f (last_values d)"
    and mmap_upd: "ddr_mmap (upd f d) = ddr_mmap d"
    and upd_upd: "upd f (upd g d) = upd (f \<circ> g) d"
    and upd_id: "upd (\<lambda>a. a) d = d"
    and upd_const: "upd (\<lambda>_. f (last_values d)) d = upd f d"
    and scan_loop: "scan e off s =
      for_range 0 (num_ctrl s)
        (\<lambda>i (s, total).
           do { p \<leftarrow> mmap_at s i;
                if p = 0 then Some (s, total)
                else do { old \<leftarrow> aget MAX_NUM_DDR_CONTROLLERS (last_values (ddr s)) i;
                          Some (s\<lparr>ddr := upd (\<lambda>_. (last_values (ddr s))(nat i := io_readq e (p + off))) (ddr s)\<rparr>,
                                total + (io_readq e (p + off) - old)) } })
        (s, 0)"
begin

definition seen :: "mmio \<Rightarrow> u64 \<Rightarrow> nat set \<Rightarrow> 'a kddr_scheme \<Rightarrow> 'a kddr_scheme" where
  "seen e off A s =
     s\<lparr>ddr := upd (\<lambda>a i. if i \<in> A then io_readq e (ddr_mmap (ddr s) i + off) else a i) (ddr s)\<rparr>"

lemma seen_step:
  "(seen e off A s)\<lparr>ddr := upd (\<lambda>_. (last_values (ddr (seen e off A s)))(i := io_readq e (ddr_mmap (ddr s) i + off)))
      (ddr (seen e off A s))\<rparr>
   = seen e off (insert i A) s"
proof -
  let ?v = "io_readq e (ddr_mmap (ddr s) i + off)"
  have "(\<lambda>a. a(i := ?v)) \<circ> (\<lambda>a j. if j \<in> A then io_readq e (ddr_mmap (ddr s) j + off) else a j)
    = (\<lambda>a j. if j \<in> insert i A then io_readq e (ddr_mmap (ddr s) j + off) else a j)"
    by (auto simp: fun_eq_iff)
  moreover have "upd (\<lambda>_. (last_values d)(i := ?v)) d = upd (\<lambda>a. a(i := ?v)) d" for d
    using upd_const [of "\<lambda>a. a(i := ?v)"] by simp
  ultimately show ?thesis by (simp only: seen_def upd_upd kddr.select_convs kddr.update_convs) (simp add: seen_def upd_upd)
qed

lemma scan_total:
  assumes "num_ctrl s \<le> MAX_NUM_DDR_CONTROLLERS"
  shows "scan e off s = Some (seen e off (mapped s) s,
    \<Sum>i\<in>mapped s. io_readq e (ddr_mmap (ddr s) i + off) - last_values (ddr s) i)"
proof -
  let ?A = "\<lambda>j. {i. int i < j \<and> ddr_mmap (ddr s) i \<noteq> 0}"
  let ?I = "\<lambda>j (t, total). t = seen e off (?A j) s \<and>
     total = (\<Sum>i\<in>?A j. io_readq e (ddr_mmap (ddr s) i + off) - last_values (ddr s) i)"
  let ?body = "\<lambda>i (s, total).
           do { p \<leftarrow> mmap_at s i;
                if p = 0 then Some (s, total)
                else do { old \<leftarrow> aget MAX_NUM_DDR_CONTROLLERS (last_values (ddr s)) i;
                          Some (s\<lparr>ddr := upd (\<lambda>_. (last_values (ddr s))(nat i := io_readq e (p + off))) (ddr s)\<rparr>,
                                total + (io_readq e (p + off) - old)) } }"
  have "\<exists>t. for_range 0 (num_ctrl s) ?body (s, 0) = Some t \<and> ?I (num_ctrl s) t"
  proof (rule for_range_rule [where I = ?I])
    show "?I 0 (s, 0)" by (simp add: seen_def upd_id)
    show "0 \<le> num_ctrl s" by (simp add: num_ctrl_def)
  next
    fix j t
    assume j: "0 \<le> j" "j < num_ctrl s" and I: "?I j t"
    have jN: "j < MAX_NUM_DDR_CONTROLLERS" using j assms by simp
    have fin: "finite (?A j)" by (rule finite_subset [of _ "{..< nat j}"]) auto
    have less: "int i < j + 1 \<longleftrightarrow> i = nat j \<or> int i < j" for i using j(1) by auto
    have A: "?A (j + 1) = (if ddr_mmap (ddr s) (nat j) \<noteq> 0 then insert (nat j) (?A j) else ?A j)"
      unfolding less by auto
    obtain u tot where t: "t = (u, tot)" by (cases t)
    have u: "ddr_mmap (ddr u) = ddr_mmap (ddr s)"
        "last_values (ddr u) (nat j) = last_values (ddr s) (nat j)"
      using I j(1) by (auto simp: t seen_def mmap_upd last_upd)
    show "\<exists>t'. ?body j t = Some t' \<and> ?I (j + 1) t'"
      unfolding A using I j jN fin u by (auto simp: t mmap_at_def seen_step)
  qed
  then show ?thesis
    by (auto simp: scan_loop mapped_def)
qed

end

interpretation rd: counter_bank rd_last_update rd_last_update_update scan_rd
  by unfold_locales (simp_all add: comp_def, simp only: scan_rd_def Let_def)

interpretation wr: counter_bank wr_last_update wr_last_update_update scan_wr
  by unfold_locales (simp_all add: comp_def, simp only: scan_wr_def Let_def)

text \<open>The offset of the counter of each direction in a controller's window.\<close>

definition counter_offset :: "u32 \<Rightarrow> int \<Rightarrow> u64" where
  "counter_offset cpu_type type =
     (if cpu_type = word_of_int DDR_CLIENT
      then if type = DDR_PMU_RD then CLIENT_DDR_RD_BW else CLIENT_DDR_WR_BW
      else if type = DDR_PMU_RD then 0 else GRR_SRF_FREE_RUN_CNTR_WRITE - GRR_SRF_FREE_RUN_CNTR_READ)"

definition last_of :: "int \<Rightarrow> ddr_s \<Rightarrow> u64 arr" where
  "last_of type d = (if type = DDR_PMU_RD then rd_last_update d else wr_last_update d)"

definition known_ddr :: "'a kddr_scheme \<Rightarrow> bool" where
  "known_ddr s \<longleftrightarrow> ddr_cpu_type s = word_of_int DDR_CLIENT \<or> ddr_cpu_type s = word_of_int DDR_GRR_SRF"

definition ddr_sampled :: "mmio \<Rightarrow> int \<Rightarrow> 'a kddr_scheme \<Rightarrow> 'a kddr_scheme" where
  "ddr_sampled e type s =
     (if type = DDR_PMU_RD then rd.seen e (counter_offset (ddr_cpu_type s) type) (mapped s) s
      else wr.seen e (counter_offset (ddr_cpu_type s) type) (mapped s) s)"

lemma ddr_sampled_frame [simp, frame_simps]:
  "ddr_cpu_type (ddr_sampled e type s) = ddr_cpu_type s"
  "num_ddr_controllers (ddr_sampled e type s) = num_ddr_controllers s"
  "ddr_mmap (ddr (ddr_sampled e type s)) = ddr_mmap (ddr s)" "io_live (ddr_sampled e type s) = io_live s"
  "corestate (ddr_sampled e type s) = corestate s" "hwreg (ddr_sampled e type s) = hwreg s"
  "mab_modules (ddr_sampled e type s) = mab_modules s" "mab_cores (ddr_sampled e type s) = mab_cores s"
  "sys_first_core (ddr_sampled e type s) = sys_first_core s"
  "sys_active_cores (ddr_sampled e type s) = sys_active_cores s"
  "kddr.more (ddr_sampled e type s) = kddr.more s"
  by (simp_all add: ddr_sampled_def rd.seen_def wr.seen_def)

lemma mapped_sampled [simp, frame_simps]: "mapped (ddr_sampled e type s) = mapped s"
  by (simp add: mapped_def num_ctrl_def)

lemma last_of_sampled:
  "type = DDR_PMU_RD \<or> type = DDR_PMU_WR \<Longrightarrow>
   last_of type (ddr (ddr_sampled e type s)) =
     (\<lambda>i. if i \<in> mapped s then io_readq e (ddr_mmap (ddr s) i + counter_offset (ddr_cpu_type s) type)
          else last_of type (ddr s) i)"
  by (auto simp: last_of_def ddr_sampled_def rd.seen_def wr.seen_def DDR_PMU_RD_def DDR_PMU_WR_def)

lemma kernel_pmu_ddr_eq:
  assumes "num_ctrl s \<le> MAX_NUM_DDR_CONTROLLERS" and "known_ddr s" and "type = DDR_PMU_RD \<or> type = DDR_PMU_WR"
  shows "kernel_pmu_ddr e type s =
    Some (64 * (\<Sum>i\<in>mapped s. io_readq e (ddr_mmap (ddr s) i + counter_offset (ddr_cpu_type s) type)
                               - last_of type (ddr s) i), ddr_sampled e type s)"
proof -
  have "DDR_PMU_RD \<noteq> DDR_PMU_WR" "(word_of_int DDR_CLIENT :: u32) \<noteq> word_of_int DDR_GRR_SRF"
    by (simp_all add: const_simps)
  then show ?thesis
    using assms(2,3)
    by (auto simp: kernel_pmu_ddr_def kernel_pmu_ddr_client_def kernel_pmu_ddr_grr_srf_def known_ddr_def
        rd.scan_total [OF assms(1)] wr.scan_total [OF assms(1)] counter_offset_def last_of_def ddr_sampled_def
        mult.commute)
qed

text \<open>
  A sequence of readings, each of one direction and in the environment of its moment (what the
  counters show then), the value a counter shows in a reading, and the value it showed in the
  last reading of its direction, or the saved one where there was none.
\<close>

fun ddr_readings :: "(mmio \<times> int) list \<Rightarrow> 'a kddr_scheme \<Rightarrow> (u64 list \<times> 'a kddr_scheme) option" where
  "ddr_readings [] s = Some ([], s)"
| "ddr_readings ((e, type) # rs) s =
     Option.bind (kernel_pmu_ddr e type s) (\<lambda>(v, t). map_option (map_prod ((#) v) id) (ddr_readings rs t))"

definition counter_at :: "'a kddr_scheme \<Rightarrow> int \<Rightarrow> mmio \<Rightarrow> u64 arr" where
  "counter_at s type e i = io_readq e (ddr_mmap (ddr s) i + counter_offset (ddr_cpu_type s) type)"

fun last_reading :: "'a kddr_scheme \<Rightarrow> int \<Rightarrow> u64 arr \<Rightarrow> (mmio \<times> int) list \<Rightarrow> u64 arr" where
  "last_reading s type l [] = l"
| "last_reading s type l ((e, type') # rs) =
     last_reading s type (if type' = type then counter_at s type e else l) rs"

definition read_total :: "int \<Rightarrow> (mmio \<times> int) list \<Rightarrow> u64 list \<Rightarrow> u64" where
  "read_total type rs vs = sum_list (map2 (\<lambda>r v. if snd r = type then v else 0) rs vs)"

lemma counter_at_sampled [simp]: "counter_at (ddr_sampled e type s) = counter_at s"
  by (simp add: counter_at_def fun_eq_iff)

lemma last_reading_sampled [simp]: "last_reading (ddr_sampled e type s) ty l rs = last_reading s ty l rs"
  by (induction rs arbitrary: l) auto

lemma last_reading_cong:
  "\<forall>i\<in>I. l i = l' i \<Longrightarrow> i \<in> I \<Longrightarrow> last_reading s ty l rs i = last_reading s ty l' rs i"
proof (induction rs arbitrary: l l')
  case (Cons r rs)
  then show ?case by (cases r) auto
qed simp

lemma last_of_other:
  "{type, ty} = {DDR_PMU_RD, DDR_PMU_WR} \<Longrightarrow> last_of ty (ddr (ddr_sampled e type s)) = last_of ty (ddr s)"
  by (auto simp: last_of_def ddr_sampled_def rd.seen_def wr.seen_def DDR_PMU_RD_def DDR_PMU_WR_def doubleton_eq_iff)

lemma last_of_next:
  assumes "type \<in> {DDR_PMU_RD, DDR_PMU_WR}" and "ty \<in> {DDR_PMU_RD, DDR_PMU_WR}" and "i \<in> mapped s"
  shows "last_of ty (ddr (ddr_sampled e type s)) i =
    (if type = ty then counter_at s ty e i else last_of ty (ddr s) i)"
  using assms last_of_other [of type ty e s] by (auto simp: last_of_sampled counter_at_def insert_commute)

lemma last_reading_next:
  assumes "type \<in> {DDR_PMU_RD, DDR_PMU_WR}" and "ty \<in> {DDR_PMU_RD, DDR_PMU_WR}" and "i \<in> mapped s"
  shows "last_reading s ty (last_of ty (ddr (ddr_sampled e type s))) rs i =
    last_reading s ty (last_of ty (ddr s)) ((e, type) # rs) i"
proof -
  have "\<forall>i\<in>mapped s. last_of ty (ddr (ddr_sampled e type s)) i =
      (if type = ty then counter_at s ty e else last_of ty (ddr s)) i"
    using assms(1,2) by (simp add: last_of_next)
  from last_reading_cong [OF this assms(3), of s ty rs] show ?thesis by simp
qed

lemma ddr_readings_run:
  assumes "num_ctrl s \<le> MAX_NUM_DDR_CONTROLLERS" and "known_ddr s" and "snd ` set rs \<subseteq> {DDR_PMU_RD, DDR_PMU_WR}"
  shows "\<exists>vs t. ddr_readings rs s = Some (vs, t) \<and> length vs = length rs \<and> mapped t = mapped s \<and>
    ddr_mmap (ddr t) = ddr_mmap (ddr s) \<and>
    (\<forall>k<length rs. vs ! k = 64 * (\<Sum>i\<in>mapped s. counter_at s (snd (rs ! k)) (fst (rs ! k)) i -
        last_reading s (snd (rs ! k)) (last_of (snd (rs ! k)) (ddr s)) (take k rs) i)) \<and>
    (\<forall>ty\<in>{DDR_PMU_RD, DDR_PMU_WR}. \<forall>i\<in>mapped s.
        last_of ty (ddr t) i = last_reading s ty (last_of ty (ddr s)) rs i)"
  using assms
proof (induction rs arbitrary: s)
  case (Cons r rs)
  obtain e type where r: "r = (e, type)" by (cases r)
  let ?u = "ddr_sampled e type s"
  have ty: "type \<in> {DDR_PMU_RD, DDR_PMU_WR}" using Cons.prems(3) r by simp
  have u: "num_ctrl ?u \<le> MAX_NUM_DDR_CONTROLLERS" "known_ddr ?u"
    using Cons.prems(1,2) by (simp_all add: num_ctrl_def known_ddr_def)
  have "kernel_pmu_ddr e type s = Some (64 * (\<Sum>i\<in>mapped s. counter_at s type e i - last_of type (ddr s) i), ?u)"
    using kernel_pmu_ddr_eq [OF Cons.prems(1,2), of type e] ty by (simp add: counter_at_def)
  moreover obtain vs t where vs: "ddr_readings rs ?u = Some (vs, t)" "length vs = length rs" "mapped t = mapped s"
      "ddr_mmap (ddr t) = ddr_mmap (ddr s)"
      "\<And>k. k < length rs \<Longrightarrow> vs ! k = 64 * (\<Sum>i\<in>mapped s. counter_at s (snd (rs ! k)) (fst (rs ! k)) i -
        last_reading s (snd (rs ! k)) (last_of (snd (rs ! k)) (ddr ?u)) (take k rs) i)"
      "\<And>ty i. ty \<in> {DDR_PMU_RD, DDR_PMU_WR} \<Longrightarrow> i \<in> mapped s \<Longrightarrow>
        last_of ty (ddr t) i = last_reading s ty (last_of ty (ddr ?u)) rs i"
  proof -
    have "snd ` set rs \<subseteq> {DDR_PMU_RD, DDR_PMU_WR}" using Cons.prems(3) by simp
    from Cons.IH [OF u this] that show ?thesis
      unfolding mapped_sampled counter_at_sampled last_reading_sampled ddr_sampled_frame by blast
  qed
  moreover have "vs ! k = 64 * (\<Sum>i\<in>mapped s. counter_at s (snd (rs ! k)) (fst (rs ! k)) i -
        last_reading s (snd (rs ! k)) (last_of (snd (rs ! k)) (ddr s)) ((e, type) # take k rs) i)"
    if "k < length rs" for k
  proof -
    have "snd (rs ! k) \<in> {DDR_PMU_RD, DDR_PMU_WR}" using Cons.prems(3) that by force
    then show ?thesis by (subst vs(5) [OF that]) (simp only: last_reading_next [OF ty] cong: sum.cong)
  qed
  moreover have "last_of ty' (ddr t) i = last_reading s ty' (last_of ty' (ddr s)) ((e, type) # rs) i"
    if "ty' \<in> {DDR_PMU_RD, DDR_PMU_WR}" "i \<in> mapped s" for ty' i
    using vs(6) [OF that] last_reading_next [OF ty that] by simp
  ultimately show ?case
    by (auto simp: r nth_Cons less_Suc_eq_0_disj split: nat.split simp del: last_reading.simps(2))
qed simp

lemma read_total_telescopes:
  fixes l :: "nat \<Rightarrow> u64"
  assumes "length rs = length vs"
    and "\<forall>k<length rs. snd (rs ! k) = ty \<longrightarrow>
      vs ! k = 64 * (\<Sum>i\<in>I. counter_at s ty (fst (rs ! k)) i - last_reading s ty l (take k rs) i)"
  shows "read_total ty rs vs = 64 * (\<Sum>i\<in>I. last_reading s ty l rs i - l i)"
  using assms
proof (induction arbitrary: l rule: list_induct2)
  case Nil
  then show ?case by (simp add: read_total_def)
next
  case (Cons r rs v vs)
  obtain e type where r: "r = (e, type)" by (cases r)
  let ?l = "if type = ty then counter_at s ty e else l"
  have "read_total ty rs vs = 64 * (\<Sum>i\<in>I. last_reading s ty ?l rs i - ?l i)"
  proof (rule Cons.IH)
    show "\<forall>k<length rs. snd (rs ! k) = ty \<longrightarrow>
        vs ! k = 64 * (\<Sum>i\<in>I. counter_at s ty (fst (rs ! k)) i - last_reading s ty ?l (take k rs) i)"
      using Cons.prems by (auto simp: r dest: spec [of _ "Suc _"])
  qed
  moreover have "v = 64 * (\<Sum>i\<in>I. counter_at s ty e i - l i)" if "type = ty"
    using Cons.prems that by (auto simp: r dest: spec [of _ 0])
  moreover have "read_total ty (r # rs) (v # vs) = (if type = ty then v else 0) + read_total ty rs vs"
    by (simp add: r read_total_def)
  ultimately show ?case
    by (simp add: r sum_subtractf right_diff_distrib)
qed

text \<open>
  Claim C11: consecutive bandwidth readings partition the progress of the counters. Take any
  sequence of readings, each of either direction and with whatever the counters show at its
  moment, on a client or server memory controller set of which at most
  \<open>MAX_NUM_DDR_CONTROLLERS\<close> are configured. Every reading is defined, and returns 64 bytes times the
  sum, over the mapped controllers, of what the free-running counter of its direction shows
  minus what it showed at the previous reading of that direction (the value saved in the state
  for the first one), modulo \<open>2^64\<close>; the saved values at the end are those of the last
  readings; and the values of one direction add up to 64 bytes times the whole progress
  between the saved values before and after, whatever the readings of the other direction in between:
  no line is lost or counted twice. In particular a second reading of unchanged counters is zero.
\<close>

theorem ddr_bandwidth_counts_once:
  assumes "num_ctrl s \<le> MAX_NUM_DDR_CONTROLLERS" and "known_ddr s" and "snd ` set rs \<subseteq> {DDR_PMU_RD, DDR_PMU_WR}"
  shows "\<exists>vs t. ddr_readings rs s = Some (vs, t) \<and> length vs = length rs \<and> ddr_mmap (ddr t) = ddr_mmap (ddr s) \<and>
    (\<forall>k<length rs. vs ! k = 64 * (\<Sum>i\<in>mapped s. counter_at s (snd (rs ! k)) (fst (rs ! k)) i -
        last_reading s (snd (rs ! k)) (last_of (snd (rs ! k)) (ddr s)) (take k rs) i)) \<and>
    (\<forall>ty\<in>{DDR_PMU_RD, DDR_PMU_WR}.
        (\<forall>i\<in>mapped s. last_of ty (ddr t) i = last_reading s ty (last_of ty (ddr s)) rs i) \<and>
        read_total ty rs vs = 64 * (\<Sum>i\<in>mapped s. last_of ty (ddr t) i - last_of ty (ddr s) i))"
proof -
  obtain vs t where v: "ddr_readings rs s = Some (vs, t)" "length vs = length rs" "ddr_mmap (ddr t) = ddr_mmap (ddr s)"
      "\<forall>k<length rs. vs ! k = 64 * (\<Sum>i\<in>mapped s. counter_at s (snd (rs ! k)) (fst (rs ! k)) i -
        last_reading s (snd (rs ! k)) (last_of (snd (rs ! k)) (ddr s)) (take k rs) i)"
      "\<forall>ty\<in>{DDR_PMU_RD, DDR_PMU_WR}. \<forall>i\<in>mapped s.
        last_of ty (ddr t) i = last_reading s ty (last_of ty (ddr s)) rs i"
    using ddr_readings_run [OF assms] by blast
  have "read_total ty rs vs = 64 * (\<Sum>i\<in>mapped s. last_of ty (ddr t) i - last_of ty (ddr s) i)"
    if "ty \<in> {DDR_PMU_RD, DDR_PMU_WR}" for ty
    using read_total_telescopes [where vs = vs and rs = rs and ty = ty and I = "mapped s" and s = s and l = "last_of ty (ddr s)"] v(2,4) v(5) [rule_format, OF that]
    by (simp cong: sum.cong)
  with v show ?thesis by blast
qed

definition demo_kddr :: kddr where
  "demo_kddr = kmab.extend demo_kmab
     (kddr.fields (word_of_int DDR_GRR_SRF) 2 (zero_ddr\<lparr>ddr_mmap := (\<lambda>_. 0)(0 := 0x1000, 1 := 0x2000)\<rparr>) 2)"

lemmas demo_kddr_simps = demo_kddr_def kmab.defs kddr.defs demo_kmab_def kcommon.defs zero_ddr_def

lemma demo_kddr_mapped: "mapped demo_kddr = {0, 1}"
proof -
  have "int i < 2 \<longleftrightarrow> i = 0 \<or> i = 1" for i by auto
  then show ?thesis
    by (auto simp: mapped_def num_ctrl_def demo_kddr_simps)
qed

definition demo_mmio :: "u64 \<Rightarrow> mmio" where
  "demo_mmio d = \<lparr>io_remap = (\<lambda>_ _. 0), io_readq = (\<lambda>a. a + d)\<rparr>"

theorem ddr_bandwidth_counts_once_witness:
  "\<exists>vs t. ddr_readings [(demo_mmio 0, DDR_PMU_RD), (demo_mmio 3, DDR_PMU_WR), (demo_mmio 5, DDR_PMU_RD)] demo_kddr =
      Some (vs, t) \<and> vs ! 0 = 64 * 0x3000 \<and> vs ! 2 = 64 * 10"
proof -
  have d: "num_ctrl demo_kddr \<le> MAX_NUM_DDR_CONTROLLERS" "known_ddr demo_kddr"
    by (simp_all add: num_ctrl_def known_ddr_def demo_kddr_simps const_simps)
  let ?rs = "[(demo_mmio 0, DDR_PMU_RD), (demo_mmio 3, DDR_PMU_WR), (demo_mmio 5, DDR_PMU_RD)]"
  obtain vs t where v: "ddr_readings ?rs demo_kddr = Some (vs, t)"
      "\<forall>k<length ?rs. vs ! k = 64 * (\<Sum>i\<in>mapped demo_kddr. counter_at demo_kddr (snd (?rs ! k)) (fst (?rs ! k)) i -
        last_reading demo_kddr (snd (?rs ! k)) (last_of (snd (?rs ! k)) (ddr demo_kddr)) (take k ?rs) i)"
    using ddr_bandwidth_counts_once [OF d, of ?rs] by auto
  have "DDR_PMU_WR \<noteq> DDR_PMU_RD" by (simp add: const_simps)
  then have "vs ! 0 = 64 * 0x3000" "vs ! 2 = 64 * 10"
    using v(2) [rule_format, of 0] v(2) [rule_format, of 2]
    by (simp_all add: demo_kddr_mapped counter_at_def demo_mmio_def)
      (simp_all add: demo_kddr_simps counter_offset_def last_of_def const_simps)
  with v(1) show ?thesis by blast
qed

section \<open>Mapping the controllers\<close>

lemma set_mmap_ok:
  "0 \<le> i \<Longrightarrow> i < MAX_NUM_DDR_CONTROLLERS \<Longrightarrow>
   set_mmap i p s = Some (s\<lparr>ddr := (ddr s)\<lparr>ddr_mmap := (ddr_mmap (ddr s))(nat i := p)\<rparr>\<rparr>)"
  by (simp add: set_mmap_def)

lemma mmap_at_ok: "0 \<le> i \<Longrightarrow> i < MAX_NUM_DDR_CONTROLLERS \<Longrightarrow> mmap_at s i = Some (ddr_mmap (ddr s) (nat i))"
  by (simp add: mmap_at_def)

text \<open>A state with the windows \<open>M\<close> and \<open>n\<close> live mappings.\<close>

definition with_maps :: "u64 arr \<Rightarrow> int \<Rightarrow> 'a kddr_scheme \<Rightarrow> 'a kddr_scheme" where
  "with_maps M n s = s\<lparr>io_live := n, ddr := (ddr s)\<lparr>ddr_mmap := M\<rparr>\<rparr>"

lemma with_maps_frame [simp, frame_simps]:
  "ddr_mmap (ddr (with_maps M n s)) = M" "io_live (with_maps M n s) = n"
  "num_ddr_controllers (with_maps M n s) = num_ddr_controllers s" "ddr_cpu_type (with_maps M n s) = ddr_cpu_type s"
  "with_maps M n (with_maps M' n' s) = with_maps M n s" "num_ctrl (with_maps M n s) = num_ctrl s"
  by (simp_all add: with_maps_def num_ctrl_def)

lemma with_maps_id: "with_maps (ddr_mmap (ddr s)) (io_live s) s = s"
  by (simp add: with_maps_def)

lemma init_maps_outcome:
  assumes "0 \<le> i" and "i + int n \<le> MAX_NUM_DDR_CONTROLLERS"
    and "\<And>j. i \<le> j \<Longrightarrow> j < i + int n \<Longrightarrow> base j \<noteq> None"
  shows "\<exists>r stop M. init_maps e base rng n i s = Some (r, with_maps M (io_live s + (stop - i)) s) \<and>
     (case r of None \<Rightarrow> stop = i + int n | Some j \<Rightarrow> stop = j \<and> i \<le> j \<and> j < i + int n) \<and>
     (\<forall>k. if i \<le> int k \<and> int k < stop then M k \<noteq> 0 else M k = ddr_mmap (ddr s) k)"
  using assms
proof (induction n arbitrary: i s)
  case 0
  show ?case
    by (rule exI [of _ None], rule exI [of _ i], rule exI [of _ "ddr_mmap (ddr s)"]) (auto simp: with_maps_id)
next
  case (Suc n)
  obtain b where b: "base i = Some b" using Suc.prems(3) [of i] by auto
  show ?case
  proof (cases "io_remap e b rng = 0")
    case True
    then show ?thesis
      by (intro exI [of _ "Some i"] exI [of _ i] exI [of _ "ddr_mmap (ddr s)"])
         (auto simp: b with_maps_id)
  next
    case False
    let ?u = "with_maps ((ddr_mmap (ddr s))(nat i := io_remap e b rng)) (io_live s + 1) s"
    have "\<exists>r stop M. init_maps e base rng n (i + 1) ?u = Some (r, with_maps M (io_live ?u + (stop - (i + 1))) ?u) \<and>
     (case r of None \<Rightarrow> stop = i + 1 + int n | Some j \<Rightarrow> stop = j \<and> i + 1 \<le> j \<and> j < i + 1 + int n) \<and>
     (\<forall>k. if i + 1 \<le> int k \<and> int k < stop then M k \<noteq> 0 else M k = ddr_mmap (ddr ?u) k)"
      using Suc.prems by (intro Suc.IH) auto
    then obtain r stop M where r: "init_maps e base rng n (i + 1) ?u = Some (r, with_maps M (io_live s + (stop - i)) s)"
      "case r of None \<Rightarrow> stop = i + 1 + int n | Some j \<Rightarrow> stop = j \<and> i + 1 \<le> j \<and> j < i + 1 + int n"
      "\<And>k. if i + 1 \<le> int k \<and> int k < stop then M k \<noteq> 0
            else M k = ((ddr_mmap (ddr s))(nat i := io_remap e b rng)) k"
      by auto
    have step: "init_maps e base rng (Suc n) i s = init_maps e base rng n (i + 1) ?u"
      using Suc.prems(1,2) False by (simp add: b Let_def set_mmap_ok with_maps_def)
    have stop: "i < stop" using r(2) by (cases r) auto
    have "if i \<le> int k \<and> int k < stop then M k \<noteq> 0 else M k = ddr_mmap (ddr s) k" for k
      using r(3) [of k] False stop Suc.prems(1) by (cases "int k = i") (auto split: if_splits)
    moreover have "case r of None \<Rightarrow> stop = i + int (Suc n) | Some j \<Rightarrow> stop = j \<and> i \<le> j \<and> j < i + int (Suc n)"
      using r(2) by (cases r) auto
    ultimately show ?thesis
      unfolding step r(1) by blast
  qed
qed

lemma unmap_below_eq:
  assumes "int n \<le> MAX_NUM_DDR_CONTROLLERS" and "\<And>k. k < n \<Longrightarrow> ddr_mmap (ddr s) k \<noteq> 0"
  shows "unmap_below n s =
    Some (with_maps (\<lambda>k. if k < n then 0 else ddr_mmap (ddr s) k) (io_live s - int n) s)"
  using assms
proof (induction n arbitrary: s)
  case 0
  then show ?case by (simp add: with_maps_id)
next
  case (Suc n)
  let ?u = "with_maps ((ddr_mmap (ddr s))(n := 0)) (io_live s - 1) s"
  have "unmap_below n ?u = Some (with_maps (\<lambda>k. if k < n then 0 else ddr_mmap (ddr ?u) k) (io_live ?u - int n) ?u)"
    using Suc.prems by (intro Suc.IH) auto
  then have "unmap_below n ?u =
      Some (with_maps (\<lambda>k. if k < n then 0 else ((ddr_mmap (ddr s))(n := 0)) k) (io_live s - 1 - int n) s)"
    by (simp only: with_maps_frame)
  moreover have "(\<lambda>k. if k < n then 0 else ((ddr_mmap (ddr s))(n := 0)) k) =
      (\<lambda>k. if k < Suc n then 0 else ddr_mmap (ddr s) k)"
    by (auto simp: fun_eq_iff less_Suc_eq)
  moreover have "unmap_below (Suc n) s = unmap_below n ?u"
    using Suc.prems(1) Suc.prems(2) [of n] by (simp add: mmap_at_ok set_mmap_ok with_maps_def)
  ultimately show ?case by (simp only: of_nat_Suc diff_diff_eq add.commute)
qed

text \<open>Number of live windows, and the state in which the count of mappings is right.\<close>

definition windows :: "'a kddr_scheme \<Rightarrow> nat set" where
  "windows s = {i. int i < MAX_NUM_DDR_CONTROLLERS \<and> ddr_mmap (ddr s) i \<noteq> 0}"

definition io_balanced :: "'a kddr_scheme \<Rightarrow> bool" where
  "io_balanced s \<longleftrightarrow> io_live s = int (card (windows s))"

lemma windows_prefix:
  assumes "0 \<le> n" "n \<le> MAX_NUM_DDR_CONTROLLERS" and "\<And>k. (ddr_mmap (ddr s) k \<noteq> 0) = (int k < n)"
  shows "windows s = {..< nat n}"
proof (rule set_eqI)
  fix k
  show "k \<in> windows s \<longleftrightarrow> k \<in> {..< nat n}"
    unfolding windows_def mem_Collect_eq assms(3) lessThan_iff using assms(1,2) by linarith
qed

lemma ddr_init_with_outcome:
  assumes n: "num_ctrl s \<le> MAX_NUM_DDR_CONTROLLERS" and known: "known_ddr s"
    and base: "\<And>j. 0 \<le> j \<Longrightarrow> j < num_ctrl s \<Longrightarrow> base j \<noteq> None"
    and zero: "ddr_mmap (ddr s) = (\<lambda>_. 0)" "io_live s = 0"
  shows "\<exists>ret t. ddr_init_with e base rng s = Some (ret, t) \<and>
    (ret = 0 \<and> windows t = {..< nat (num_ctrl s)} \<or> ret = - ENOMEM \<and> windows t = {}) \<and> io_balanced t \<and> num_ctrl t = num_ctrl s"
proof -
  have n0: "0 \<le> num_ctrl s" by (simp add: num_ctrl_def)
  have "\<exists>r stop M. init_maps e base rng (nat (num_ctrl s)) 0 s = Some (r, with_maps M (io_live s + (stop - 0)) s) \<and>
     (case r of None \<Rightarrow> stop = 0 + int (nat (num_ctrl s))
      | Some j \<Rightarrow> stop = j \<and> 0 \<le> j \<and> j < 0 + int (nat (num_ctrl s))) \<and>
     (\<forall>k. if 0 \<le> int k \<and> int k < stop then M k \<noteq> 0 else M k = ddr_mmap (ddr s) k)"
    using n n0 base by (intro init_maps_outcome) auto
  then obtain r stop M where r: "init_maps e base rng (nat (num_ctrl s)) 0 s = Some (r, with_maps M stop s)"
      "case r of None \<Rightarrow> stop = num_ctrl s | Some j \<Rightarrow> stop = j \<and> 0 \<le> j \<and> j < num_ctrl s"
      "\<And>k. if int k < stop then M k \<noteq> 0 else M k = 0"
    unfolding zero using n0 by (simp only: add_0 diff_zero of_nat_0_le_iff nat_0_le simp_thms) blast
  have M: "(M k \<noteq> 0) = (int k < stop)" for k using r(3) [of k] by (auto split: if_splits)
  show ?thesis
  proof (cases r)
    case None
    let ?u = "with_maps M stop s"
    have stop: "stop = num_ctrl s" using r(2) None by simp
    have u: "num_ctrl ?u \<le> MAX_NUM_DDR_CONTROLLERS" "known_ddr ?u"
      using n known by (simp_all add: known_ddr_def)
    let ?v = "ddr_sampled e DDR_PMU_RD ?u"
    have v: "num_ctrl ?v \<le> MAX_NUM_DDR_CONTROLLERS" "known_ddr ?v"
      using u by (simp_all add: num_ctrl_def known_ddr_def)
    let ?w = "ddr_sampled e DDR_PMU_WR ?v"
    have w: "windows ?w = {..< nat (num_ctrl s)}"
      using n n0 stop M by (intro windows_prefix) simp_all
    have "ddr_init_with e base rng s = Some (0, ?w)"
      using None u v by (simp add: ddr_init_with_def r(1) kernel_pmu_ddr_eq)
    then show ?thesis using w n0 stop by (simp add: io_balanced_def num_ctrl_def)
  next
    case (Some j)
    let ?u = "with_maps M stop s"
    have j: "stop = j" "0 \<le> j" "j < num_ctrl s" using r(2) Some by simp_all
    have "unmap_below (nat j) ?u = Some (with_maps (\<lambda>k. if k < nat j then 0 else M k) 0 s)"
      using j n M by (subst unmap_below_eq) (auto cong: if_cong)
    moreover have "windows (with_maps (\<lambda>k. if k < nat j then 0 else M k) 0 s) = {}"
    proof -
      have "M k = 0" if "\<not> k < nat j" for k using M [of k] that j by auto
      then show ?thesis by (auto simp: windows_def)
    qed
    ultimately show ?thesis
      using Some by (simp add: ddr_init_with_def r(1) io_balanced_def)
  qed
qed


lemma init_grr_srf_outcome:
  assumes "ddr_cpu_type s = word_of_int DDR_GRR_SRF" and "1 \<le> num_ctrl s" and "num_ctrl s \<le> MAX_NUM_DDR_CONTROLLERS"
    and "io_live s = 0"
  shows "\<exists>ret t. kernel_pmu_ddr_init_grr_srf e bar s = Some (ret, t) \<and>
    (ret = 0 \<and> windows t = {..< nat (num_ctrl s)} \<or> ret = - ENOMEM \<and> windows t = {}) \<and> io_balanced t \<and> num_ctrl t = num_ctrl s"
proof -
  let ?s = "s\<lparr>ddr := zero_ddr\<lparr>ddr_interface_type := DDR_GRR_SRF, bar_address := bar\<rparr>\<rparr>"
  have "\<exists>ret t. ddr_init_with e (grr_srf_base bar) GRR_SRF_DDR_RANGE ?s = Some (ret, t) \<and>
    (ret = 0 \<and> windows t = {..< nat (num_ctrl ?s)} \<or> ret = - ENOMEM \<and> windows t = {}) \<and> io_balanced t \<and> num_ctrl t = num_ctrl ?s"
    using assms by (intro ddr_init_with_outcome) (simp_all add: num_ctrl_def known_ddr_def grr_srf_base_def zero_ddr_def)
  then show ?thesis
    using assms by (simp add: kernel_pmu_ddr_init_grr_srf_def Let_def num_ctrl_def)
qed

lemma init_client_outcome:
  assumes "ddr_cpu_type s = word_of_int DDR_CLIENT" and "num_ctrl s \<le> 2" and "io_live s = 0"
  shows "\<exists>ret t. kernel_pmu_ddr_init_client e bar s = Some (ret, t) \<and>
    (ret = 0 \<and> windows t = {..< nat (num_ctrl s)} \<or> ret = - ENOMEM \<and> windows t = {}) \<and> io_balanced t \<and> num_ctrl t = num_ctrl s"
proof -
  let ?s = "s\<lparr>ddr := zero_ddr\<lparr>ddr_interface_type := DDR_CLIENT, bar_address := bar\<rparr>\<rparr>"
  have "\<exists>ret t. ddr_init_with e (client_base bar) CLIENT_DDR_RANGE ?s = Some (ret, t) \<and>
    (ret = 0 \<and> windows t = {..< nat (num_ctrl ?s)} \<or> ret = - ENOMEM \<and> windows t = {}) \<and> io_balanced t \<and> num_ctrl t = num_ctrl ?s"
    using assms by (intro ddr_init_with_outcome)
      (auto simp: num_ctrl_def known_ddr_def client_base_def zero_ddr_def aget_def MAX_NUM_DDR_CONTROLLERS_def)
  then show ?thesis
    by (simp add: kernel_pmu_ddr_init_client_def Let_def num_ctrl_def)
qed

text \<open>
  Claim C10: initialising the controllers is all or nothing. On a server part with 1 to 16
  controllers, and with no window mapped before, initialisation always returns: either every
  configured controller is mapped, or mapping one failed, the error is \<open>-ENOMEM\<close> and no
  window is left mapped. In both cases the number of live mappings is the number of windows
  recorded.
\<close>

theorem ddr_init_all_or_nothing:
  assumes "ddr_cpu_type s = word_of_int DDR_GRR_SRF" and "1 \<le> num_ctrl s" and "num_ctrl s \<le> MAX_NUM_DDR_CONTROLLERS"
    and "io_live s = 0"
  shows "\<exists>ret t. kernel_pmu_ddr_init_grr_srf e bar s = Some (ret, t) \<and>
    (ret = 0 \<and> windows t = {..< nat (num_ctrl s)} \<or> ret = - ENOMEM \<and> windows t = {}) \<and>
    io_live t = int (card (windows t))"
  using init_grr_srf_outcome [OF assms, of e bar] by (auto simp: io_balanced_def)

definition failing_mmio :: mmio where
  "failing_mmio = \<lparr>io_remap = (\<lambda>a n. if a < 0x24E000 then 0x1000 else 0), io_readq = (\<lambda>a. a)\<rparr>"

theorem ddr_init_all_or_nothing_witness:
  "\<exists>ret t. kernel_pmu_ddr_init_grr_srf failing_mmio 0 (demo_kddr\<lparr>io_live := 0\<rparr>) = Some (ret, t) \<and>
     io_live t = int (card (windows t))"
  using ddr_init_all_or_nothing [of "demo_kddr\<lparr>io_live := 0\<rparr>" failing_mmio 0]
  by (auto simp: num_ctrl_def demo_kddr_simps const_simps)

text \<open>
  The client initialisation reads outside its local arrays as soon as a third
  controller is configured and the first two map: with at most two controllers it always
  returns, with more (the request handler accepts up to 16) it is undefined.
\<close>

theorem ddr_init_client_overrun:
  assumes "ddr_cpu_type s = word_of_int DDR_CLIENT" and "io_live s = 0"
    and "\<And>a. io_remap e a CLIENT_DDR_RANGE \<noteq> 0"
  shows "kernel_pmu_ddr_init_client e bar s = None \<longleftrightarrow> 2 < num_ctrl s"
proof (cases "2 < num_ctrl s")
  case True
  then obtain k where k: "nat (num_ctrl s) = Suc (Suc (Suc k))"
    by (cases "nat (num_ctrl s)" rule: nat.exhaust; cases "nat (num_ctrl s) - 1" rule: nat.exhaust;
        cases "nat (num_ctrl s) - 2" rule: nat.exhaust) auto
  have "init_maps e (client_base bar) CLIENT_DDR_RANGE (nat (num_ctrl s)) 0 u = None" for u :: "'a kddr_scheme"
    unfolding k using assms(3) by (simp add: client_base_def set_mmap_ok MAX_NUM_DDR_CONTROLLERS_def)
  moreover have "num_ctrl (s\<lparr>ddr := d\<rparr>) = num_ctrl s" for d
    by (simp add: num_ctrl_def)
  ultimately show ?thesis
    using True by (simp add: kernel_pmu_ddr_init_client_def ddr_init_with_def Let_def)
next
  case False
  then show ?thesis
    using init_client_outcome [OF assms(1) _ assms(2), of e bar] by auto
qed

theorem ddr_init_client_overrun_witness:
  "kernel_pmu_ddr_init_client \<lparr>io_remap = (\<lambda>_ _. 1), io_readq = (\<lambda>a. a)\<rparr> 0
     (demo_kddr\<lparr>ddr_cpu_type := 1, num_ddr_controllers := 3, io_live := 0\<rparr>) = None"
  using ddr_init_client_overrun [of "demo_kddr\<lparr>ddr_cpu_type := 1, num_ddr_controllers := 3, io_live := 0\<rparr>"
      "\<lparr>io_remap = (\<lambda>_ _. 1), io_readq = (\<lambda>a. a)\<rparr>" 0]
  by (simp add: num_ctrl_def const_simps)

text \<open>Where the base address is undefined the loop is undefined; a run that returned is a run of
  any total extension of the address function.\<close>

definition extend_base :: "(int \<Rightarrow> u64 option) \<Rightarrow> int \<Rightarrow> u64 option" where
  "extend_base base j = (case base j of None \<Rightarrow> Some 0 | Some b \<Rightarrow> Some b)"

lemma init_maps_extend:
  "init_maps e base rng n i s = Some x \<Longrightarrow> init_maps e (extend_base base) rng n i s = Some x"
  by (induction n arbitrary: i s)
     (auto simp: extend_base_def Let_def split: option.splits bind_splits if_splits)

lemma ddr_init_with_extend:
  "ddr_init_with e base rng s = Some x \<Longrightarrow> ddr_init_with e (extend_base base) rng s = Some x"
  by (cases "init_maps e base rng (nat (num_ctrl s)) 0 s")
     (simp_all add: ddr_init_with_def init_maps_extend)

lemma init_client_balanced:
  assumes "kernel_pmu_ddr_init_client e bar s = Some (ret, t)"
    and "ddr_cpu_type s = word_of_int DDR_CLIENT" and "num_ctrl s \<le> MAX_NUM_DDR_CONTROLLERS" and "io_live s = 0"
  shows "io_balanced t \<and> num_ctrl t = num_ctrl s"
proof -
  let ?s = "s\<lparr>ddr := zero_ddr\<lparr>ddr_interface_type := DDR_CLIENT, bar_address := bar\<rparr>\<rparr>"
  have "ddr_init_with e (extend_base (client_base bar)) CLIENT_DDR_RANGE ?s = Some (ret, t)"
    using assms(1) by (intro ddr_init_with_extend) (simp add: kernel_pmu_ddr_init_client_def Let_def)
  moreover have "\<exists>ret t. ddr_init_with e (extend_base (client_base bar)) CLIENT_DDR_RANGE ?s = Some (ret, t) \<and>
    (ret = 0 \<and> windows t = {..< nat (num_ctrl ?s)} \<or> ret = - ENOMEM \<and> windows t = {}) \<and> io_balanced t \<and> num_ctrl t = num_ctrl ?s"
    using assms by (intro ddr_init_with_outcome)
      (auto simp: num_ctrl_def known_ddr_def extend_base_def zero_ddr_def split: option.splits)
  ultimately show ?thesis by (auto simp: num_ctrl_def)
qed

end
