(* ===== verification/Kernel_Primitive.thy ===== *)
theory Kernel_Primitive
  imports Kernel_Ddr
begin

text \<open>
  \<open>kernelmod/kernel_primitive.h\<close> and \<open>kernelmod/kernel_primitive.c\<close>: the heuristic tuner
  of the kernel module. \<open>kprim\<close> holds the file's static variables; the static
  \<open>time_old\<close> of \<open>kernel_basicalg\<close> is \<open>ba_time_old\<close>. \<open>kernel_basicalg\<close> is cut into
  one definition per phase, in the order of the function: reading the bandwidth and the first
  call, the per-core PMU data, and the two decision procedures.
\<close>

definition BENEFITING_CORES :: int where [const_simps]: "BENEFITING_CORES = 1"
definition MODE_BOOT_DEFAULT :: int where [const_simps]: "MODE_BOOT_DEFAULT = -1"
definition MODE_IDLE :: int where [const_simps]: "MODE_IDLE = 0"
definition MODE_AGGRESSIVE :: int where [const_simps]: "MODE_AGGRESSIVE = 1"
definition MODE_UNINITIALIZED :: int where [const_simps]: "MODE_UNINITIALIZED = 2"

record kprim = kddr +
  l2_hitr :: "int arr"
  l3_hitr :: "int arr"
  good_pf :: "int arr"
  core_contr_to_ddr :: "int arr"
  pmu_delta :: "u64 arr arr"
  first_core_idx :: int
  last_core_idx :: int
  core_benefits :: "int arr"
  module_mode :: "int arr"
  ba_time_old :: u64
  ddr_bw_target_ppms :: int

definition delta_at :: "'a kprim_scheme \<Rightarrow> int \<Rightarrow> u64 arr option" where
  "delta_at s i = aget MAX_NUM_CORES (pmu_delta s) i"

text \<open>The first call records the time and the configuration and tunes nothing.\<close>

definition basicalg_first_call :: "u64 \<Rightarrow> 'a kprim_scheme \<Rightarrow> 'a kprim_scheme" where
  "basicalg_first_call now s =
     (let s = s\<lparr>ba_time_old := now, first_core_idx := first_core s,
                last_core_idx := int32 (first_core s + active_cores s),
                module_mode := (\<lambda>i. if int i < MAX_MODULES then MODE_UNINITIALIZED else module_mode s i),
                ddr_bw_target_ppms := int32 (ddr_bw_target s * 10)\<rparr>
      in if ddr_bw_target_ppms s = 0 then s\<lparr>ba_time_old := 0\<rparr> else s)"

definition compute_pmu_delta :: "'a kprim_scheme \<Rightarrow> 'a kprim_scheme option" where
  "compute_pmu_delta s =
     for_range (first_core_idx s) (last_core_idx s)
       (\<lambda>i s. do { c \<leftarrow> core_at s i;
                   d \<leftarrow> delta_at s i;
                   Some (s\<lparr>pmu_delta := (pmu_delta s)(nat i :=
                     (\<lambda>j. if j < K_PMU_COUNTERS then pmu_raw c j - pmu_old c j else d j))\<rparr>) }) s"

definition sum_ddr_hits :: "'a kprim_scheme \<Rightarrow> u64 option" where
  "sum_ddr_hits s =
     for_range (first_core_idx s) (last_core_idx s)
       (\<lambda>i total. do { d \<leftarrow> delta_at s i; Some (total + d PERF_MEM_LOAD_UOPS_RETIRED_DRAM_HIT) }) 0"

definition div64 :: "u64 \<Rightarrow> u64 \<Rightarrow> u64 option" where
  "div64 a b = (if b = 0 then None else Some (a div b))"

definition core_rates_step :: "u64 \<Rightarrow> int \<Rightarrow> 'a kprim_scheme \<Rightarrow> 'a kprim_scheme option" where
  "core_rates_step total_ddr_hit i s =
     do { d \<leftarrow> delta_at s i;
          let l2 = d PERF_MEM_LOAD_UOPS_RETIRED_L2_HIT;
          let l3 = d PERF_MEM_LOAD_UOPS_RETIRED_L3_HIT;
          let dram = d PERF_MEM_LOAD_UOPS_RETIRED_DRAM_HIT;
          if l2 = 0 \<or> l3 = 0 \<or> dram = 0
          then Some (s\<lparr>l2_hitr := (l2_hitr s)(nat i := 0), l3_hitr := (l3_hitr s)(nat i := 0),
                       core_contr_to_ddr := (core_contr_to_ddr s)(nat i := 0),
                       good_pf := (good_pf s)(nat i := 0)\<rparr>)
          else do { a \<leftarrow> div64 (l2 * 100) (l2 + l3 + dram);
                    b \<leftarrow> div64 (l3 * 100) (l3 + dram);
                    c \<leftarrow> div64 (dram * 100) total_ddr_hit;
                    g \<leftarrow> div64 (d PERF_XQ_PROMOTION_ALL * 100) (l2 + l3 + dram);
                    Some (s\<lparr>l2_hitr := (l2_hitr s)(nat i := to_int a), l3_hitr := (l3_hitr s)(nat i := to_int b),
                            core_contr_to_ddr := (core_contr_to_ddr s)(nat i := to_int c),
                            good_pf := (good_pf s)(nat i := to_int g)\<rparr>) } }"

section \<open>Tuning algorithm 0\<close>

definition l2xq_delta :: "int \<Rightarrow> int" where
  "l2xq_delta ddr_bw_percent =
     (if ddr_bw_percent < 10 then 0
      else if ddr_bw_percent < 20 then -8
      else if ddr_bw_percent < 30 then -4
      else if ddr_bw_percent < 40 then -2
      else if ddr_bw_percent < 50 then -1
      else if ddr_bw_percent < 60 then -1
      else if ddr_bw_percent < 70 then 1
      else if ddr_bw_percent < 80 then 1
      else if ddr_bw_percent < 90 then 1
      else if ddr_bw_percent < 93 then 2
      else if ddr_bw_percent < 96 then 4
      else 8)"

definition l2xq_clamp :: "int \<Rightarrow> int" where
  "l2xq_clamp l2xq =
     (let l2xq = (if l2xq \<le> 0 then 1 else l2xq)
      in if l2xq > L2XQ_MAX then L2XQ_MAX else l2xq)"

definition tunealg0_step :: "int \<Rightarrow> int \<Rightarrow> 'a kprim_scheme \<Rightarrow> 'a kprim_scheme option" where
  "tunealg0_step ddr_bw_percent i s =
     do { old_l2xq \<leftarrow> k_msr_get_l2xq i s;
          let l2xq = l2xq_clamp (old_l2xq + l2xq_delta ddr_bw_percent);
          if old_l2xq \<noteq> l2xq
          then do { s \<leftarrow> k_msr_set_l2xq i l2xq s; msr_set_dirty i s }
          else Some s }"

definition tunealg0 :: "int \<Rightarrow> 'a kprim_scheme \<Rightarrow> 'a kprim_scheme option" where
  "tunealg0 ddr_bw_percent s = for_range 0 (active_cores s) (tunealg0_step ddr_bw_percent) s"

section \<open>Tuning algorithm 1\<close>

definition core_mode :: "u64 \<Rightarrow> u64 arr \<Rightarrow> int option" where
  "core_mode time_delta_ms d =
     do { let l2_hit = d PERF_MEM_LOAD_UOPS_RETIRED_L2_HIT;
          let l2_miss = d PERF_MEM_LOAD_UOPS_RETIRED_L2_MISS;
          cycles_per_ms \<leftarrow> div64 (d PERF_CPU_CLK_UNHALTED_THREAD) time_delta_ms;
          Some (if cycles_per_ms < IDLE_CYCLES_THRESHOLD then MODE_IDLE
                else if l2_hit > l2_miss then MODE_AGGRESSIVE
                else MODE_BOOT_DEFAULT) }"

definition tunealg1_cores :: "u64 \<Rightarrow> 'a kprim_scheme \<Rightarrow> 'a kprim_scheme option" where
  "tunealg1_cores time_delta_ms s =
     for_range (first_core_idx s) (last_core_idx s)
       (\<lambda>i s. do { d \<leftarrow> delta_at s i;
                   m \<leftarrow> core_mode time_delta_ms d;
                   Some (s\<lparr>core_benefits := (core_benefits s)(nat i := m)\<rparr>) }) s"

definition module_vote_sum :: "int \<Rightarrow> 'a kprim_scheme \<Rightarrow> int option" where
  "module_vote_sum start s =
     (let module_end = (if start + CORES_PER_COMPUTE_MODULE > last_core_idx s
                        then last_core_idx s else start + CORES_PER_COMPUTE_MODULE)
      in for_range start module_end
           (\<lambda>i sum. do { b \<leftarrow> aget MAX_NUM_CORES (core_benefits s) i; Some (sum + b) }) 0)"

text \<open>The four registers a mode sets; the other registers of the core are kept.\<close>

definition mode_msrs :: "int \<Rightarrow> msr_u arr \<Rightarrow> msr_u arr" where
  "mode_msrs desired_mode msr =
     (if desired_mode = MODE_AGGRESSIVE
      then msr(MSR_1320_INDEX := 0x008837ea070906c0, MSR_1321_INDEX := 0x0000251134040001,
               MSR_1322_INDEX := 0x280020820cd0046c, MSR_1327_INDEX := 0x0000000001920014)
      else msr(MSR_1320_INDEX := 0x10883fea070906c4, MSR_1321_INDEX := 0x0000251134140001,
               MSR_1322_INDEX := 0x2807ffff4cd0046c, MSR_1327_INDEX := 0x0000000005920014))"

definition tunealg1_module :: "int \<Rightarrow> 'a kprim_scheme \<Rightarrow> 'a kprim_scheme option" where
  "tunealg1_module start s =
     do { vote \<leftarrow> module_vote_sum start s;
          let module_idx = (start - first_core_idx s) sdiv CORES_PER_COMPUTE_MODULE;
          let desired_mode = (if vote \<ge> BENEFITING_CORES then MODE_AGGRESSIVE else MODE_BOOT_DEFAULT);
          mode \<leftarrow> aget MAX_MODULES (module_mode s) module_idx;
          if mode = desired_mode then Some s
          else do { s \<leftarrow> upd_core start (\<lambda>c. c\<lparr>pf_msr := mode_msrs desired_mode (pf_msr c)\<rparr>) s;
                    s \<leftarrow> msr_set_dirty start s;
                    Some (s\<lparr>module_mode := (module_mode s)(nat module_idx := desired_mode)\<rparr>) } }"

text \<open>\<open>for (module_start = first; module_start < last; module_start += 4)\<close>\<close>

definition tunealg1_modules :: "'a kprim_scheme \<Rightarrow> 'a kprim_scheme option" where
  "tunealg1_modules s =
     for_range 0 ((last_core_idx s - first_core_idx s + 3) div CORES_PER_COMPUTE_MODULE)
       (\<lambda>k s. tunealg1_module (first_core_idx s + k * CORES_PER_COMPUTE_MODULE) s) s"

section \<open>The tuner\<close>

definition basicalg_decide ::
    "int \<Rightarrow> int \<Rightarrow> u64 \<Rightarrow> 'a kprim_scheme \<Rightarrow> (int \<times> 'a kprim_scheme) option" where
  "basicalg_decide tunealg ddr_bw_percent time_delta_ms s =
     do { s \<leftarrow> compute_pmu_delta s;
          total_ddr_hit \<leftarrow> sum_ddr_hits s;
          if total_ddr_hit = 0 then Some (-1, s)
          else do { s \<leftarrow> for_range (first_core_idx s) (last_core_idx s) (core_rates_step total_ddr_hit) s;
                    s \<leftarrow> (if tunealg = 0 then tunealg0 ddr_bw_percent s
                          else if tunealg = 1
                               then do { s \<leftarrow> tunealg1_cores time_delta_ms s; tunealg1_modules s }
                          else Some s);
                    Some (0, s) } }"

definition kernel_basicalg ::
    "mmio \<Rightarrow> u64 \<Rightarrow> int \<Rightarrow> 'a kprim_scheme \<Rightarrow> (int \<times> 'a kprim_scheme) option" where
  "kernel_basicalg e now tunealg s =
     do { (rd, s) \<leftarrow> kernel_pmu_ddr e DDR_PMU_RD s;
          (wr, s) \<leftarrow> kernel_pmu_ddr e DDR_PMU_WR s;
          let ddr_rd_bw = drop_bit 20 rd;
          let ddr_wr_bw = drop_bit 20 wr;
          if ddr_rd_bw = word_of_int (- EINVAL) \<or> ddr_wr_bw = word_of_int (- EINVAL)
          then Some (- EINVAL, s)
          else if ba_time_old s = 0 then Some (0, basicalg_first_call now s)
          else do { let time_delta_ms = (now - ba_time_old s) div 1000000;
                    let s = s\<lparr>ba_time_old := now\<rparr>;
                    if ddr_bw_target_ppms s = 0 \<or> time_delta_ms = 0 then Some (-1, s)
                    else do { q \<leftarrow> div64 ((ddr_rd_bw + ddr_wr_bw) * time_delta_ms)
                                      (word_of_int (ddr_bw_target_ppms s));
                              basicalg_decide tunealg (to_int q) time_delta_ms s } } }"

section \<open>Algorithm 0 keeps the threshold in range\<close>

abbreviation (input) L2XQ_FIELD :: bitfield where
  "L2XQ_FIELD \<equiv> bf msr1320_s ''L2_STREAM_AMP_XQ_THRESHOLD''"

definition core_l2xq :: "core_state_s \<Rightarrow> int" where
  "core_l2xq c = get_field (pf_msr c) MSR_1320_INDEX L2XQ_FIELD"

definition retuned_core :: "int \<Rightarrow> core_state_s \<Rightarrow> core_state_s" where
  "retuned_core pct c =
     (let v = l2xq_clamp (core_l2xq c + l2xq_delta pct)
      in if core_l2xq c = v then c
         else c\<lparr>pf_msr := put_field (pf_msr c) MSR_1320_INDEX L2XQ_FIELD v, pf_msr_dirty := 1\<rparr>)"

lemma l2xq_clamp_bounds: "1 \<le> l2xq_clamp v" "l2xq_clamp v \<le> L2XQ_MAX"
  by (simp_all add: l2xq_clamp_def Let_def L2XQ_MAX_def)

lemma l2xq_field: "bf_fits L2XQ_FIELD" "bf_width L2XQ_FIELD = 5"
  by (rule bf_fits_layout) (simp_all add: layout_simps, simp add: bf_def msr1320_s_def)

lemma core_l2xq_retuned: "core_l2xq (retuned_core pct c) = l2xq_clamp (core_l2xq c + l2xq_delta pct)"
proof -
  have "l2xq_clamp v mod 2 ^ 5 = l2xq_clamp v" for v
    using l2xq_clamp_bounds [of v] by (simp add: L2XQ_MAX_def mod_pos_pos_trivial)
  then show ?thesis
    by (simp add: retuned_core_def Let_def core_l2xq_def get_put_field l2xq_field)
qed

lemma retuned_core_frame [simp, frame_simps]:
  "core_disabled (retuned_core pct c) = core_disabled c" "pmu_raw (retuned_core pct c) = pmu_raw c"
  "pmu_old (retuned_core pct c) = pmu_old c"
  by (simp_all add: retuned_core_def Let_def)

lemma tunealg0_step_eq:
  assumes "core_ok i"
  shows "tunealg0_step pct i s =
    Some (s\<lparr>corestate := (corestate s)(nat i := retuned_core pct (corestate s (nat i)))\<rparr>)"
  using assms
  by (auto simp: tunealg0_step_def k_msr_get_l2xq_def k_msr_set_l2xq_def msr_set_dirty_def
      retuned_core_def core_l2xq_def Let_def)

lemma tunealg0_eq:
  assumes "0 \<le> active_cores s" and "active_cores s \<le> MAX_NUM_CORES"
  shows "tunealg0 pct s = Some (s\<lparr>corestate :=
    (\<lambda>k. if int k < active_cores s then retuned_core pct (corestate s k) else corestate s k)\<rparr>)"
proof -
  let ?J = "\<lambda>j. s\<lparr>corestate := (\<lambda>k. if int k < j then retuned_core pct (corestate s k) else corestate s k)\<rparr>"
  have "\<exists>t. for_range 0 (active_cores s) (tunealg0_step pct) s = Some t \<and> t = ?J (active_cores s)"
  proof (rule for_range_rule [where I = "\<lambda>j t. t = ?J j"])
    show "s = ?J 0" by simp
    show "0 \<le> active_cores s" by (fact assms(1))
  next
    fix j t
    assume j: "0 \<le> j" "j < active_cores s" and t: "t = ?J j"
    have "core_ok j" using j assms by (simp add: core_ok_def)
    moreover have "(\<lambda>k. if int k < j + 1 then retuned_core pct (corestate s k) else corestate s k) =
        (\<lambda>k. if int k < j then retuned_core pct (corestate s k) else corestate s k)
          (nat j := retuned_core pct (corestate s (nat j)))"
      using j by (auto simp: fun_eq_iff)
    ultimately show "\<exists>t'. tunealg0_step pct j t = Some t' \<and> t' = ?J (j + 1)"
      using j by (simp add: t tunealg0_step_eq)
  qed
  then show ?thesis by (simp add: tunealg0_def)
qed

text \<open>
  Algorithm 0. With at most 512 active cores the loop always returns; each of the
  cores it visits ends with a threshold between 1 and 31, namely the old one plus the step for
  the bandwidth, limited to that range; a core whose threshold changed is marked dirty and one
  whose threshold did not change is left exactly as it was, as is every core it does not visit.
\<close>

theorem tunealg0_threshold_in_range:
  assumes "0 \<le> active_cores s" and "active_cores s \<le> MAX_NUM_CORES"
  shows "\<exists>t. tunealg0 pct s = Some t \<and>
    (\<forall>k. int k < active_cores s \<longrightarrow>
       1 \<le> core_l2xq (corestate t k) \<and> core_l2xq (corestate t k) \<le> L2XQ_MAX \<and>
       core_l2xq (corestate t k) = max 1 (min L2XQ_MAX (core_l2xq (corestate s k) + l2xq_delta pct)) \<and>
       (if core_l2xq (corestate t k) = core_l2xq (corestate s k) then corestate t k = corestate s k
        else pf_msr_dirty (corestate t k) = 1)) \<and>
    (\<forall>k. int k \<ge> active_cores s \<longrightarrow> corestate t k = corestate s k)"
proof -
  have "l2xq_clamp v = max 1 (min L2XQ_MAX v)" for v
    by (auto simp: l2xq_clamp_def Let_def L2XQ_MAX_def max_def min_def)
  then show ?thesis
    using assms l2xq_clamp_bounds
    by (auto simp: tunealg0_eq core_l2xq_retuned) (auto simp: retuned_core_def Let_def)
qed

definition demo_kprim :: kprim where
  "demo_kprim = kddr.extend demo_kddr
     (kprim.fields (\<lambda>_. 0) (\<lambda>_. 0) (\<lambda>_. 0) (\<lambda>_. 0) (\<lambda>_ _. 0) 0 4 (\<lambda>i. if i = 0 then -1 else if i = 3 then 0 else 1)
       (\<lambda>_. MODE_UNINITIALIZED) 1 10)"

lemmas demo_kprim_simps = demo_kprim_def kddr.defs kprim.defs demo_kddr_simps demo_kcommon_def demo_core_def

theorem tunealg0_threshold_in_range_witness:
  "\<exists>t. tunealg0 99 demo_kprim = Some t \<and> 1 \<le> core_l2xq (corestate t 2) \<and> core_l2xq (corestate t 2) \<le> L2XQ_MAX"
proof -
  have "active_cores demo_kprim = 4" by (simp add: active_cores_def demo_kprim_simps)
  then show ?thesis
    using tunealg0_threshold_in_range [of demo_kprim 99] by (auto simp: MAX_NUM_CORES_def L2XQ_MAX_def)
qed

section \<open>Algorithm 1 follows the vote\<close>

definition vote :: "'a kprim_scheme \<Rightarrow> int \<Rightarrow> int" where
  "vote s start =
     (\<Sum>i\<in>{start ..< min (start + CORES_PER_COMPUTE_MODULE) (last_core_idx s)}. core_benefits s (nat i))"

definition desired :: "'a kprim_scheme \<Rightarrow> int \<Rightarrow> int" where
  "desired s start = (if vote s start \<ge> BENEFITING_CORES then MODE_AGGRESSIVE else MODE_BOOT_DEFAULT)"

definition range_ok :: "'a kprim_scheme \<Rightarrow> bool" where
  "range_ok s \<longleftrightarrow> 0 \<le> first_core_idx s \<and> first_core_idx s \<le> last_core_idx s \<and> last_core_idx s \<le> MAX_NUM_CORES"

lemma atLeastLessThan_int_Suc: "lo \<le> j \<Longrightarrow> {lo ..< j + 1} = insert j {lo ..< j :: int}"
  by auto

lemma module_vote_sum_eq:
  assumes "range_ok s" and "first_core_idx s \<le> start" and "start < last_core_idx s"
  shows "module_vote_sum start s = Some (vote s start)"
proof -
  let ?hi = "min (start + CORES_PER_COMPUTE_MODULE) (last_core_idx s)"
  let ?body = "\<lambda>i sum. do { b \<leftarrow> aget MAX_NUM_CORES (core_benefits s) i; Some (sum + b) }"
  have "\<exists>t. for_range start ?hi ?body 0 = Some t \<and> t = (\<Sum>i\<in>{start ..< ?hi}. core_benefits s (nat i))"
  proof (rule for_range_rule [where I = "\<lambda>j t. t = (\<Sum>i\<in>{start ..< j}. core_benefits s (nat i))"])
    show "start \<le> ?hi" using assms(3) by (simp add: CORES_PER_COMPUTE_MODULE_def)
  next
    fix j t
    assume "start \<le> j" "j < ?hi" "t = (\<Sum>i\<in>{start ..< j}. core_benefits s (nat i))"
    then show "\<exists>t'. ?body j t = Some t' \<and> t' = (\<Sum>i\<in>{start ..< j + 1}. core_benefits s (nat i))"
      using assms by (simp add: atLeastLessThan_int_Suc range_ok_def)
  qed simp
  moreover have "(if start + CORES_PER_COMPUTE_MODULE > last_core_idx s then last_core_idx s
      else start + CORES_PER_COMPUTE_MODULE) = ?hi"
    by simp
  ultimately show ?thesis
    by (simp add: module_vote_sum_def vote_def Let_def)
qed

definition moded_core :: "int \<Rightarrow> core_state_s \<Rightarrow> core_state_s" where
  "moded_core mode c = c\<lparr>pf_msr := mode_msrs mode (pf_msr c), pf_msr_dirty := 1\<rparr>"

definition decided :: "'a kprim_scheme \<Rightarrow> int \<Rightarrow> 'a kprim_scheme \<Rightarrow> 'a kprim_scheme" where
  "decided s k t =
     (let start = first_core_idx s + k * CORES_PER_COMPUTE_MODULE
      in if module_mode t (nat k) = desired s start then t
         else t\<lparr>corestate := (corestate t)(nat start := moded_core (desired s start) (corestate t (nat start))),
                module_mode := (module_mode t)(nat k := desired s start)\<rparr>)"

lemma decided_frame [simp, frame_simps]:
  "first_core_idx (decided s k t) = first_core_idx t" "last_core_idx (decided s k t) = last_core_idx t"
  "core_benefits (decided s k t) = core_benefits t"
  by (simp_all add: decided_def Let_def)

definition module_count :: "'a kprim_scheme \<Rightarrow> int" where
  "module_count s = (last_core_idx s - first_core_idx s + 3) div CORES_PER_COMPUTE_MODULE"

lemma module_start_bounds:
  assumes "range_ok s" and "0 \<le> k" and "k < module_count s"
  shows "first_core_idx s + k * 4 < last_core_idx s" and "k < MAX_MODULES"
  using assms by (auto simp: range_ok_def module_count_def mab_consts)

lemma tunealg1_module_eq:
  assumes "range_ok s" and "0 \<le> k" and "k < module_count s"
    and t: "first_core_idx t = first_core_idx s" "last_core_idx t = last_core_idx s" "core_benefits t = core_benefits s"
  shows "tunealg1_module (first_core_idx s + k * CORES_PER_COMPUTE_MODULE) t = Some (decided s k t)"
proof -
  let ?start = "first_core_idx s + k * CORES_PER_COMPUTE_MODULE"
  have b: "?start < last_core_idx s" "k < MAX_MODULES"
    using module_start_bounds [OF assms(1-3)] by (simp_all add: CORES_PER_COMPUTE_MODULE_def)
  have v: "module_vote_sum ?start t = Some (vote s ?start)"
    using assms b by (subst module_vote_sum_eq) (simp_all add: range_ok_def vote_def CORES_PER_COMPUTE_MODULE_def)
  have ok: "core_ok ?start"
    using assms(1,2) b by (simp add: range_ok_def core_ok_def CORES_PER_COMPUTE_MODULE_def)
  have idx: "(?start - first_core_idx s) sdiv CORES_PER_COMPUTE_MODULE = k"
    using assms(2) by (simp add: CORES_PER_COMPUTE_MODULE_def signed_divide_int_def sgn_if)
  show ?thesis
    using ok assms(2) b(2) v idx t(1)
    by (auto simp: tunealg1_module_def decided_def Let_def desired_def moded_core_def msr_set_dirty_def)
qed

definition module_first :: "'a kprim_scheme \<Rightarrow> int \<Rightarrow> int" where
  "module_first s k = first_core_idx s + k * CORES_PER_COMPUTE_MODULE"

definition switches :: "'a kprim_scheme \<Rightarrow> int \<Rightarrow> bool" where
  "switches s k \<longleftrightarrow> module_mode s (nat k) \<noteq> desired s (module_first s k)"

text \<open>What the loop has established after \<open>j\<close> modules.\<close>

definition modules_done :: "'a kprim_scheme \<Rightarrow> int \<Rightarrow> 'a kprim_scheme \<Rightarrow> bool" where
  "modules_done s j t \<longleftrightarrow>
     first_core_idx t = first_core_idx s \<and> last_core_idx t = last_core_idx s \<and> core_benefits t = core_benefits s \<and>
     (\<forall>k. module_mode t k = (if int k < j then desired s (module_first s (int k)) else module_mode s k)) \<and>
     (\<forall>c. (\<forall>k. 0 \<le> k \<and> k < j \<and> switches s k \<longrightarrow> int c \<noteq> module_first s k) \<longrightarrow> corestate t c = corestate s c) \<and>
     (\<forall>k. 0 \<le> k \<and> k < j \<and> switches s k \<longrightarrow>
        corestate t (nat (module_first s k)) =
          moded_core (desired s (module_first s k)) (corestate s (nat (module_first s k))))"

lemma modules_done_step:
  assumes s: "range_ok s" and j: "0 \<le> j" and t: "modules_done s j t"
  shows "modules_done s (j + 1) (decided s j t)"
proof -
  have first: "0 \<le> module_first s k" if "0 \<le> k" for k
    using s that by (simp add: range_ok_def module_first_def CORES_PER_COMPUTE_MODULE_def)
  have inj: "module_first s k = module_first s l \<longleftrightarrow> k = l" for k l
    by (simp add: module_first_def CORES_PER_COMPUTE_MODULE_def)
  have old: "module_mode t (nat j) = module_mode s (nat j)"
    using t j by (simp add: modules_done_def)
  have lt: "k < j + 1 \<longleftrightarrow> k = j \<or> k < j" for k :: int by auto
  have fresh: "corestate t (nat (module_first s j)) = corestate s (nat (module_first s j))"
    using t first [OF j] by (auto simp: modules_done_def inj)
  have same: "decided s j t = (if switches s j
      then t\<lparr>corestate := (corestate t)(nat (module_first s j) :=
               moded_core (desired s (module_first s j)) (corestate s (nat (module_first s j)))),
             module_mode := (module_mode t)(nat j := desired s (module_first s j))\<rparr> else t)"
    by (simp add: decided_def Let_def switches_def module_first_def [symmetric] old fresh)
  have mm: "\<forall>k. module_mode (decided s j t) k =
      (if int k < j + 1 then desired s (module_first s (int k)) else module_mode s k)"
  proof
    fix k
    show "module_mode (decided s j t) k =
        (if int k < j + 1 then desired s (module_first s (int k)) else module_mode s k)"
      using t j old by (cases "int k = j") (auto simp: same modules_done_def switches_def)
  qed
  have cs: "\<forall>c. (\<forall>k. 0 \<le> k \<and> k < j + 1 \<and> switches s k \<longrightarrow> int c \<noteq> module_first s k) \<longrightarrow>
      corestate (decided s j t) c = corestate s c"
    using t j first [OF j] by (auto simp: same modules_done_def lt)
  have sw: "\<forall>k. 0 \<le> k \<and> k < j + 1 \<and> switches s k \<longrightarrow>
        corestate (decided s j t) (nat (module_first s k)) =
          moded_core (desired s (module_first s k)) (corestate s (nat (module_first s k)))"
  proof (intro allI impI)
    fix k
    assume k: "0 \<le> k \<and> k < j + 1 \<and> switches s k"
    then have "nat (module_first s k) = nat (module_first s j) \<longleftrightarrow> k = j"
      using first [of k] first [OF j] inj [of k j] by (simp add: nat_eq_iff)
    then show "corestate (decided s j t) (nat (module_first s k)) =
          moded_core (desired s (module_first s k)) (corestate s (nat (module_first s k)))"
      using k t by (auto simp: same modules_done_def)
  qed
  show ?thesis
    unfolding modules_done_def using mm cs sw t by (simp add: modules_done_def)
qed

lemma tunealg1_modules_done:
  assumes "range_ok s"
  shows "\<exists>t. tunealg1_modules s = Some t \<and> modules_done s (module_count s) t"
proof -
  have "\<exists>t. for_range 0 (module_count s)
       (\<lambda>k t. tunealg1_module (first_core_idx t + k * CORES_PER_COMPUTE_MODULE) t) s = Some t \<and>
     modules_done s (module_count s) t"
  proof (rule for_range_rule [where I = "modules_done s"])
    show "modules_done s 0 s" by (auto simp: modules_done_def)
    show "0 \<le> module_count s" using assms by (simp add: module_count_def range_ok_def CORES_PER_COMPUTE_MODULE_def pos_imp_zdiv_nonneg_iff)
  next
    fix j t
    assume j: "0 \<le> j" "j < module_count s" and t: "modules_done s j t"
    then have "tunealg1_module (first_core_idx t + j * CORES_PER_COMPUTE_MODULE) t = Some (decided s j t)"
      using tunealg1_module_eq [OF assms j, of t] by (simp add: modules_done_def)
    then show "\<exists>t'. tunealg1_module (first_core_idx t + j * CORES_PER_COMPUTE_MODULE) t = Some t' \<and> modules_done s (j + 1) t'"
      using modules_done_step [OF assms j(1) t] by simp
  qed
  then show ?thesis by (simp add: tunealg1_modules_def module_count_def)
qed

text \<open>
  Claim C12: algorithm 1. For a core range inside the table the loop over the modules always
  returns, and afterwards the mode of every module is the one its cores voted for: aggressive
  iff the cores that benefit outnumber those that do not (idle cores abstain), the last module
  counting only the cores it has. A module whose mode was already right is not touched; when the
  mode changes, the first core of the module gets the registers of that mode and is marked
  dirty; no other core changes.
\<close>

theorem tunealg1_follows_vote:
  assumes "range_ok s"
  shows "\<exists>t. tunealg1_modules s = Some t \<and>
    (\<forall>k. 0 \<le> k \<and> k < module_count s \<longrightarrow>
       module_mode t (nat k) =
         (if (\<Sum>i\<in>{module_first s k ..< min (module_first s k + 4) (last_core_idx s)}. core_benefits s (nat i)) \<ge> 1
          then MODE_AGGRESSIVE else MODE_BOOT_DEFAULT) \<and>
       (module_mode t (nat k) \<noteq> module_mode s (nat k) \<longrightarrow>
          pf_msr (corestate t (nat (module_first s k))) =
            mode_msrs (module_mode t (nat k)) (pf_msr (corestate s (nat (module_first s k)))) \<and>
          pf_msr_dirty (corestate t (nat (module_first s k))) = 1)) \<and>
    (\<forall>c. (\<forall>k. 0 \<le> k \<and> k < module_count s \<and> module_mode t (nat k) \<noteq> module_mode s (nat k) \<longrightarrow>
            int c \<noteq> module_first s k) \<longrightarrow> corestate t c = corestate s c)"
proof -
  obtain t where t: "tunealg1_modules s = Some t" "modules_done s (module_count s) t"
    using tunealg1_modules_done [OF assms] by blast
  have mode: "module_mode t (nat k) = desired s (module_first s k)" if "0 \<le> k" "k < module_count s" for k
    using t(2) that by (simp add: modules_done_def)
  have sw: "switches s k \<longleftrightarrow> module_mode t (nat k) \<noteq> module_mode s (nat k)" if "0 \<le> k" "k < module_count s" for k
    using mode [OF that] by (auto simp: switches_def)
  have d: "desired s (module_first s k) =
      (if (\<Sum>i\<in>{module_first s k ..< min (module_first s k + 4) (last_core_idx s)}. core_benefits s (nat i)) \<ge> 1
       then MODE_AGGRESSIVE else MODE_BOOT_DEFAULT)" for k
    by (simp add: desired_def vote_def BENEFITING_CORES_def CORES_PER_COMPUTE_MODULE_def)
  have changed: "pf_msr (corestate t (nat (module_first s k))) =
            mode_msrs (module_mode t (nat k)) (pf_msr (corestate s (nat (module_first s k)))) \<and>
          pf_msr_dirty (corestate t (nat (module_first s k))) = 1"
    if "0 \<le> k" "k < module_count s" "module_mode t (nat k) \<noteq> module_mode s (nat k)" for k
    using t(2) that sw [OF that(1,2)] mode [OF that(1,2)] by (simp add: modules_done_def moded_core_def)
  have frame: "corestate t c = corestate s c"
    if "\<forall>k. 0 \<le> k \<and> k < module_count s \<and> module_mode t (nat k) \<noteq> module_mode s (nat k) \<longrightarrow> int c \<noteq> module_first s k" for c
  proof -
    have "\<forall>k. 0 \<le> k \<and> k < module_count s \<and> switches s k \<longrightarrow> int c \<noteq> module_first s k"
      using that sw by blast
    then show ?thesis using t(2) unfolding modules_done_def by blast
  qed
  show ?thesis
    using t(1) mode changed frame unfolding d by blast
qed

theorem tunealg1_follows_vote_witness:
  "\<exists>t. tunealg1_modules demo_kprim = Some t \<and> module_mode t 0 = MODE_AGGRESSIVE \<and>
     pf_msr (corestate t 0) MSR_1320_INDEX = 0x008837ea070906c0"
proof -
  have r: "range_ok demo_kprim" "module_count demo_kprim = 1" "module_first demo_kprim 0 = 0"
      "last_core_idx demo_kprim = 4" "module_mode demo_kprim 0 = 2"
    by (simp_all add: range_ok_def module_count_def module_first_def demo_kprim_simps mab_consts const_simps)
  have "{0 ..< 4 :: int} = {0, 1, 2, 3}" by auto
  then have v: "(\<Sum>i\<in>{0 ..< 4 :: int}. core_benefits demo_kprim (nat i)) = 1"
    by (simp add: demo_kprim_simps)
  obtain t where t: "tunealg1_modules demo_kprim = Some t" and k: "\<forall>k. 0 \<le> k \<and> k < module_count demo_kprim \<longrightarrow>
       module_mode t (nat k) =
         (if (\<Sum>i\<in>{module_first demo_kprim k ..< min (module_first demo_kprim k + 4) (last_core_idx demo_kprim)}.
                core_benefits demo_kprim (nat i)) \<ge> 1
          then MODE_AGGRESSIVE else MODE_BOOT_DEFAULT) \<and>
       (module_mode t (nat k) \<noteq> module_mode demo_kprim (nat k) \<longrightarrow>
          pf_msr (corestate t (nat (module_first demo_kprim k))) =
            mode_msrs (module_mode t (nat k)) (pf_msr (corestate demo_kprim (nat (module_first demo_kprim k)))) \<and>
          pf_msr_dirty (corestate t (nat (module_first demo_kprim k))) = 1)"
    using tunealg1_follows_vote [OF r(1)] by blast
  show ?thesis
    using t spec [OF k, of 0] by (simp add: r v) (simp add: mode_msrs_def const_simps)
qed

section \<open>Rates\<close>

text \<open>
  The error code of an unconfigured memory controller never reaches the tuner: it is
  shifted before it is compared, so \<open>kernel_basicalg\<close> returns \<open>-EINVAL\<close> in no state.
\<close>

theorem basicalg_never_reports_ddr_error:
  "map_option fst (kernel_basicalg e now alg s) \<noteq> Some (- EINVAL)"
proof -
  have nz: "drop_bit 20 (w :: u64) \<noteq> - 22" for w
  proof -
    have "unat (drop_bit 20 w) < 2 ^ 44"
      using unsigned_less [where 'a = nat, of w] by (simp add: drop_bit_eq_div unat_div)
    then show ?thesis by auto
  qed
  have dec: "basicalg_decide alg p dt t = Some (r, u) \<Longrightarrow> r \<noteq> - EINVAL" for alg p dt t r and u :: "'a kprim_scheme"
    by (auto simp: basicalg_decide_def split: bind_splits if_splits)
  show ?thesis
    by (auto simp: kernel_basicalg_def Let_def nz dest: dec split: bind_splits if_splits)
qed

lemma to_int_small: "unat w < 2 ^ 31 \<Longrightarrow> to_int w = int (unat w)"
proof -
  assume "unat w < 2 ^ 31"
  then have "int (unat w) < int (2 ^ 31)" by (simp only: of_nat_less_iff)
  then have u: "uint w < 2 ^ 31" "0 \<le> uint w" by simp_all
  then have "uint (ucast w :: u32) = uint w"
    by (simp add: unsigned_ucast_eq take_bit_int_eq_self)
  moreover have "signed_take_bit 31 (uint w) = uint w"
    by (rule signed_take_bit_int_eq_self, rule order_trans [OF _ u(2)]) (use u in simp_all)
  ultimately show ?thesis
    by (simp add: to_int_def sint_uint)
qed

lemma percent_of_part:
  assumes "unat a < 2 ^ 56" and "unat a \<le> unat b" and "b \<noteq> 0"
  shows "\<exists>q. div64 (a * 100) b = Some q \<and> 0 \<le> to_int q \<and> to_int q \<le> 100"
proof -
  have "unat (a * 100) = unat a * 100"
    using assms(1) by (simp add: unat_word_ariths)
  moreover have "unat a * 100 div unat b \<le> unat b * 100 div unat b"
    using assms(2) by (intro div_le_mono) simp
  moreover have "0 < unat b" using assms(3) by (simp add: unat_gt_0)
  ultimately have q: "unat (a * 100 div b) \<le> 100" by (simp add: unat_div)
  then have "to_int (a * 100 div b) = int (unat (a * 100 div b))"
    by (intro to_int_small) simp
  then have "0 \<le> to_int (a * 100 div b) \<and> to_int (a * 100 div b) \<le> 100"
    using q by linarith
  then show ?thesis using assms(3) by (simp add: div64_def)
qed

lemma unat_add_small: "unat a < 2 ^ 62 \<Longrightarrow> unat b < 2 ^ 62 \<Longrightarrow> unat (a + b :: u64) = unat a + unat b"
  by (simp add: unat_word_ariths)

text \<open>
  The rates are percentages. When the counters of a core advanced by less than
  \<open>2^56\<close> each, the per-core computation is defined, and the hit rates of L2 and L3 and the
  core's share of the DRAM traffic lie between 0 and 100: neither the sums nor the products
  wrap, and the divisions cannot fail. A core with a counter at zero gets the rate 0.
\<close>

theorem rates_are_percentages:
  assumes "core_ok i" and "\<forall>j. unat (pmu_delta s (nat i) j) < 2 ^ 56"
    and "unat (pmu_delta s (nat i) PERF_MEM_LOAD_UOPS_RETIRED_DRAM_HIT) \<le> unat hits" and "hits \<noteq> 0"
  shows "\<exists>t. core_rates_step hits i s = Some t \<and>
    0 \<le> l2_hitr t (nat i) \<and> l2_hitr t (nat i) \<le> 100 \<and> 0 \<le> l3_hitr t (nat i) \<and> l3_hitr t (nat i) \<le> 100 \<and>
    0 \<le> core_contr_to_ddr t (nat i) \<and> core_contr_to_ddr t (nat i) \<le> 100"
proof -
  let ?d = "pmu_delta s (nat i)"
  let ?l2 = "?d PERF_MEM_LOAD_UOPS_RETIRED_L2_HIT" and ?l3 = "?d PERF_MEM_LOAD_UOPS_RETIRED_L3_HIT"
    and ?dr = "?d PERF_MEM_LOAD_UOPS_RETIRED_DRAM_HIT"
  have d: "delta_at s i = Some ?d" using assms(1) by (simp add: delta_at_def core_ok_def)
  show ?thesis
  proof (cases "?l2 = 0 \<or> ?l3 = 0 \<or> ?dr = 0")
    case True
    then show ?thesis by (simp add: core_rates_step_def d Let_def)
  next
    case False
    have b: "unat ?l2 < 2 ^ 56" "unat ?l3 < 2 ^ 56" "unat ?dr < 2 ^ 56" using assms(2) by auto
    have s2: "unat (?l3 + ?dr) = unat ?l3 + unat ?dr" by (rule unat_add_small) (use b in simp_all)
    have s3: "unat (?l2 + ?l3 + ?dr) = unat ?l2 + unat ?l3 + unat ?dr"
    proof -
      have "unat (?l2 + ?l3) = unat ?l2 + unat ?l3" by (rule unat_add_small) (use b in simp_all)
      moreover from this have "unat (?l2 + ?l3 + ?dr) = unat (?l2 + ?l3) + unat ?dr"
        by (intro unat_add_small) (use b in simp_all)
      ultimately show ?thesis by simp
    qed
    have nz: "?l2 + ?l3 + ?dr \<noteq> 0" "?l3 + ?dr \<noteq> 0"
      using s2 s3 False by (metis add_is_0 unat_0 unat_eq_0)+
    obtain q1 where q1: "div64 (?l2 * 100) (?l2 + ?l3 + ?dr) = Some q1" "0 \<le> to_int q1" "to_int q1 \<le> 100"
      using percent_of_part [OF b(1) _ nz(1)] s3 by auto
    obtain q2 where q2: "div64 (?l3 * 100) (?l3 + ?dr) = Some q2" "0 \<le> to_int q2" "to_int q2 \<le> 100"
      using percent_of_part [OF b(2) _ nz(2)] s2 by auto
    obtain q3 where q3: "div64 (?dr * 100) hits = Some q3" "0 \<le> to_int q3" "to_int q3 \<le> 100"
      using percent_of_part [OF b(3) assms(3,4)] by auto
    show ?thesis
      using False q1 q2 q3 nz(1) by (simp add: core_rates_step_def d Let_def div64_def [of _ "?l2 + ?l3 + ?dr"])
  qed
qed

theorem rates_are_percentages_witness:
  "\<exists>t. core_rates_step 40 1 (demo_kprim\<lparr>pmu_delta := (\<lambda>_ _. 30)\<rparr>) = Some t \<and>
     0 \<le> l2_hitr t 1 \<and> l2_hitr t 1 \<le> 100"
  using rates_are_percentages [of 1 "demo_kprim\<lparr>pmu_delta := (\<lambda>_ _. 30)\<rparr>" 40]
  by (auto simp: core_ok_def MAX_NUM_CORES_def)

end
