(* ===== verification/Kernel_Api.thy ===== *)
theory Kernel_Api
  imports Kernel_Primitive
begin

text \<open>
  \<open>kernelmod/kernel_api.h\<close> and \<open>kernelmod/kernel_api.c\<close>: the requests that user space
  writes to \<open>/proc/dynamicPrefetch\<close> and the responses it reads back, and the PMU log.

  A request is the byte string that was copied from user space; each member of a request
  structure is read at its offset, and a read past the end of the copied bytes is undefined
  behaviour (\<open>None\<close>), as the handlers do not check the length. A response is the byte string
  that becomes \<open>proc_buffer\<close>. \<open>kenv\<close> is what the kernel and the hardware provide during
  one call: whether the \<open>kmalloc\<close> at each site succeeds (site 0 is the response, 1 the second
  allocation of a handler, 2 the request, 3 the buffer of the module's start; \<open>mask_ok\<close> is the
  CPU mask of \<open>configure_pmu\<close>), what fresh memory contains, the CPU the code runs on, the
  online CPUs, where \<open>smp_call_function_many\<close> runs a function and in which order, the
  performance counters and the clock by CPU (the clock also by the number of the read), what a
  local array of \<open>mab_tuning\<close> contains on entry, and whether copies from and to user space
  and the creation of the proc entry succeed. \<open>heap_live\<close> counts the blocks allocated and
  not freed. Log output is not modelled, the evaluation of its arguments is.
\<close>

record kenv = mmio +
  kmalloc_ok :: "nat \<Rightarrow> nat \<Rightarrow> bool"
  mask_ok :: "int \<Rightarrow> bool"
  fresh_byte :: "nat \<Rightarrow> u8"
  cpu :: nat
  online_cpus :: "nat list"
  smp_run :: "nat \<Rightarrow> (nat \<Rightarrow> bool) \<Rightarrow> nat list"
  pmc :: "nat \<Rightarrow> nat \<Rightarrow> u64"
  clock :: "nat \<Rightarrow> nat \<Rightarrow> u64"
  stack_junk :: "nat \<Rightarrow> u32 arr"
  copy_ok :: "nat \<Rightarrow> bool"
  proc_create_ok :: bool

record kstate = kprim +
  keep_running :: bool
  timer_active :: bool
  work_pending :: bool
  proc_entry :: bool
  kt_period :: u64
  proc_buffer :: "bytes option"
  proc_buffer_size :: nat
  ddr_bar_address :: u64
  enabled_cpus :: "nat \<Rightarrow> bool"
  pmu_log_buffer :: "bytes option"
  pmu_log_buffer_size :: nat
  pmu_log_data_size :: nat
  pmu_logging_active :: bool
  heap_live :: int

definition DPF_API_VERSION :: u32 where [const_simps]: "DPF_API_VERSION = 1"
definition DPF_MSG_INIT :: u32 where [const_simps]: "DPF_MSG_INIT = 0"
definition DPF_MSG_CORE_RANGE :: u32 where [const_simps]: "DPF_MSG_CORE_RANGE = 1"
definition DPF_MSG_DDRBW_SET :: u32 where [const_simps]: "DPF_MSG_DDRBW_SET = 2"
definition DPF_MSG_CORE_WEIGHT :: u32 where [const_simps]: "DPF_MSG_CORE_WEIGHT = 3"
definition DPF_MSG_TUNING :: u32 where [const_simps]: "DPF_MSG_TUNING = 4"
definition DPF_MSG_MSR_READ :: u32 where [const_simps]: "DPF_MSG_MSR_READ = 5"
definition DPF_MSG_PMU_READ :: u32 where [const_simps]: "DPF_MSG_PMU_READ = 6"
definition DPF_MSG_DDR_CONFIG :: u32 where [const_simps]: "DPF_MSG_DDR_CONFIG = 7"
definition DPF_MSG_DDR_BW_READ :: u32 where [const_simps]: "DPF_MSG_DDR_BW_READ = 8"
definition DPF_MSG_PMU_LOG_CONTROL :: u32 where [const_simps]: "DPF_MSG_PMU_LOG_CONTROL = 9"
definition DPF_MSG_PMU_LOG_STOP :: u32 where [const_simps]: "DPF_MSG_PMU_LOG_STOP = 10"
definition DPF_MSG_PMU_LOG_READ :: u32 where [const_simps]: "DPF_MSG_PMU_LOG_READ = 11"
definition MAX_MSG_SIZE :: nat where [const_simps]: "MAX_MSG_SIZE = 1024"
definition MAX_AGGR :: u32 where [const_simps]: "MAX_AGGR = 100"
definition LOG_PERIOD_NS :: u64 where [const_simps]: "LOG_PERIOD_NS = 1000000000"
definition PMU_ENTRY_SIZE_BYTES :: nat where [const_simps]: "PMU_ENTRY_SIZE_BYTES = 76"

section \<open>Allocation and the response buffer\<close>

definition header :: "u32 \<Rightarrow> nat \<Rightarrow> bytes" where
  "header type n = le32 type @ le32 (word_of_nat n)"

definition kmalloced :: "kstate \<Rightarrow> kstate" where
  "kmalloced s = s\<lparr>heap_live := heap_live s + 1\<rparr>"

definition kfreed :: "kstate \<Rightarrow> kstate" where
  "kfreed s = s\<lparr>heap_live := heap_live s - 1\<rparr>"

definition kfree_proc_buffer :: "kstate \<Rightarrow> kstate" where
  "kfree_proc_buffer s = (if proc_buffer s = None then s else kfreed s)"

text \<open>\<open>kfree(proc_buffer); proc_buffer = (char *)resp; proc_buffer_size = ...\<close>\<close>

definition install_resp :: "bytes \<Rightarrow> kstate \<Rightarrow> kstate" where
  "install_resp resp s =
     (kfree_proc_buffer s)\<lparr>proc_buffer := Some resp, proc_buffer_size := length resp\<rparr>"

section \<open>PMU configuration\<close>

definition PMU_EVENT_WRITES :: "(nat \<times> u64) list" where
  "PMU_EVENT_WRITES =
     [(0x186, 0x00000000004381d0), (0x187, 0x0000000000430224), (0x188, 0x00000000004304d1),
      (0x189, 0x00000000004380d1), (0x18A, 0x00000000004300f4), (0x18B, 0x00000000004300c0),
      (0x18C, 0x00000000004300c2), (0x18D, 0x0000000000430124), (0x38D, 0), (0x38F, 0xFF)]"

definition configure_pmu_on_core :: "nat \<Rightarrow> kstate \<Rightarrow> kstate" where
  "configure_pmu_on_core c s = fold (\<lambda>(a, v). wrmsr64 c a v) PMU_EVENT_WRITES s"

definition configure_pmu :: "kenv \<Rightarrow> int \<Rightarrow> kstate \<Rightarrow> int \<times> kstate" where
  "configure_pmu e core_id s =
     (if \<not> mask_ok e core_id then (- ENOMEM, s)
      else (0, fold configure_pmu_on_core (smp_run e (cpu e) (\<lambda>c. int c = core_id)) s))"

section \<open>Request handlers\<close>

definition api_init :: "kenv \<Rightarrow> kstate \<Rightarrow> (int \<times> kstate) option" where
  "api_init e s =
     (if \<not> kmalloc_ok e 0 12 then Some (- ENOMEM, s)
      else Some (0, install_resp (header DPF_MSG_INIT 12 @ le32 DPF_API_VERSION) (kmalloced s)))"

definition core_range_step :: "kenv \<Rightarrow> u32 \<Rightarrow> u32 \<Rightarrow> int \<Rightarrow> kstate \<Rightarrow> kstate option" where
  "core_range_step e core_start core_end core_id s =
     do { let disabled = (core_id < uint core_start \<or> core_id > uint core_end);
          s \<leftarrow> upd_core core_id (\<lambda>c. c\<lparr>core_disabled := of_bool disabled\<rparr>) s;
          if disabled then Some s
          else if nat core_id \<in> set (online_cpus e)
          then let s = snd (configure_pmu e core_id s)
               in Some (s\<lparr>enabled_cpus := (enabled_cpus s)(nat core_id := True)\<rparr>)
          else upd_core core_id (\<lambda>c. c\<lparr>core_disabled := 1\<rparr>) s }"

definition api_core_range :: "kenv \<Rightarrow> bytes \<Rightarrow> kstate \<Rightarrow> (int \<times> kstate) option" where
  "api_core_range e req s =
     do { core_start \<leftarrow> rd_u32 req 8;
          core_end \<leftarrow> rd_u32 req 12;
          if uint core_end \<ge> MAX_NUM_CORES then Some (- EINVAL, s)
          else if core_start > core_end then Some (- EINVAL, s)
          else if uint (core_end - core_start + 1) > MAX_NUM_CORES then Some (- EINVAL, s)
          else if \<not> kmalloc_ok e 0 20 then Some (- ENOMEM, s)
          else do { let s = kmalloced s;
                    let s = s\<lparr>sys_first_core := sint core_start,
                              sys_active_cores := sint (core_end + 1 - core_start),
                              enabled_cpus := (\<lambda>_. False)\<rparr>;
                    s \<leftarrow> for_range 0 MAX_NUM_CORES (core_range_step e core_start core_end) s;
                    Some (0, install_resp (header DPF_MSG_CORE_RANGE 20 @ le32 core_start
                               @ le32 core_end @ le32 (core_end - core_start + 1)) s) } }"

definition api_core_weight :: "kenv \<Rightarrow> bytes \<Rightarrow> kstate \<Rightarrow> (int \<times> kstate) option" where
  "api_core_weight e req s =
     do { count \<leftarrow> rd_u32 req 8;
          let resp_size = 12 + unat count * 4;
          if \<not> kmalloc_ok e 0 resp_size then Some (- ENOMEM, s)
          else do { weights \<leftarrow> rd_bytes req 12 (unat count * 4);
                    Some (0, install_resp (header DPF_MSG_CORE_WEIGHT resp_size @ le32 count @ weights)
                               (kmalloced s)) } }"

definition load_leaders :: "kenv \<Rightarrow> kstate \<Rightarrow> kstate option" where
  "load_leaders e s =
     foldr (\<lambda>c k s. do { cs \<leftarrow> core_at s (int c);
                         s \<leftarrow> (if core_disabled cs = 0 \<and> core_in_module s (int c) = 0
                               then msr_load (cpu e) (int c) s else Some s);
                         k s })
       (online_cpus e) Some s"

definition api_tuning :: "kenv \<Rightarrow> bytes \<Rightarrow> kstate \<Rightarrow> (int \<times> kstate) option" where
  "api_tuning e req s =
     (if \<not> kmalloc_ok e 0 20 then Some (- ENOMEM, s)
      else do { let s = kmalloced s;
                enable \<leftarrow> rd_u32 req 8;
                ag \<leftarrow> rd_u32 req 16;
                tunealg \<leftarrow> rd_u32 req 12;
                let ag = (if ag > MAX_AGGR then MAX_AGGR else ag);
                let s = s\<lparr>tune_alg := sint tunealg, aggr := sint (ag div 10)\<rparr>;
                let resp = header DPF_MSG_TUNING 20 @ le32 enable
                           @ le32 (word_of_int (tune_alg s)) @ le32 (word_of_int (aggr s));
                s \<leftarrow> (if enable = 1
                      then do { s \<leftarrow> load_leaders e s;
                                Some (s\<lparr>keep_running := True, timer_active := True\<rparr>) }
                      else Some (s\<lparr>keep_running := False, timer_active := False\<rparr>));
                Some (0, install_resp resp s) })"

definition api_ddrbw_set :: "kenv \<Rightarrow> bytes \<Rightarrow> kstate \<Rightarrow> (int \<times> kstate) option" where
  "api_ddrbw_set e req s =
     (if \<not> kmalloc_ok e 0 12 then Some (- ENOMEM, s)
      else do { set_value \<leftarrow> rd_u32 req 8;
                let s = (kmalloced s)\<lparr>ddr_bw_target := sint set_value\<rparr>;
                Some (0, install_resp (header DPF_MSG_DDRBW_SET 12 @ le32 set_value) s) })"

text \<open>The test of both core readers: a core number below the limit and an enabled core.\<close>

definition core_readable :: "u32 \<Rightarrow> kstate \<Rightarrow> bool" where
  "core_readable core_id s \<longleftrightarrow>
     uint core_id < MAX_NUM_CORES \<and> core_disabled (corestate s (unat core_id)) = 0"

definition api_msr_read :: "kenv \<Rightarrow> bytes \<Rightarrow> kstate \<Rightarrow> (int \<times> kstate) option" where
  "api_msr_read e req s =
     do { core_id \<leftarrow> rd_u32 req 8;
          if \<not> core_readable core_id s then Some (- EINVAL, s)
          else if \<not> kmalloc_ok e 0 64 then Some (- ENOMEM, s)
          else do { let s = kmalloced s;
                    s \<leftarrow> (if pf_msr (corestate s (unat core_id)) MSR_1320_INDEX = 0
                          then msr_load (cpu e) (uint core_id) s else Some s);
                    Some (0, install_resp (header DPF_MSG_MSR_READ 64 @
                               concat (map (\<lambda>i. le64 (pf_msr (corestate s (unat core_id)) i)) [0..<NR_OF_MSR])) s) } }"

definition api_pmu_read :: "kenv \<Rightarrow> bytes \<Rightarrow> kstate \<Rightarrow> (int \<times> kstate) option" where
  "api_pmu_read e req s =
     do { core_id \<leftarrow> rd_u32 req 8;
          if \<not> core_readable core_id s then Some (- EINVAL, s)
          else if \<not> kmalloc_ok e 0 72 then Some (- ENOMEM, s)
          else let s = snd (pmu_update (pmc e) (cpu e) (uint core_id) (kmalloced s))
               in Some (0, install_resp (header DPF_MSG_PMU_READ 72 @
                          concat (map (\<lambda>i. le64 (pmu_raw (corestate s (unat core_id)) i)) [0..<K_PMU_COUNTERS])) s) }"

definition unmap_all :: "kstate \<Rightarrow> kstate option" where
  "unmap_all s =
     for_range 0 MAX_NUM_DDR_CONTROLLERS
       (\<lambda>i s. do { p \<leftarrow> mmap_at s i;
                   if p \<noteq> 0 then set_mmap i 0 (s\<lparr>io_live := io_live s - 1\<rparr>) else Some s }) s"

definition api_ddr_config :: "kenv \<Rightarrow> bytes \<Rightarrow> kstate \<Rightarrow> (int \<times> kstate) option" where
  "api_ddr_config e req s =
     do { bar \<leftarrow> rd_u64 req 8;
          cpu_type \<leftarrow> rd_u32 req 16;
          num \<leftarrow> rd_u32 req 20;
          if num = 0 \<or> uint num > MAX_NUM_DDR_CONTROLLERS then Some (- EINVAL, s)
          else if \<not> kmalloc_ok e 0 24 then Some (- ENOMEM, s)
          else do { s \<leftarrow> unmap_all (kmalloced s);
                    let s = s\<lparr>ddr_bar_address := bar, ddr_cpu_type := cpu_type, num_ddr_controllers := num\<rparr>;
                    if cpu_type \<noteq> word_of_int DDR_CLIENT \<and> cpu_type \<noteq> word_of_int DDR_GRR_SRF
                    then Some (- EINVAL, kfreed s)
                    else do { (ret, s) \<leftarrow>
                                (if cpu_type = word_of_int DDR_CLIENT
                                 then kernel_pmu_ddr_init_client (mmio.truncate e) bar s
                                 else kernel_pmu_ddr_init_grr_srf (mmio.truncate e) bar s);
                              if ret < 0 then Some (- EINVAL, kfreed s)
                              else Some (0, install_resp (header DPF_MSG_DDR_CONFIG 24 @ le64 bar
                                     @ le32 cpu_type @ map (fresh_byte e) [20..<24]) s) } } }"

definition api_ddr_bw_read :: "kenv \<Rightarrow> kstate \<Rightarrow> (int \<times> kstate) option" where
  "api_ddr_bw_read e s =
     (if \<not> kmalloc_ok e 0 24 then Some (- ENOMEM, s)
      else do { (_, read_bw, write_bw, s) \<leftarrow> read_ddr_counters (mmio.truncate e) (kmalloced s);
                Some (0, install_resp (header DPF_MSG_DDR_BW_READ 24 @ le64 read_bw @ le64 write_bw) s) })"


section \<open>PMU log\<close>

text \<open>\<open>memcpy(buf + off, data, n)\<close>: undefined when the bytes do not fit in the block.\<close>

definition blit :: "nat \<Rightarrow> bytes \<Rightarrow> bytes \<Rightarrow> bytes option" where
  "blit off data buf =
     (if off + length data \<le> length buf
      then Some (take off buf @ data @ drop (off + length data) buf) else None)"

definition kfree_log_buffer :: "kstate \<Rightarrow> kstate" where
  "kfree_log_buffer s =
     (if pmu_log_buffer s = None then s else (kfreed s)\<lparr>pmu_log_buffer := None\<rparr>)"

text \<open>The first part of \<open>api_pmu_log_control\<close>: replace the buffer. The result is the error
  code of the early returns.\<close>

definition log_alloc :: "kenv \<Rightarrow> nat \<Rightarrow> u32 \<Rightarrow> kstate \<Rightarrow> int \<times> kstate" where
  "log_alloc e requested_buffer_size mode s =
     (if pmu_log_buffer s = None \<or> mode = 0
      then let s = kfree_log_buffer s
           in if requested_buffer_size > 0
              then if \<not> kmalloc_ok e 1 requested_buffer_size then (- ENOMEM, s)
                   else (0, (kmalloced s)\<lparr>pmu_log_buffer := Some (replicate requested_buffer_size 0),
                               pmu_log_buffer_size := requested_buffer_size, pmu_log_data_size := 0\<rparr>)
              else (- EINVAL, s)
      else if mode = 0 \<and> pmu_log_buffer s \<noteq> None then (0, s\<lparr>pmu_log_data_size := 0\<rparr>)
      else (0, s))"

definition reset_enabled_cores :: "kenv \<Rightarrow> kstate \<Rightarrow> kstate option" where
  "reset_enabled_cores e s =
     for_range 0 MAX_NUM_CORES
       (\<lambda>i s. do { c \<leftarrow> core_at s i;
                   if core_disabled c = 0
                   then do { s \<leftarrow> upd_core i (\<lambda>c. c\<lparr>pmu_raw := (\<lambda>j. if j < K_PMU_COUNTERS then 0 else pmu_raw c j)\<rparr>) s;
                             Some (snd (configure_pmu e i s)) }
                   else Some s }) s"

definition api_pmu_log_control :: "kenv \<Rightarrow> bytes \<Rightarrow> kstate \<Rightarrow> (int \<times> kstate) option" where
  "api_pmu_log_control e req s =
     do { buffer_size \<leftarrow> rd_u32 req 8;
          mode \<leftarrow> rd_u32 req 12;
          if \<not> kmalloc_ok e 0 20 then Some (- ENOMEM, s)
          else let s = kmalloced s
               in if mode > 1 then Some (- EINVAL, kfreed s)
                  else let (ret, s) = log_alloc e (unat buffer_size) mode s
                       in if ret < 0 then Some (ret, kfreed s)
                          else do { s \<leftarrow> (if mode = 0 \<or> \<not> pmu_logging_active s
                                          then reset_enabled_cores e s else Some s);
                                    let s = (if \<not> keep_running s
                                             then s\<lparr>keep_running := True, kt_period := LOG_PERIOD_NS, timer_active := True\<rparr>
                                             else s);
                                    let s = s\<lparr>pmu_logging_active := True\<rparr>;
                                    Some (0, install_resp (header DPF_MSG_PMU_LOG_CONTROL 20
                                       @ le32 (word_of_nat (pmu_log_buffer_size s)) @ le32 mode @ le32 0) s) } }"

definition configure_enabled_cores :: "kenv \<Rightarrow> kstate \<Rightarrow> kstate option" where
  "configure_enabled_cores e s =
     for_range 0 MAX_NUM_CORES
       (\<lambda>i s. do { c \<leftarrow> core_at s i;
                   if core_disabled c = 0 then Some (snd (configure_pmu e i s)) else Some s }) s"

definition api_pmu_log_stop :: "kenv \<Rightarrow> kstate \<Rightarrow> (int \<times> kstate) option" where
  "api_pmu_log_stop e s =
     (if \<not> kmalloc_ok e 0 12 then Some (- ENOMEM, s)
      else let s = kmalloced s
           in if \<not> pmu_logging_active s
              then let s = kfreed s
                   in if \<not> kmalloc_ok e 1 12 then Some (- ENOMEM, s)
                      else Some (- EINVAL, install_resp (header DPF_MSG_PMU_LOG_STOP 12
                                   @ le32 (word_of_int (- EINVAL))) (kmalloced s))
              else do { let s = s\<lparr>pmu_logging_active := False, keep_running := False, timer_active := False\<rparr>;
                        s \<leftarrow> configure_enabled_cores e s;
                        Some (0, install_resp (header DPF_MSG_PMU_LOG_STOP 12 @ le32 0) s) })"

text \<open>The log line after the copy reads \<open>core_id\<close> and \<open>timestamp\<close> of the first entry, 12
  bytes, in the block just filled.\<close>

definition api_pmu_log_read :: "kenv \<Rightarrow> bytes \<Rightarrow> kstate \<Rightarrow> (int \<times> kstate) option" where
  "api_pmu_log_read e req s =
     do { max_bytes \<leftarrow> rd_u32 req 8;
          case pmu_log_buffer s of
            None \<Rightarrow> Some (- ENODATA, s)
          | Some buf \<Rightarrow>
              if pmu_log_buffer_size s = 0 then Some (- ENODATA, s)
              else if pmu_log_data_size s = 0
              then if \<not> kmalloc_ok e 0 16 then Some (- ENOMEM, s)
                   else Some (0, install_resp (header DPF_MSG_PMU_LOG_READ 16 @ le64 0) (kmalloced s))
              else let bytes_to_read = (if max_bytes = 0 then pmu_log_data_size s
                                        else min (unat max_bytes) (pmu_log_data_size s));
                       resp_size = 16 + bytes_to_read
                   in if \<not> kmalloc_ok e 0 resp_size then Some (- ENOMEM, s)
                      else do { data \<leftarrow> rd_bytes buf 0 bytes_to_read;
                                _ \<leftarrow> rd_u32 data 8;
                                _ \<leftarrow> rd_u64 data 0;
                                Some (0, install_resp (header DPF_MSG_PMU_LOG_READ resp_size
                                           @ le64 (word_of_nat bytes_to_read) @ data) (kmalloced s)) } }"

definition api_pmu_log_append_data :: "bytes \<Rightarrow> kstate \<Rightarrow> (int \<times> kstate) option" where
  "api_pmu_log_append_data data s =
     (if \<not> pmu_logging_active s then Some (- EINVAL, s)
      else case pmu_log_buffer s of
             None \<Rightarrow> Some (- EINVAL, s)
           | Some buf \<Rightarrow>
               if pmu_log_buffer_size s = 0 then Some (- EINVAL, s)
               else if length data = 0 then Some (- EINVAL, s)
               else if pmu_log_data_size s + length data > pmu_log_buffer_size s then Some (- ENOSPC, s)
               else do { buf' \<leftarrow> blit (pmu_log_data_size s) data buf;
                         Some (0, s\<lparr>pmu_log_buffer := Some buf',
                                    pmu_log_data_size := pmu_log_data_size s + length data\<rparr>) })"

section \<open>What every request handler promises\<close>

text \<open>
  The resources a request can touch: the response buffer, the PMU log, the register windows and
  the allocated blocks. \<open>owned\<close> counts the blocks the module holds through its two
  pointers, \<open>heap_extra\<close> the allocated blocks beyond those.
\<close>

definition owned :: "kstate \<Rightarrow> int" where
  "owned s = of_bool (proc_buffer s \<noteq> None) + of_bool (pmu_log_buffer s \<noteq> None)"

definition heap_extra :: "kstate \<Rightarrow> int" where
  "heap_extra s = heap_live s - owned s"

definition buffer_ok :: "kstate \<Rightarrow> bool" where
  "buffer_ok s \<longleftrightarrow> (proc_buffer s = None \<longrightarrow> proc_buffer_size s = 0) \<and>
     (\<forall>b. proc_buffer s = Some b \<longrightarrow> proc_buffer_size s \<le> length b)"

definition log_ok :: "kstate \<Rightarrow> bool" where
  "log_ok s \<longleftrightarrow> (\<forall>b. pmu_log_buffer s = Some b \<longrightarrow>
     length b = pmu_log_buffer_size s \<and> pmu_log_data_size s \<le> pmu_log_buffer_size s)"

definition ddr_ok :: "kstate \<Rightarrow> bool" where
  "ddr_ok s \<longleftrightarrow> io_balanced s \<and> num_ctrl s \<le> MAX_NUM_DDR_CONTROLLERS"

definition res_ok :: "kstate \<Rightarrow> bool" where
  "res_ok s \<longleftrightarrow> buffer_ok s \<and> log_ok s \<and> ddr_ok s"

definition response_ok :: "u32 \<Rightarrow> kstate \<Rightarrow> bool" where
  "response_ok kind s \<longleftrightarrow> (\<exists>b. proc_buffer s = Some b \<and> proc_buffer_size s = length b \<and>
     rd_u32 b 0 = Some kind \<and> rd_u32 b 4 = Some (word_of_nat (length b)))"

text \<open>
  The contract between the proc file and the handlers: a handler leaks no block and frees none
  twice, keeps the resources consistent, and when it succeeds it has installed a response whose
  header carries the type of the request and the length of the response.
\<close>

locale request_handler =
  fixes handle :: "kenv \<Rightarrow> bytes \<Rightarrow> kstate \<Rightarrow> (int \<times> kstate) option"
    and kind :: u32
  assumes heap_kept: "handle e req s = Some (ret, t) \<Longrightarrow> res_ok s \<Longrightarrow> heap_extra t = heap_extra s"
    and res_kept: "handle e req s = Some (ret, t) \<Longrightarrow> res_ok s \<Longrightarrow> res_ok t"
    and answers: "handle e req s = Some (ret, t) \<Longrightarrow> res_ok s \<Longrightarrow> 0 \<le> ret \<Longrightarrow> response_ok kind t"
begin

text \<open>No block is leaked in a state that owned exactly its blocks.\<close>

lemma no_leak:
  "handle e req s = Some (ret, t) \<Longrightarrow> res_ok s \<Longrightarrow> heap_live s = owned s + k \<Longrightarrow> heap_live t = owned t + k"
  using heap_kept [of e req s ret t] by (simp add: heap_extra_def)

lemma kept:
  assumes "handle e req s = Some (ret, t)" and "res_ok s"
  shows "res_ok t \<and> heap_extra t = heap_extra s \<and> (0 \<le> ret \<longrightarrow> response_ok kind t)"
  using assms res_kept heap_kept answers by blast

end

text \<open>What the resource predicates depend on.\<close>

definition resources ::
    "kstate \<Rightarrow> bytes option \<times> nat \<times> int \<times> bytes option \<times> nat \<times> nat \<times> ddr_s \<times> int \<times> u32" where
  "resources s = (proc_buffer s, proc_buffer_size s, heap_live s, pmu_log_buffer s, pmu_log_buffer_size s,
     pmu_log_data_size s, ddr s, io_live s, num_ddr_controllers s)"

lemma resources_cong:
  assumes "resources t = resources s"
  shows "heap_extra t = heap_extra s" "res_ok t = res_ok s" "response_ok kind t = response_ok kind s"
    "buffer_ok t = buffer_ok s" "log_ok t = log_ok s" "ddr_ok t = ddr_ok s"
  using assms
  by (simp_all add: resources_def heap_extra_def owned_def res_ok_def buffer_ok_def log_ok_def ddr_ok_def
      io_balanced_def windows_def num_ctrl_def response_ok_def)

lemma kmalloced_frame [simp, frame_simps]:
  "proc_buffer (kmalloced s) = proc_buffer s" "pmu_log_buffer (kmalloced s) = pmu_log_buffer s"
  "res_ok (kmalloced s) = res_ok s" "heap_extra (kmalloced s) = heap_extra s + 1"
  by (simp_all add: kmalloced_def res_ok_def buffer_ok_def log_ok_def ddr_ok_def io_balanced_def windows_def
      num_ctrl_def heap_extra_def owned_def)

lemma kfreed_frame [simp, frame_simps]:
  "proc_buffer (kfreed s) = proc_buffer s" "pmu_log_buffer (kfreed s) = pmu_log_buffer s"
  "res_ok (kfreed s) = res_ok s" "heap_extra (kfreed s) = heap_extra s - 1"
  by (simp_all add: kfreed_def res_ok_def buffer_ok_def log_ok_def ddr_ok_def io_balanced_def windows_def
      num_ctrl_def heap_extra_def owned_def)

lemma length_header [simp]: "length (header kind n) = 8"
  by (simp add: header_def)

lemma heap_extra_install [simp]: "heap_extra (install_resp resp s) = heap_extra s - 1"
  by (simp add: install_resp_def kfree_proc_buffer_def kfreed_def heap_extra_def owned_def)

lemma res_ok_install: "res_ok s \<Longrightarrow> res_ok (install_resp resp s)"
  by (simp add: install_resp_def kfree_proc_buffer_def kfreed_def res_ok_def buffer_ok_def log_ok_def ddr_ok_def
      io_balanced_def windows_def num_ctrl_def)

lemma response_ok_install: "n = length body + 8 \<Longrightarrow> response_ok kind (install_resp (header kind n @ body) s)"
  by (simp add: install_resp_def response_ok_def header_def)

lemmas handler_simps = res_ok_install response_ok_install

lemma resources_wrmsr [simp]: "resources (wrmsr c a l h s) = resources s"
  by (simp add: resources_def wrmsr_def)

lemma resources_configure_core [simp]: "resources (configure_pmu_on_core c s) = resources s"
  by (simp add: configure_pmu_on_core_def PMU_EVENT_WRITES_def wrmsr64_def)

lemma resources_fold: "(\<And>x s. resources (f x s) = resources s) \<Longrightarrow> resources (fold f xs s) = resources s"
  by (induction xs arbitrary: s) simp_all

lemma resources_configure_pmu [simp]: "resources (snd (configure_pmu e c s)) = resources s"
  by (simp add: configure_pmu_def resources_fold)

lemma resources_upd_core: "upd_core i f s = Some t \<Longrightarrow> resources t = resources s"
  by (auto simp: upd_core_eq_Some resources_def)

lemma resources_msr_load: "msr_load c i s = Some t \<Longrightarrow> resources t = resources s"
  by (auto simp: msr_load_def resources_upd_core)

lemma resources_pmu_update [simp]: "resources (snd (pmu_update p c i s)) = resources s"
  by (simp add: pmu_update_def resources_def)

section \<open>The handlers satisfy the contract\<close>

text \<open>The common shape of a success: the response is installed over a state whose resources
  are those of \<open>u\<close>, in which the response's block is already allocated.\<close>

definition installed_at :: "u32 \<Rightarrow> kstate \<Rightarrow> kstate \<Rightarrow> bool" where
  "installed_at kind u t \<longleftrightarrow> (\<exists>n body v. resources v = resources u \<and> n = length body + 8 \<and>
     t = install_resp (header kind n @ body) v)"

definition installed :: "u32 \<Rightarrow> kstate \<Rightarrow> kstate \<Rightarrow> bool" where
  "installed kind s t \<longleftrightarrow> installed_at kind (kmalloced s) t"

lemma installed_atI:
  "resources v = resources u \<Longrightarrow> n = length body + 8 \<Longrightarrow>
   installed_at kind u (install_resp (header kind n @ body) v)"
  unfolding installed_at_def by blast

lemma installedI:
  "resources v = resources (kmalloced s) \<Longrightarrow> n = length body + 8 \<Longrightarrow>
   installed kind s (install_resp (header kind n @ body) v)"
  unfolding installed_def by (rule installed_atI)

lemma installed_at_props:
  assumes "installed_at kind u t"
  shows "heap_extra t = heap_extra u - 1" "res_ok u \<Longrightarrow> res_ok t" "response_ok kind t"
proof -
  obtain n body v where v: "resources v = resources u" "n = length body + 8"
      "t = install_resp (header kind n @ body) v"
    using assms by (auto simp: installed_at_def)
  show "heap_extra t = heap_extra u - 1" using resources_cong(1) [OF v(1)] by (simp add: v(3))
  show "res_ok t" if "res_ok u" using resources_cong(2) [OF v(1)] that by (simp add: v(3) res_ok_install)
  show "response_ok kind t" unfolding v(3) by (rule response_ok_install) (rule v(2))
qed

lemma installed_props:
  assumes "installed kind s t"
  shows "heap_extra t = heap_extra s" "res_ok s \<Longrightarrow> res_ok t" "response_ok kind t"
  using installed_at_props [OF assms [unfolded installed_def]] by simp_all

lemma simple_handler:
  assumes "\<And>e req s ret t. handle e req s = Some (ret, t) \<Longrightarrow>
    ret < 0 \<and> resources t = resources s \<or> ret = 0 \<and> installed kind s t"
  shows "request_handler handle kind"
proof
  fix e req s ret t
  assume "handle e req s = Some (ret, t)"
  then have *: "ret < 0 \<and> resources t = resources s \<or> ret = 0 \<and> installed kind s t" by (rule assms)
  show "res_ok s \<Longrightarrow> heap_extra t = heap_extra s" using * installed_props(1) resources_cong(1) by blast
  show "res_ok s \<Longrightarrow> res_ok t" using * installed_props(2) resources_cong(2) by blast
  show "res_ok s \<Longrightarrow> 0 \<le> ret \<Longrightarrow> response_ok kind t" using * installed_props(3) by auto
qed

lemma rd_bytes_length: "rd_bytes bs off n = Some xs \<Longrightarrow> length xs = n"
  by (auto simp: rd_bytes_def split: if_splits)

lemma length_le64s [simp]: "length (concat (map (\<lambda>i. le64 (f i)) xs)) = 8 * length xs"
  by (induction xs) simp_all

lemma resources_updates [simp]:
  "resources (s\<lparr>ddr_bw_target := v1\<rparr>) = resources s" "resources (s\<lparr>enabled_cpus := v2\<rparr>) = resources s"
  "resources (s\<lparr>sys_first_core := v3\<rparr>) = resources s" "resources (s\<lparr>sys_active_cores := v4\<rparr>) = resources s"
  "resources (s\<lparr>keep_running := v5\<rparr>) = resources s" "resources (s\<lparr>timer_active := v6\<rparr>) = resources s"
  "resources (s\<lparr>tune_alg := v7\<rparr>) = resources s" "resources (s\<lparr>aggr := v8\<rparr>) = resources s"
  "resources (s\<lparr>kt_period := v9\<rparr>) = resources s" "resources (s\<lparr>pmu_logging_active := v10\<rparr>) = resources s"
  "resources (s\<lparr>ddr_bar_address := v11\<rparr>) = resources s" "resources (s\<lparr>work_pending := v12\<rparr>) = resources s"
  "resources (s\<lparr>corestate := v13\<rparr>) = resources s" "resources (s\<lparr>hwreg := v14\<rparr>) = resources s"
  "resources (s\<lparr>mab_cores := v15\<rparr>) = resources s" "resources (s\<lparr>mab_modules := v16\<rparr>) = resources s"
  "resources (s\<lparr>proc_entry := v17\<rparr>) = resources s" "resources (s\<lparr>mab_arm_configs := v18\<rparr>) = resources s"
  by (simp_all add: resources_def)

lemma api_init_shape:
  "api_init e s = Some (ret, t) \<Longrightarrow> ret < 0 \<and> resources t = resources s \<or> ret = 0 \<and> installed DPF_MSG_INIT s t"
  by (auto simp: api_init_def intro!: installedI split: if_splits)

interpretation h_init: request_handler "\<lambda>e req s. api_init e s" DPF_MSG_INIT
  by (rule simple_handler) (rule api_init_shape)

lemma api_core_weight_shape:
  "api_core_weight e req s = Some (ret, t) \<Longrightarrow>
   ret < 0 \<and> resources t = resources s \<or> ret = 0 \<and> installed DPF_MSG_CORE_WEIGHT s t"
  by (auto simp: api_core_weight_def Let_def intro!: installedI dest: rd_bytes_length split: if_splits bind_splits)

interpretation h_weight: request_handler api_core_weight DPF_MSG_CORE_WEIGHT
  by (rule simple_handler) (rule api_core_weight_shape)

lemma api_ddrbw_set_shape:
  "api_ddrbw_set e req s = Some (ret, t) \<Longrightarrow>
   ret < 0 \<and> resources t = resources s \<or> ret = 0 \<and> installed DPF_MSG_DDRBW_SET s t"
  by (auto simp: api_ddrbw_set_def Let_def intro!: installedI split: if_splits bind_splits)

interpretation h_ddrbw: request_handler api_ddrbw_set DPF_MSG_DDRBW_SET
  by (rule simple_handler) (rule api_ddrbw_set_shape)

lemma core_range_loop_resources:
  assumes "for_range 0 MAX_NUM_CORES (core_range_step e a b) s = Some t"
  shows "resources t = resources s"
proof (rule for_range_invariant [OF assms, of "\<lambda>u. resources u = resources s"])
  fix j u u'
  assume u: "resources u = resources s" "core_range_step e a b j u = Some u'"
  then show "resources u' = resources s"
    by (auto simp: core_range_step_def Let_def split: bind_splits if_splits dest!: resources_upd_core)
qed simp

lemma api_core_range_shape:
  "api_core_range e req s = Some (ret, t) \<Longrightarrow>
   ret < 0 \<and> resources t = resources s \<or> ret = 0 \<and> installed DPF_MSG_CORE_RANGE s t"
  by (auto simp: api_core_range_def Let_def intro!: installedI split: if_splits bind_splits
      dest!: core_range_loop_resources)

interpretation h_range: request_handler api_core_range DPF_MSG_CORE_RANGE
  by (rule simple_handler) (rule api_core_range_shape)

lemma load_leaders_resources: "load_leaders e s = Some t \<Longrightarrow> resources t = resources s"
proof -
  have "foldr (\<lambda>c k s. do { cs \<leftarrow> core_at s (int c);
                         s \<leftarrow> (if core_disabled cs = 0 \<and> core_in_module s (int c) = 0
                               then msr_load (cpu e) (int c) s else Some s);
                         k s }) xs Some s = Some t \<Longrightarrow> resources t = resources s" for xs s
    by (induction xs arbitrary: s)
       (auto split: bind_splits if_splits dest!: resources_msr_load)
  then show "load_leaders e s = Some t \<Longrightarrow> ?thesis" by (simp add: load_leaders_def)
qed

lemma api_tuning_shape:
  "api_tuning e req s = Some (ret, t) \<Longrightarrow>
   ret < 0 \<and> resources t = resources s \<or> ret = 0 \<and> installed DPF_MSG_TUNING s t"
  by (auto simp: api_tuning_def Let_def intro!: installedI split: if_splits bind_splits dest!: load_leaders_resources)

interpretation h_tuning: request_handler api_tuning DPF_MSG_TUNING
  by (rule simple_handler) (rule api_tuning_shape)

lemma api_msr_read_shape:
  "api_msr_read e req s = Some (ret, t) \<Longrightarrow>
   ret < 0 \<and> resources t = resources s \<or> ret = 0 \<and> installed DPF_MSG_MSR_READ s t"
  by (auto simp: api_msr_read_def Let_def NR_OF_MSR_def intro!: installedI split: if_splits bind_splits
      dest!: resources_msr_load)

interpretation h_msr: request_handler api_msr_read DPF_MSG_MSR_READ
  by (rule simple_handler) (rule api_msr_read_shape)

lemma api_pmu_read_shape:
  "api_pmu_read e req s = Some (ret, t) \<Longrightarrow>
   ret < 0 \<and> resources t = resources s \<or> ret = 0 \<and> installed DPF_MSG_PMU_READ s t"
  by (auto simp: api_pmu_read_def Let_def K_PMU_COUNTERS_def intro!: installedI split: if_splits bind_splits)

interpretation h_pmu: request_handler api_pmu_read DPF_MSG_PMU_READ
  by (rule simple_handler) (rule api_pmu_read_shape)

lemma api_pmu_log_read_shape:
  "api_pmu_log_read e req s = Some (ret, t) \<Longrightarrow>
   ret < 0 \<and> resources t = resources s \<or> ret = 0 \<and> installed DPF_MSG_PMU_LOG_READ s t"
  by (auto simp: api_pmu_log_read_def Let_def intro!: installedI split: if_splits bind_splits option.splits
      dest: rd_bytes_length)

interpretation h_logread: request_handler api_pmu_log_read DPF_MSG_PMU_LOG_READ
  by (rule simple_handler) (rule api_pmu_log_read_shape)

subsection \<open>Requests to the memory controllers\<close>

definition mem_res :: "kstate \<Rightarrow> bytes option \<times> nat \<times> int \<times> bytes option \<times> nat \<times> nat" where
  "mem_res s = (proc_buffer s, proc_buffer_size s, heap_live s, pmu_log_buffer s, pmu_log_buffer_size s,
     pmu_log_data_size s)"

lemma mem_res_cong:
  assumes "mem_res t = mem_res s"
  shows "heap_extra t = heap_extra s" "res_ok t \<longleftrightarrow> buffer_ok s \<and> log_ok s \<and> ddr_ok t"
    "mem_res (kmalloced t) = mem_res (kmalloced s)" "mem_res (kfreed t) = mem_res (kfreed s)"
  using assms
  by (simp_all add: mem_res_def heap_extra_def owned_def res_ok_def buffer_ok_def log_ok_def kmalloced_def kfreed_def)

lemma mem_res_updates [simp]:
  "mem_res (s\<lparr>ddr := d\<rparr>) = mem_res s" "mem_res (s\<lparr>io_live := n\<rparr>) = mem_res s"
  "mem_res (s\<lparr>ddr_bar_address := a\<rparr>) = mem_res s" "mem_res (s\<lparr>ddr_cpu_type := b\<rparr>) = mem_res s"
  "mem_res (s\<lparr>num_ddr_controllers := c\<rparr>) = mem_res s" "mem_res (kfreed (kmalloced s)) = mem_res s"
  by (simp_all add: mem_res_def kfreed_def kmalloced_def)

lemma mem_res_set_mmap: "set_mmap i p s = Some t \<Longrightarrow> mem_res t = mem_res s"
  by (auto simp: set_mmap_def split: bind_splits)

lemma mem_res_loop:
  assumes "for_range lo hi body (s, x) = Some (t, y)"
    and "\<And>j u v u' v'. body j (u, v) = Some (u', v') \<Longrightarrow> mem_res u' = mem_res u"
  shows "mem_res t = mem_res s"
  using for_range_invariant [OF assms(1), of "\<lambda>z. mem_res (fst z) = mem_res s"] assms(2) by fastforce

lemma mem_res_kernel_pmu_ddr: "kernel_pmu_ddr e type s = Some (x, t) \<Longrightarrow> mem_res t = mem_res s"
proof -
  have "scan_rd e off s = Some (t, x) \<Longrightarrow> mem_res t = mem_res s" for off x
    unfolding scan_rd_def by (erule mem_res_loop) (auto simp: Let_def split: bind_splits if_splits)
  moreover have "scan_wr e off s = Some (t, x) \<Longrightarrow> mem_res t = mem_res s" for off x
    unfolding scan_wr_def by (erule mem_res_loop) (auto simp: Let_def split: bind_splits if_splits)
  ultimately show "kernel_pmu_ddr e type s = Some (x, t) \<Longrightarrow> ?thesis"
    by (auto simp: kernel_pmu_ddr_def kernel_pmu_ddr_client_def kernel_pmu_ddr_grr_srf_def
        split: if_splits bind_splits)
qed

lemma mem_res_init_maps: "init_maps e base rng n i s = Some (r, t) \<Longrightarrow> mem_res t = mem_res s"
  by (induction n arbitrary: i s) (auto simp: Let_def split: bind_splits if_splits dest!: mem_res_set_mmap)

lemma mem_res_unmap_below: "unmap_below n s = Some t \<Longrightarrow> mem_res t = mem_res s"
  by (induction n arbitrary: s) (auto split: bind_splits if_splits dest!: mem_res_set_mmap)

lemma mem_res_ddr_init: "ddr_init_with e base rng s = Some (r, t) \<Longrightarrow> mem_res t = mem_res s"
  by (auto simp: ddr_init_with_def split: bind_splits option.splits
      dest!: mem_res_init_maps mem_res_unmap_below mem_res_kernel_pmu_ddr)

lemma ddr_ok_cong:
  "ddr_mmap (ddr t) = ddr_mmap (ddr s) \<Longrightarrow> io_live t = io_live s \<Longrightarrow>
   num_ddr_controllers t = num_ddr_controllers s \<Longrightarrow> ddr_ok t = ddr_ok s"
  by (simp add: ddr_ok_def io_balanced_def windows_def num_ctrl_def)

lemma kernel_pmu_ddr_kept:
  assumes "kernel_pmu_ddr e type s = Some (x, t)" and "ddr_ok s" and "type = DDR_PMU_RD \<or> type = DDR_PMU_WR"
  shows "ddr_ok t"
proof (cases "known_ddr s")
  case True
  then have "t = ddr_sampled e type s"
    using assms kernel_pmu_ddr_eq [of s type e] by (simp add: ddr_ok_def)
  then show ?thesis using assms(2) by (subst ddr_ok_cong [of t s]) simp_all
next
  case False
  then show ?thesis using assms by (auto simp: kernel_pmu_ddr_def known_ddr_def)
qed

definition installed_mem :: "u32 \<Rightarrow> kstate \<Rightarrow> kstate \<Rightarrow> bool" where
  "installed_mem kind s t \<longleftrightarrow> (\<exists>n body u. mem_res u = mem_res (kmalloced s) \<and> ddr_ok u \<and> n = length body + 8 \<and>
     t = install_resp (header kind n @ body) u)"

lemma installed_memI:
  "mem_res u = mem_res (kmalloced s) \<Longrightarrow> ddr_ok u \<Longrightarrow> n = length body + 8 \<Longrightarrow>
   installed_mem kind s (install_resp (header kind n @ body) u)"
  unfolding installed_mem_def by blast

lemma installed_mem_props:
  assumes "installed_mem kind s t" and "res_ok s"
  shows "heap_extra t = heap_extra s" "res_ok t" "response_ok kind t"
proof -
  obtain n body u where u: "mem_res u = mem_res (kmalloced s)" "ddr_ok u" "n = length body + 8"
      "t = install_resp (header kind n @ body) u"
    using assms(1) by (auto simp: installed_mem_def)
  show "heap_extra t = heap_extra s" using mem_res_cong(1) [OF u(1)] by (simp add: u(4))
  have "res_ok (kmalloced s)" using assms(2) by simp
  then have "res_ok u" using mem_res_cong(2) [OF u(1)] u(2) by (simp add: res_ok_def)
  then show "res_ok t" unfolding u(4) by (rule res_ok_install)
  show "response_ok kind t" unfolding u(4) by (rule response_ok_install) (rule u(3))
qed

lemma mem_handler:
  assumes "\<And>e req s ret t. handle e req s = Some (ret, t) \<Longrightarrow> ddr_ok s \<Longrightarrow>
    ret < 0 \<and> mem_res t = mem_res s \<and> ddr_ok t \<or> ret = 0 \<and> installed_mem kind s t"
  shows "request_handler handle kind"
proof
  fix e req s ret t
  assume h: "handle e req s = Some (ret, t)" and s: "res_ok s"
  have *: "ret < 0 \<and> mem_res t = mem_res s \<and> ddr_ok t \<or> ret = 0 \<and> installed_mem kind s t"
    using h s by (intro assms) (auto simp: res_ok_def)
  then show "heap_extra t = heap_extra s" using s installed_mem_props(1) mem_res_cong(1) by blast
  show "res_ok t"
  proof (cases "ret < 0")
    case True
    then have "mem_res t = mem_res s" "ddr_ok t" using * by auto
    then show ?thesis using s mem_res_cong(2) [of t s] by (simp add: res_ok_def)
  next
    case False
    then show ?thesis using * s installed_mem_props(2) by blast
  qed
  show "0 \<le> ret \<Longrightarrow> response_ok kind t" using * s installed_mem_props(3) by auto
qed

lemma ddr_ok_kmalloced [simp]: "ddr_ok (kmalloced s) = ddr_ok s" "ddr_ok (kfreed s) = ddr_ok s"
  by (simp_all add: kmalloced_def kfreed_def ddr_ok_def io_balanced_def windows_def num_ctrl_def)

lemma kernel_pmu_ddr_both:
  assumes "kernel_pmu_ddr e DDR_PMU_RD v = Some (x, u) \<or> kernel_pmu_ddr e DDR_PMU_WR v = Some (x, u)"
  shows "mem_res u = mem_res v \<and> (ddr_ok v \<longrightarrow> ddr_ok u)"
  using assms by (auto dest: mem_res_kernel_pmu_ddr kernel_pmu_ddr_kept)

lemma read_ddr_counters_kept:
  assumes "read_ddr_counters e v = Some (x, a, b, u)"
  shows "mem_res u = mem_res v \<and> (ddr_ok v \<longrightarrow> ddr_ok u)"
  using assms by (auto simp: read_ddr_counters_def split: if_splits bind_splits
      dest!: kernel_pmu_ddr_both [OF disjI1] kernel_pmu_ddr_both [OF disjI2])

lemma api_ddr_bw_read_shape:
  assumes "api_ddr_bw_read e s = Some (ret, t)" and "ddr_ok s"
  shows "ret < 0 \<and> mem_res t = mem_res s \<and> ddr_ok t \<or> ret = 0 \<and> installed_mem DPF_MSG_DDR_BW_READ s t"
  using assms
  by (auto simp: api_ddr_bw_read_def intro!: installed_memI split: if_splits bind_splits
      dest!: read_ddr_counters_kept)

interpretation h_bw: request_handler "\<lambda>e req s. api_ddr_bw_read e s" DPF_MSG_DDR_BW_READ
  by (rule mem_handler) (rule api_ddr_bw_read_shape)

lemma unmap_all_eq:
  assumes "ddr_ok s"
  shows "\<exists>M. unmap_all s = Some (with_maps M 0 s) \<and> (\<forall>k. int k < MAX_NUM_DDR_CONTROLLERS \<longrightarrow> M k = 0)"
proof -
  let ?M = "ddr_mmap (ddr s)"
  let ?W = "\<lambda>j. {k. int k < j \<and> ?M k \<noteq> 0}"
  let ?J = "\<lambda>j. with_maps (\<lambda>k. if int k < j then 0 else ?M k) (io_live s - int (card (?W j))) s"
  let ?body = "\<lambda>i s. do { p \<leftarrow> mmap_at s i;
                   if p \<noteq> 0 then set_mmap i 0 (s\<lparr>io_live := io_live s - 1\<rparr>) else Some s }"
  have "\<exists>t. for_range 0 MAX_NUM_DDR_CONTROLLERS ?body s = Some t \<and> t = ?J MAX_NUM_DDR_CONTROLLERS"
  proof (rule for_range_rule [where I = "\<lambda>j t. t = ?J j"])
    show "s = ?J 0" by (simp add: with_maps_id)
    show "(0 :: int) \<le> MAX_NUM_DDR_CONTROLLERS" by (simp add: MAX_NUM_DDR_CONTROLLERS_def)
  next
    fix j t
    assume j: "0 \<le> j" "j < MAX_NUM_DDR_CONTROLLERS" and t: "t = ?J j"
    have less: "int k < j + 1 \<longleftrightarrow> k = nat j \<or> int k < j" for k using j(1) by auto
    have fin: "finite (?W j)" by (rule finite_subset [of _ "{..< nat j}"]) auto
    have M: "(\<lambda>k. if int k < j + 1 then 0 else ?M k) = (\<lambda>k. if int k < j then 0 else ?M k)(nat j := 0)"
      unfolding less by auto
    show "\<exists>t'. ?body j t = Some t' \<and> t' = ?J (j + 1)"
    proof (cases "?M (nat j) = 0")
      case True
      then have "?W (j + 1) = ?W j" "(\<lambda>k. if int k < j then 0 else ?M k)(nat j := 0) = (\<lambda>k. if int k < j then 0 else ?M k)"
        unfolding less by auto
      then show ?thesis unfolding M using j True by (simp add: t mmap_at_ok)
    next
      case False
      then have "?W (j + 1) = insert (nat j) (?W j)" unfolding less by auto
      moreover have "nat j \<notin> ?W j" using j(1) by auto
      ultimately have "int (card (?W (j + 1))) = int (card (?W j)) + 1" using fin by simp
      then show ?thesis
        unfolding M using j False by (simp add: t mmap_at_ok set_mmap_ok with_maps_def algebra_simps)
    qed
  qed
  moreover have "?W MAX_NUM_DDR_CONTROLLERS = windows s" by (simp add: windows_def)
  ultimately show ?thesis
    using assms by (auto simp: unmap_all_def ddr_ok_def io_balanced_def)
qed

lemma ddr_init_kept:
  assumes "(if ty = word_of_int DDR_CLIENT then kernel_pmu_ddr_init_client e bar s
            else kernel_pmu_ddr_init_grr_srf e bar s) = Some (ret, t)"
    and "ty = word_of_int DDR_CLIENT \<or> ty = word_of_int DDR_GRR_SRF" and "ddr_cpu_type s = ty"
    and "1 \<le> num_ctrl s" "num_ctrl s \<le> MAX_NUM_DDR_CONTROLLERS" and "io_live s = 0"
  shows "mem_res t = mem_res s \<and> ddr_ok t"
proof (cases "ty = word_of_int DDR_CLIENT")
  case True
  have c: "kernel_pmu_ddr_init_client e bar s = Some (ret, t)" using assms(1) True by simp
  moreover from c have "mem_res t = mem_res s"
    by (auto simp: kernel_pmu_ddr_init_client_def Let_def dest!: mem_res_ddr_init)
  ultimately show ?thesis using init_client_balanced [OF c] assms(3,5,6) True by (simp add: ddr_ok_def)
next
  case False
  have g: "kernel_pmu_ddr_init_grr_srf e bar s = Some (ret, t)" using assms(1) False by simp
  moreover from g have "mem_res t = mem_res s"
    by (auto simp: kernel_pmu_ddr_init_grr_srf_def Let_def split: if_splits dest!: mem_res_ddr_init)
  moreover have "ddr_cpu_type s = word_of_int DDR_GRR_SRF" using assms(2,3) False by simp
  ultimately show ?thesis using init_grr_srf_outcome [OF _ assms(4,5,6), of e bar] assms(5) by (auto simp: ddr_ok_def)
qed

lemma api_ddr_config_shape:
  assumes h: "api_ddr_config e req s = Some (ret, t)" and s: "ddr_ok s"
  shows "ret < 0 \<and> mem_res t = mem_res s \<and> ddr_ok t \<or> ret = 0 \<and> installed_mem DPF_MSG_DDR_CONFIG s t"
proof -
  obtain bar ty num where r: "rd_u64 req 8 = Some bar" "rd_u32 req 16 = Some ty" "rd_u32 req 20 = Some num"
    using h by (auto simp: api_ddr_config_def split: bind_splits)
  show ?thesis
  proof (cases "num = 0 \<or> uint num > MAX_NUM_DDR_CONTROLLERS \<or> \<not> kmalloc_ok e 0 24")
    case True
    then show ?thesis using h s r by (auto simp: api_ddr_config_def split: if_splits)
  next
    case False
    then have num: "1 \<le> uint num" "uint num \<le> MAX_NUM_DDR_CONTROLLERS"
      using unsigned_greater_eq [of num, where 'a = int] by (auto simp: int_one_le_iff_zero_less word_neq_0_conv
          simp flip: word_less_def [of 0, simplified] uint_0_iff intro!: order_neq_le_trans)
    obtain M where M: "unmap_all (kmalloced s) = Some (with_maps M 0 (kmalloced s))"
        "\<forall>k. int k < MAX_NUM_DDR_CONTROLLERS \<longrightarrow> M k = 0"
      using unmap_all_eq [of "kmalloced s"] s by auto
    let ?u = "(with_maps M 0 (kmalloced s))\<lparr>ddr_bar_address := bar, ddr_cpu_type := ty, num_ddr_controllers := num\<rparr>"
    have mu: "mem_res ?u = mem_res (kmalloced s)" by (simp add: with_maps_def)
    have w: "windows ?u = {}" using M(2) by (auto simp: windows_def with_maps_def)
    have du: "ddr_ok ?u" using w num by (simp add: ddr_ok_def io_balanced_def num_ctrl_def with_maps_def)
    have mf: "mem_res (kfreed v) = mem_res s" if "mem_res v = mem_res (kmalloced s)" for v
      using mem_res_cong(4) [OF that] by simp
    show ?thesis
    proof (cases "ty = word_of_int DDR_CLIENT \<or> ty = word_of_int DDR_GRR_SRF")
      case True
      have h': "do { (ret, s) \<leftarrow> (if ty = word_of_int DDR_CLIENT then kernel_pmu_ddr_init_client (mmio.truncate e) bar ?u
                     else kernel_pmu_ddr_init_grr_srf (mmio.truncate e) bar ?u);
                  if ret < 0 then Some (- EINVAL, kfreed s)
                  else Some (0, install_resp (header DPF_MSG_DDR_CONFIG 24 @ le64 bar
                         @ le32 ty @ map (fresh_byte e) [20..<24]) s) } = Some (ret, t)"
        using h False True r by (simp add: api_ddr_config_def M(1) Let_def split: if_splits)
      then obtain r v where v: "(if ty = word_of_int DDR_CLIENT then kernel_pmu_ddr_init_client (mmio.truncate e) bar ?u
                     else kernel_pmu_ddr_init_grr_srf (mmio.truncate e) bar ?u) = Some (r, v)"
        by (auto split: bind_splits)
      have k: "mem_res v = mem_res ?u \<and> ddr_ok v"
        using num by (intro ddr_init_kept [OF v True]) (simp_all add: num_ctrl_def with_maps_def)
      show ?thesis
        using h' k mu mf [of v] unfolding v by (auto intro!: installed_memI split: if_splits)
    next
      case unknown: False
      then have "ret = - EINVAL" "t = kfreed ?u"
        using h False r by (simp_all add: api_ddr_config_def M(1) Let_def split: if_splits)
      then show ?thesis using mf [OF mu] du by simp
    qed
  qed
qed

interpretation h_ddr: request_handler api_ddr_config DPF_MSG_DDR_CONFIG
  by (rule mem_handler) (rule api_ddr_config_shape)

subsection \<open>Requests to the PMU log\<close>

lemma resources_enabled_loop:
  assumes "for_range 0 MAX_NUM_CORES body s = Some t"
    and "\<And>j u u'. body j u = Some u' \<Longrightarrow> resources u' = resources u"
  shows "resources t = resources s"
  using for_range_invariant [OF assms(1), of "\<lambda>u. resources u = resources s"] assms(2) by fastforce

lemma reset_enabled_cores_resources: "reset_enabled_cores e s = Some t \<Longrightarrow> resources t = resources s"
  unfolding reset_enabled_cores_def
  by (erule resources_enabled_loop) (auto split: bind_splits if_splits dest!: resources_upd_core)

lemma configure_enabled_cores_resources: "configure_enabled_cores e s = Some t \<Longrightarrow> resources t = resources s"
  unfolding configure_enabled_cores_def
  by (erule resources_enabled_loop) (auto split: bind_splits if_splits)

lemma log_alloc_kept:
  assumes "log_alloc e n mode s = (ret, t)"
  shows "heap_extra t = heap_extra s" "res_ok s \<Longrightarrow> res_ok t" "ret \<le> 0"
proof -
  have [simp]: "heap_extra (kfree_log_buffer s) = heap_extra s" "pmu_log_buffer (kfree_log_buffer s) = None"
    by (auto simp: kfree_log_buffer_def kfreed_def heap_extra_def owned_def)
  have [simp]: "res_ok s \<Longrightarrow> res_ok (kfree_log_buffer s)"
    by (auto simp: kfree_log_buffer_def kfreed_def res_ok_def buffer_ok_def log_ok_def ddr_ok_def
        io_balanced_def windows_def num_ctrl_def)
  have new: "heap_extra ((kmalloced u)\<lparr>pmu_log_buffer := Some (replicate n 0), pmu_log_buffer_size := n, pmu_log_data_size := 0\<rparr>) = heap_extra u"
    "res_ok u \<Longrightarrow> res_ok ((kmalloced u)\<lparr>pmu_log_buffer := Some (replicate n 0), pmu_log_buffer_size := n, pmu_log_data_size := 0\<rparr>)"
    if "pmu_log_buffer u = None" for u
    using that by (auto simp: kmalloced_def heap_extra_def owned_def res_ok_def buffer_ok_def log_ok_def ddr_ok_def
        io_balanced_def windows_def num_ctrl_def)
  show "heap_extra t = heap_extra s" "res_ok s \<Longrightarrow> res_ok t" "ret \<le> 0"
    using assms new [of "kfree_log_buffer s"]
    by (auto simp: log_alloc_def Let_def split: if_splits)
qed

lemma api_pmu_log_control_kept:
  assumes h: "api_pmu_log_control e req s = Some (ret, t)" and s: "res_ok s"
  shows "heap_extra t = heap_extra s \<and> res_ok t \<and> (0 \<le> ret \<longrightarrow> response_ok DPF_MSG_PMU_LOG_CONTROL t)"
proof -
  obtain n mode where r: "rd_u32 req 8 = Some n" "rd_u32 req 12 = Some mode"
    using h by (auto simp: api_pmu_log_control_def split: bind_splits)
  obtain r0 u where a: "log_alloc e (unat n) mode (kmalloced s) = (r0, u)"
    by (cases "log_alloc e (unat n) mode (kmalloced s)")
  have u: "heap_extra u = heap_extra s + 1" "res_ok u" "r0 \<le> 0"
    using log_alloc_kept [OF a] s by simp_all
  show ?thesis
  proof (cases "kmalloc_ok e 0 20 \<and> \<not> mode > 1 \<and> \<not> r0 < 0")
    case False
    then show ?thesis
      using h s u by (auto simp: api_pmu_log_control_def r a Let_def split: if_splits)
  next
    case True
    then have t: "installed_at DPF_MSG_PMU_LOG_CONTROL u t"
      using h by (auto simp: api_pmu_log_control_def r a Let_def intro!: installed_atI split: if_splits bind_splits
          dest!: reset_enabled_cores_resources)
    then show ?thesis
      using u installed_at_props [OF t] by simp
  qed
qed

interpretation h_logctl: request_handler api_pmu_log_control DPF_MSG_PMU_LOG_CONTROL
  by unfold_locales (auto dest: api_pmu_log_control_kept)

lemma api_pmu_log_stop_kept:
  assumes h: "api_pmu_log_stop e s = Some (ret, t)" and s: "res_ok s"
  shows "heap_extra t = heap_extra s \<and> res_ok t \<and> (0 \<le> ret \<longrightarrow> response_ok DPF_MSG_PMU_LOG_STOP t)"
proof (cases "kmalloc_ok e 0 12 \<and> pmu_logging_active (kmalloced s)")
  case False
  then show ?thesis
    using h s by (auto simp: api_pmu_log_stop_def Let_def handler_simps split: if_splits)
next
  case True
  then have "installed DPF_MSG_PMU_LOG_STOP s t"
    using h by (auto simp: api_pmu_log_stop_def Let_def intro!: installedI split: bind_splits
        dest!: configure_enabled_cores_resources)
  then show ?thesis
    using s installed_props by blast
qed

interpretation h_logstop: request_handler "\<lambda>e req s. api_pmu_log_stop e s" DPF_MSG_PMU_LOG_STOP
  by unfold_locales (auto dest: api_pmu_log_stop_kept)

section \<open>The log as a bounded sequence\<close>

fun app_all :: "('d \<Rightarrow> 's \<Rightarrow> (int \<times> 's) option) \<Rightarrow> 'd list \<Rightarrow> 's \<Rightarrow> 's option" where
  "app_all app [] s = Some s"
| "app_all app (d # ds) s = do { (_, s) \<leftarrow> app d s; app_all app ds s }"

text \<open>
  What a producer may rely on: an append either adds its bytes at the end or changes nothing, and
  it is refused only when the bytes do not fit. The consequence proved in the locale: of a
  sequence of entries of one size, the log keeps exactly the first ones, as many as fit, complete
  and in order.
\<close>

locale bounded_log =
  fixes app :: "'b list \<Rightarrow> 's \<Rightarrow> (int \<times> 's) option"
    and contents :: "'s \<Rightarrow> 'b list"
    and capacity :: "'s \<Rightarrow> nat"
    and ready :: "'s \<Rightarrow> bool"
  assumes bounded: "ready s \<Longrightarrow> length (contents s) \<le> capacity s"
    and app_fits: "ready s \<Longrightarrow> d \<noteq> [] \<Longrightarrow> length (contents s) + length d \<le> capacity s \<Longrightarrow>
      \<exists>t. app d s = Some (0, t) \<and> ready t \<and> contents t = contents s @ d \<and> capacity t = capacity s"
    and app_full: "ready s \<Longrightarrow> d \<noteq> [] \<Longrightarrow> capacity s < length (contents s) + length d \<Longrightarrow>
      \<exists>r. r < 0 \<and> app d s = Some (r, s)"
begin

lemma app_all_full:
  assumes "ready s" and "\<And>d. d \<in> set ds \<Longrightarrow> length d = n" and "0 < n" and "capacity s < length (contents s) + n"
  shows "app_all app ds s = Some s"
  using assms(2)
proof (induction ds)
  case Nil
  then show ?case by simp
next
  case (Cons d ds)
  have "length d = n" using Cons.prems by simp
  then have "d \<noteq> []" using assms(3) by auto
  then obtain r where "app d s = Some (r, s)"
    using app_full [OF assms(1), of d] assms(4) \<open>length d = n\<close> by auto
  then show ?case using Cons by simp
qed

lemma app_all_prefix:
  assumes "ready s" and "\<And>d. d \<in> set ds \<Longrightarrow> length d = n" and "0 < n"
  shows "\<exists>t. app_all app ds s = Some t \<and> ready t \<and> capacity t = capacity s \<and>
    contents t = contents s @ concat (take ((capacity s - length (contents s)) div n) ds)"
  using assms(1,2)
proof (induction ds arbitrary: s)
  case Nil
  then show ?case by simp
next
  case (Cons d ds)
  have d: "length d = n" "d \<noteq> []" using Cons.prems(2) [of d] assms(3) by auto
  show ?case
  proof (cases "length (contents s) + n \<le> capacity s")
    case True
    then obtain t where t: "app d s = Some (0, t)" "ready t" "contents t = contents s @ d" "capacity t = capacity s"
      using app_fits [OF Cons.prems(1) d(2)] d(1) by auto
    obtain u where u: "app_all app ds t = Some u" "ready u" "capacity u = capacity t"
        "contents u = contents t @ concat (take ((capacity t - length (contents t)) div n) ds)"
      using Cons.IH [OF t(2)] Cons.prems(2) by auto
    have "(capacity s - length (contents s)) div n = Suc ((capacity t - length (contents t)) div n)"
      using True assms(3) d(1) t(3,4) by (simp add: le_div_geq)
    then show ?thesis using t u by simp
  next
    case False
    then have "app_all app (d # ds) s = Some s"
      using Cons.prems assms(3) by (intro app_all_full) auto
    moreover have "(capacity s - length (contents s)) div n = 0"
      using False assms(3) by (intro div_less) linarith
    ultimately show ?thesis using Cons.prems(1) by simp
  qed
qed

end

definition log_contents :: "kstate \<Rightarrow> bytes" where
  "log_contents s = (case pmu_log_buffer s of None \<Rightarrow> [] | Some b \<Rightarrow> take (pmu_log_data_size s) b)"

definition log_ready :: "kstate \<Rightarrow> bool" where
  "log_ready s \<longleftrightarrow> pmu_logging_active s \<and> log_ok s \<and> pmu_log_buffer s \<noteq> None \<and> pmu_log_buffer_size s > 0"

interpretation pmu_log: bounded_log api_pmu_log_append_data log_contents pmu_log_buffer_size log_ready
proof
  fix s and d :: bytes
  assume r: "log_ready s"
  then obtain b where b: "pmu_log_buffer s = Some b" "length b = pmu_log_buffer_size s"
      "pmu_log_data_size s \<le> pmu_log_buffer_size s" "pmu_logging_active s" "pmu_log_buffer_size s > 0"
    by (auto simp: log_ready_def log_ok_def)
  then have len: "length (log_contents s) = pmu_log_data_size s" by (simp add: log_contents_def)
  show "length (log_contents s) \<le> pmu_log_buffer_size s" using b len by simp
  show "\<exists>t. api_pmu_log_append_data d s = Some (0, t) \<and> log_ready t \<and> log_contents t = log_contents s @ d \<and>
      pmu_log_buffer_size t = pmu_log_buffer_size s"
    if "d \<noteq> []" "length (log_contents s) + length d \<le> pmu_log_buffer_size s"
    using that b len
    by (simp add: api_pmu_log_append_data_def blit_def log_ready_def log_ok_def log_contents_def)
  show "\<exists>r. r < 0 \<and> api_pmu_log_append_data d s = Some (r, s)"
    if "d \<noteq> []" "pmu_log_buffer_size s < length (log_contents s) + length d"
    using that b len by (simp add: api_pmu_log_append_data_def)
qed

text \<open>
  Claim C8: the log loses nothing silently in the middle. When logging is active and entries of
  one size are appended one after the other, every append returns, the copy never runs outside
  the buffer, and the log then holds its old contents followed by exactly the first entries, as
  many as fit into the free space, complete and in order; the rest is refused.
\<close>

theorem pmu_log_keeps_first_entries:
  assumes "log_ready s" and "\<forall>d\<in>set ds. length d = n" and "0 < n"
  shows "\<exists>t. app_all api_pmu_log_append_data ds s = Some t \<and> log_ready t \<and>
    log_contents t = log_contents s @ concat (take ((pmu_log_buffer_size s - length (log_contents s)) div n) ds)"
  using pmu_log.app_all_prefix [OF assms(1) _ assms(3), of ds] assms(2) by auto

definition demo_kstate :: kstate where
  "demo_kstate = kprim.extend demo_kprim
     (kstate.fields True True False True 1000000000 None 0 0 (\<lambda>c. c = 2) (Some (replicate 200 0)) 200 0 True 1)"

lemmas demo_kstate_simps = demo_kstate_def kprim.defs kstate.defs demo_kprim_simps

definition demo_kenv :: kenv where
  "demo_kenv = mmio.extend \<lparr>io_remap = (\<lambda>_ _. 0x1000), io_readq = (\<lambda>a. a)\<rparr>
     (kenv.fields (\<lambda>_ _. True) (\<lambda>_. True) (\<lambda>_. 0) 0 [0, 1, 2, 3] (\<lambda>c m. filter m [1, 2, 3]) (\<lambda>_ _. 0)
        (\<lambda>_ _. 0) (\<lambda>_ _. 0) (\<lambda>_. True) True)"

lemmas demo_kenv_simps = demo_kenv_def mmio.defs kenv.defs

lemma demo_log_ready: "log_ready demo_kstate" "log_contents demo_kstate = []" "pmu_log_buffer_size demo_kstate = 200"
  by (simp_all add: log_ready_def log_ok_def log_contents_def demo_kstate_simps)

text \<open>A buffer of 200 bytes takes two of three entries of 76 bytes.\<close>

theorem pmu_log_keeps_first_entries_witness:
  "\<exists>t. app_all api_pmu_log_append_data [replicate 76 1, replicate 76 2, replicate 76 3] demo_kstate = Some t \<and>
     log_contents t = replicate 76 1 @ replicate 76 2"
  using pmu_log_keeps_first_entries [OF demo_log_ready(1),
      of "[replicate 76 1, replicate 76 2, replicate 76 3]" 76]
  by (auto simp: demo_log_ready numeral_2_eq_2)

lemma log_read_spec:
  assumes "log_ok s" and "pmu_log_buffer s \<noteq> None" and "pmu_log_buffer_size s > 0"
    and "rd_u32 req 8 = Some max_bytes" and "\<forall>n. kmalloc_ok e 0 n"
    and "n = (if max_bytes = 0 then pmu_log_data_size s else min (unat max_bytes) (pmu_log_data_size s))"
  shows "if n = 0 \<or> 12 \<le> n
    then \<exists>t. api_pmu_log_read e req s = Some (0, t) \<and> log_contents t = log_contents s \<and>
      proc_buffer t = Some (header DPF_MSG_PMU_LOG_READ (16 + n) @ le64 (word_of_nat n) @ take n (log_contents s))
    else api_pmu_log_read e req s = None"
proof -
  obtain b where b: "pmu_log_buffer s = Some b" "length b = pmu_log_buffer_size s"
      "pmu_log_data_size s \<le> pmu_log_buffer_size s"
    using assms(1,2) by (auto simp: log_ok_def)
  have n: "n \<le> pmu_log_data_size s" by (simp add: assms(6))
  have zero: "n = 0 \<longleftrightarrow> pmu_log_data_size s = 0"
  proof (cases "max_bytes = 0")
    case False
    then have "0 < unat max_bytes" by (simp add: unat_gt_0)
    then show ?thesis using False by (auto simp: assms(6) min_def)
  qed (simp add: assms(6))
  have d: "rd_bytes b 0 n = Some (take n b)" using n b by (simp add: rd_bytes_def)
  have fields: "(rd_u32 (take n b) 8 = None) = (n < 12)" "(rd_u64 (take n b) 0 = None) = (n < 8)"
    using n b by (simp_all add: rd_u32_None_iff rd_u64_None_iff)
  have keep: "log_contents (install_resp r (kmalloced s)) = log_contents s" for r
    by (simp add: log_contents_def install_resp_def kfree_proc_buffer_def kmalloced_def kfreed_def
        cong: option.case_cong)
  have buf: "proc_buffer (install_resp r (kmalloced s)) = Some r" for r
    by (simp add: install_resp_def)
  show ?thesis
  proof (cases "n = 0")
    case True
    then show ?thesis
      using assms(3-5) zero b(1) keep buf by (simp add: api_pmu_log_read_def)
  next
    case False
    let ?rest = "do { data \<leftarrow> rd_bytes b 0 n; _ \<leftarrow> rd_u32 data 8; _ \<leftarrow> rd_u64 data 0;
        Some (0, install_resp (header DPF_MSG_PMU_LOG_READ (16 + n) @ le64 (word_of_nat n) @ data) (kmalloced s)) }"
    have r: "api_pmu_log_read e req s = ?rest"
      using assms(3-5) zero b(1) False by (simp add: api_pmu_log_read_def Let_def flip: assms(6))
    have "take n (log_contents s) = take n b" using n b(1) by (simp add: log_contents_def min_def)
    then show ?thesis
      using False fields keep buf
      by (cases "rd_u32 (take n b) 8"; cases "rd_u64 (take n b) 0") (auto simp: r d not_less)
  qed
qed

text \<open>
  Reading the log. With an allocated buffer and a successful allocation of the
  response, the read returns the first \<open>n\<close> bytes of the log after the header and the byte
  count, where \<open>n\<close> is the whole log for the limit 0 and at most the limit otherwise; the log
  itself is not consumed. The exception is a limit between 1 and 11 on a log that has data, or a
  log of fewer than 12 bytes: the trace output then reads past the end of the response.
\<close>

theorem pmu_log_read_prefix:
  assumes "log_ok s" and "pmu_log_buffer s \<noteq> None" and "pmu_log_buffer_size s > 0"
    and "rd_u32 req 8 = Some max_bytes" and "\<forall>n. kmalloc_ok e 0 n"
    and "n = (if max_bytes = 0 then pmu_log_data_size s else min (unat max_bytes) (pmu_log_data_size s))"
  shows "if n = 0 \<or> 12 \<le> n
    then \<exists>t. api_pmu_log_read e req s = Some (0, t) \<and> log_contents t = log_contents s \<and>
      proc_buffer t = Some (header DPF_MSG_PMU_LOG_READ (16 + n) @ le64 (word_of_nat n) @ take n (log_contents s))
    else api_pmu_log_read e req s = None"
  using log_read_spec [OF assms] .

theorem pmu_log_read_prefix_witness:
  "(\<exists>t. api_pmu_log_read demo_kenv (replicate 8 0 @ le32 20) (demo_kstate\<lparr>pmu_log_data_size := 76\<rparr>) = Some (0, t) \<and>
      proc_buffer t = Some (header DPF_MSG_PMU_LOG_READ 36 @ le64 20 @ replicate 20 0)) \<and>
   api_pmu_log_read demo_kenv (replicate 8 0 @ le32 4) (demo_kstate\<lparr>pmu_log_data_size := 76\<rparr>) = None"
proof -
  let ?s = "demo_kstate\<lparr>pmu_log_data_size := 76\<rparr>"
  have s: "log_ok ?s" "pmu_log_buffer ?s \<noteq> None" "pmu_log_buffer_size ?s > 0" "pmu_log_data_size ?s = 76"
      "log_contents ?s = replicate 76 0"
    by (simp_all add: log_ok_def log_contents_def demo_kstate_simps)
  have k: "\<forall>n. kmalloc_ok demo_kenv 0 n" by (simp add: demo_kenv_simps)
  have r: "rd_u32 (replicate 8 0 @ le32 v) 8 = Some v" for v by simp
  show ?thesis
    using pmu_log_read_prefix [OF s(1-3) r k, of 20 20] pmu_log_read_prefix [OF s(1-3) r k, of 4 4] s(4,5)
    by auto
qed

section \<open>Configuration requests\<close>

lemma fold_frame: "(\<And>x s. p (f x s) = p s) \<Longrightarrow> p (fold f xs s) = p s"
  by (induction xs arbitrary: s) simp_all

lemma configure_core_frame [simp, frame_simps]:
  "corestate (configure_pmu_on_core c s) = corestate s" "enabled_cpus (configure_pmu_on_core c s) = enabled_cpus s"
  "sys_first_core (configure_pmu_on_core c s) = sys_first_core s"
  "sys_active_cores (configure_pmu_on_core c s) = sys_active_cores s"
  "mab_modules (configure_pmu_on_core c s) = mab_modules s" "mab_cores (configure_pmu_on_core c s) = mab_cores s"
  by (simp_all add: configure_pmu_on_core_def PMU_EVENT_WRITES_def wrmsr64_def wrmsr_def)

lemma configure_pmu_frame [simp, frame_simps]:
  "corestate (snd (configure_pmu e i s)) = corestate s" "enabled_cpus (snd (configure_pmu e i s)) = enabled_cpus s"
  "sys_first_core (snd (configure_pmu e i s)) = sys_first_core s"
  "sys_active_cores (snd (configure_pmu e i s)) = sys_active_cores s"
  "mab_modules (snd (configure_pmu e i s)) = mab_modules s" "mab_cores (snd (configure_pmu e i s)) = mab_cores s"
  by (simp_all add: configure_pmu_def fold_frame)

lemma sint_of_small: "unat (w :: u32) < 2 ^ 31 \<Longrightarrow> sint w = int (unat w)"
proof -
  assume "unat w < 2 ^ 31"
  then have "int (unat w) < int (2 ^ 31)" by (simp only: of_nat_less_iff)
  then have u: "uint w < 2 ^ 31" "0 \<le> uint w" by simp_all
  have "signed_take_bit 31 (uint w) = uint w"
    by (rule signed_take_bit_int_eq_self, rule order_trans [OF _ u(2)]) (use u in simp_all)
  then show ?thesis by (simp add: sint_uint)
qed

definition selected :: "kenv \<Rightarrow> u32 \<Rightarrow> u32 \<Rightarrow> nat \<Rightarrow> bool" where
  "selected e a b c \<longleftrightarrow> unat a \<le> c \<and> c \<le> unat b \<and> c \<in> set (online_cpus e)"

lemma core_range_step_eq:
  assumes "core_ok j"
  shows "\<exists>t. core_range_step e a b j s = Some t \<and>
    corestate t = (corestate s)(nat j := (corestate s (nat j))\<lparr>core_disabled := of_bool (\<not> selected e a b (nat j))\<rparr>) \<and>
    enabled_cpus t = (if selected e a b (nat j) then (enabled_cpus s)(nat j := True) else enabled_cpus s) \<and>
    sys_first_core t = sys_first_core s \<and> sys_active_cores t = sys_active_cores s \<and>
    mab_modules t = mab_modules s \<and> mab_cores t = mab_cores s"
proof -
  have ab: "j < uint a \<longleftrightarrow> \<not> unat a \<le> nat j" "uint b < j \<longleftrightarrow> \<not> nat j \<le> unat b"
    using assms of_nat_unat [of a, where 'a = int] of_nat_unat [of b, where 'a = int]
    unfolding core_ok_def by linarith+
  show ?thesis
    using assms by (auto simp: core_range_step_def Let_def ab selected_def)
qed

lemma core_range_loop:
  "\<exists>t. for_range 0 MAX_NUM_CORES (core_range_step e a b) s = Some t \<and>
    (\<forall>c. int c < MAX_NUM_CORES \<longrightarrow>
       corestate t c = (corestate s c)\<lparr>core_disabled := of_bool (\<not> selected e a b c)\<rparr> \<and>
       enabled_cpus t c = (selected e a b c \<or> enabled_cpus s c)) \<and>
    (\<forall>c. MAX_NUM_CORES \<le> int c \<longrightarrow> enabled_cpus t c = enabled_cpus s c) \<and>
    sys_first_core t = sys_first_core s \<and> sys_active_cores t = sys_active_cores s \<and>
    mab_modules t = mab_modules s \<and> mab_cores t = mab_cores s"
proof -
  let ?I = "\<lambda>j (t :: kstate). (\<forall>c. if int c < j
       then corestate t c = (corestate s c)\<lparr>core_disabled := of_bool (\<not> selected e a b c)\<rparr> \<and>
            enabled_cpus t c = (selected e a b c \<or> enabled_cpus s c)
       else corestate t c = corestate s c \<and> enabled_cpus t c = enabled_cpus s c) \<and>
    sys_first_core t = sys_first_core s \<and> sys_active_cores t = sys_active_cores s \<and>
    mab_modules t = mab_modules s \<and> mab_cores t = mab_cores s"
  have "\<exists>t. for_range 0 MAX_NUM_CORES (core_range_step e a b) s = Some t \<and> ?I MAX_NUM_CORES t"
  proof (rule for_range_rule [where I = ?I])
    show "?I 0 s" by simp
    show "(0 :: int) \<le> MAX_NUM_CORES" by (simp add: MAX_NUM_CORES_def)
  next
    fix j and t :: kstate
    assume j: "0 \<le> j" "j < MAX_NUM_CORES" and I: "?I j t"
    then have "core_ok j" by (simp add: core_ok_def)
    then obtain t' where t': "core_range_step e a b j t = Some t'"
      "corestate t' = (corestate t)(nat j := (corestate t (nat j))\<lparr>core_disabled := of_bool (\<not> selected e a b (nat j))\<rparr>)"
      "enabled_cpus t' = (if selected e a b (nat j) then (enabled_cpus t)(nat j := True) else enabled_cpus t)"
      "sys_first_core t' = sys_first_core t" "sys_active_cores t' = sys_active_cores t"
      "mab_modules t' = mab_modules t" "mab_cores t' = mab_cores t"
      using core_range_step_eq [of j e a b t] by blast
    have "if int c < j + 1
       then corestate t' c = (corestate s c)\<lparr>core_disabled := of_bool (\<not> selected e a b c)\<rparr> \<and>
            enabled_cpus t' c = (selected e a b c \<or> enabled_cpus s c)
       else corestate t' c = corestate s c \<and> enabled_cpus t' c = enabled_cpus s c" for c
      using I j t'(2,3) by (cases "c = nat j") (auto split: if_splits)
    then show "\<exists>t'. core_range_step e a b j t = Some t' \<and> ?I (j + 1) t'"
      using t' I j(1) by simp
  qed
  then show ?thesis by (metis not_less)
qed

lemma install_frame [simp, frame_simps]:
  "corestate (install_resp r s) = corestate s" "enabled_cpus (install_resp r s) = enabled_cpus s"
  "sys_first_core (install_resp r s) = sys_first_core s" "sys_active_cores (install_resp r s) = sys_active_cores s"
  "mab_modules (install_resp r s) = mab_modules s" "mab_cores (install_resp r s) = mab_cores s"
  "aggr (install_resp r s) = aggr s" "tune_alg (install_resp r s) = tune_alg s"
  "keep_running (install_resp r s) = keep_running s" "timer_active (install_resp r s) = timer_active s"
  by (simp_all add: install_resp_def kfree_proc_buffer_def kfreed_def)

lemma core_range_spec:
  assumes "rd_u32 req 8 = Some a" and "rd_u32 req 12 = Some b" and "kmalloc_ok e 0 20"
  shows "if unat a \<le> unat b \<and> unat b < 512
    then \<exists>t. api_core_range e req s = Some (0, t) \<and>
      sys_first_core t = int (unat a) \<and> sys_active_cores t = int (unat b) + 1 - int (unat a) \<and>
      (\<forall>c < 512. (core_disabled (corestate t c) = 0 \<longleftrightarrow> unat a \<le> c \<and> c \<le> unat b \<and> c \<in> set (online_cpus e)) \<and>
                 (enabled_cpus t c \<longleftrightarrow> unat a \<le> c \<and> c \<le> unat b \<and> c \<in> set (online_cpus e))) \<and>
      (\<forall>c \<ge> 512. \<not> enabled_cpus t c)
    else api_core_range e req s = Some (- EINVAL, s)"
proof -
  have e1: "MAX_NUM_CORES \<le> uint b \<longleftrightarrow> \<not> unat b < 512" and e2: "b < a \<longleftrightarrow> \<not> unat a \<le> unat b"
    using of_nat_unat [of b, where 'a = int] unfolding MAX_NUM_CORES_def word_less_nat_alt by linarith+
  show ?thesis
  proof (cases "unat a \<le> unat b \<and> unat b < 512")
    case False
    then show ?thesis using assms by (auto simp: api_core_range_def e1 e2)
  next
    case True
    have b1: "unat (b + 1) = unat b + 1" using True by (simp add: unat_word_ariths)
    then have cnt: "unat (b + 1 - a) = unat b + 1 - unat a"
      using True by (subst unat_sub) (simp_all add: word_le_nat_alt)
    have small: "uint (b - a + 1) \<le> MAX_NUM_CORES"
    proof -
      have "b - a + 1 = b + 1 - a" by simp
      moreover have "uint (b + 1 - a) = int (unat b + 1 - unat a)"
        using of_nat_unat [of "b + 1 - a", where 'a = int] unfolding cnt by (rule sym)
      ultimately have "uint (b - a + 1) = int (unat b + 1 - unat a)" by (simp only:)
      then show ?thesis using True unfolding MAX_NUM_CORES_def by linarith
    qed
    have sa: "sint a = int (unat a)"
      using True by (intro sint_of_small) simp
    have "sint (b + 1 - a) = int (unat b + 1 - unat a)"
    proof -
      have "unat (b + 1 - a) \<le> 512" unfolding cnt using True by linarith
      also have "(512 :: nat) < 2 ^ 31" by simp
      finally have "unat (b + 1 - a) < 2 ^ 31" .
      then show ?thesis using sint_of_small [of "b + 1 - a"] unfolding cnt by blast
    qed
    then have sc: "sint (b + 1 - a) = int (unat b) + 1 - int (unat a)"
      using True by (simp only: of_nat_diff) linarith
    let ?s = "(kmalloced s)\<lparr>sys_first_core := sint a, sys_active_cores := sint (b + 1 - a), enabled_cpus := (\<lambda>_. False)\<rparr>"
    obtain t where t: "for_range 0 MAX_NUM_CORES (core_range_step e a b) ?s = Some t"
      "\<forall>c. int c < MAX_NUM_CORES \<longrightarrow>
         corestate t c = (corestate ?s c)\<lparr>core_disabled := of_bool (\<not> selected e a b c)\<rparr> \<and>
         enabled_cpus t c = (selected e a b c \<or> enabled_cpus ?s c)"
      "\<forall>c. MAX_NUM_CORES \<le> int c \<longrightarrow> enabled_cpus t c = enabled_cpus ?s c"
      "sys_first_core t = sys_first_core ?s" "sys_active_cores t = sys_active_cores ?s"
      using core_range_loop [of e a b ?s] by blast
    have r: "api_core_range e req s = Some (0, install_resp (header DPF_MSG_CORE_RANGE 20 @ le32 a
                               @ le32 b @ le32 (b - a + 1)) t)"
      using assms True small t(1) by (simp add: api_core_range_def e1 e2 Let_def)
    have "\<forall>c < 512. (core_disabled (corestate t c) = 0 \<longleftrightarrow> selected e a b c) \<and> (enabled_cpus t c \<longleftrightarrow> selected e a b c)"
      using t(2) by (simp add: MAX_NUM_CORES_def)
    moreover have "\<forall>c \<ge> 512. \<not> enabled_cpus t c"
      using t(3) by (simp add: MAX_NUM_CORES_def)
    ultimately show ?thesis
      using True t(4,5) sa sc by (simp add: r selected_def)
  qed
qed

text \<open>
  The core range request. A request is accepted iff its range is not empty and ends
  below 512; then exactly the online cores of the range are enabled, in the core table and in
  the CPU mask alike, every other core is disabled, and the first core and the number of cores
  are recorded. A request that is refused changes nothing.
\<close>

theorem core_range_enables_exactly:
  assumes "rd_u32 req 8 = Some a" and "rd_u32 req 12 = Some b" and "kmalloc_ok e 0 20"
  shows "if unat a \<le> unat b \<and> unat b < 512
    then \<exists>t. api_core_range e req s = Some (0, t) \<and>
      sys_first_core t = int (unat a) \<and> sys_active_cores t = int (unat b) + 1 - int (unat a) \<and>
      (\<forall>c < 512. (core_disabled (corestate t c) = 0 \<longleftrightarrow> unat a \<le> c \<and> c \<le> unat b \<and> c \<in> set (online_cpus e)) \<and>
                 (enabled_cpus t c \<longleftrightarrow> unat a \<le> c \<and> c \<le> unat b \<and> c \<in> set (online_cpus e))) \<and>
      (\<forall>c \<ge> 512. \<not> enabled_cpus t c)
    else api_core_range e req s = Some (- EINVAL, s)"
  using core_range_spec [OF assms] .

theorem core_range_enables_exactly_witness:
  "(\<exists>t. api_core_range demo_kenv (replicate 8 0 @ le32 1 @ le32 9) demo_kstate = Some (0, t) \<and>
      sys_first_core t = 1 \<and> sys_active_cores t = 9 \<and> enabled_cpus t 3 \<and> \<not> enabled_cpus t 5) \<and>
   api_core_range demo_kenv (replicate 8 0 @ le32 1 @ le32 512) demo_kstate = Some (- EINVAL, demo_kstate)"
proof -
  have k: "kmalloc_ok demo_kenv 0 20" "set (online_cpus demo_kenv) = {0, 1, 2, 3}" by (auto simp: demo_kenv_simps)
  have r: "rd_u32 (replicate 8 0 @ le32 u @ le32 v) 8 = Some u" "rd_u32 (replicate 8 0 @ le32 u @ le32 v) 12 = Some v" for u v
    by simp_all
  show ?thesis
    using core_range_enables_exactly [OF r k(1), of 1 9 demo_kstate]
      core_range_enables_exactly [OF r k(1), of 1 512 demo_kstate]
    by (auto simp: k(2))
qed

text \<open>
  What enabling the tuning loads. The online leaders of the enabled modules get the seven registers of
  the CPU that serves the request; the loop is defined iff \<open>corestate\<close> has an entry for every
  online CPU.
\<close>

definition loads_leader :: "kenv \<Rightarrow> kstate \<Rightarrow> nat \<Rightarrow> bool" where
  "loads_leader e s c \<longleftrightarrow>
     c \<in> set (online_cpus e) \<and> core_disabled (corestate s c) = 0 \<and> core_in_module s (int c) = 0"

definition leaders_loaded :: "kenv \<Rightarrow> kstate \<Rightarrow> core_state_s arr" where
  "leaders_loaded e s c =
     (if loads_leader e s c
      then (corestate s c)\<lparr>pf_msr := (pf_msr (corestate s c))(0 := hwreg s (cpu e) 0x1320,
         1 := hwreg s (cpu e) 0x1321, 2 := hwreg s (cpu e) 0x1322, 3 := hwreg s (cpu e) 0x1323,
         4 := hwreg s (cpu e) 0x1324, 5 := hwreg s (cpu e) 0x1327, 6 := hwreg s (cpu e) 0x1a4)\<rparr>
      else corestate s c)"

lemma load_leaders_Cons:
  "load_leaders (e\<lparr>online_cpus := c # cs\<rparr>) s =
     (if \<not> core_ok (int c) then None
      else load_leaders (e\<lparr>online_cpus := cs\<rparr>) (s\<lparr>corestate := leaders_loaded (e\<lparr>online_cpus := [c]\<rparr>) s\<rparr>))"
proof (cases "core_ok (int c)")
  case True
  have "s\<lparr>corestate := leaders_loaded (e\<lparr>online_cpus := [c]\<rparr>) s\<rparr> =
      (if core_disabled (corestate s c) = 0 \<and> core_in_module s (int c) = 0
       then the (msr_load (cpu e) (int c) s) else s)"
    using True by (auto simp: msr_load_eq leaders_loaded_def loads_leader_def fun_eq_iff intro!: kcommon.equality)
  then show ?thesis using True by (simp add: load_leaders_def msr_load_eq cong: if_cong)
qed (simp add: load_leaders_def)

lemma leaders_loaded_Cons:
  "leaders_loaded (e\<lparr>online_cpus := cs\<rparr>) (s\<lparr>corestate := leaders_loaded (e\<lparr>online_cpus := [c]\<rparr>) s\<rparr>) =
   leaders_loaded (e\<lparr>online_cpus := c # cs\<rparr>) s"
  by (auto simp: leaders_loaded_def loads_leader_def core_in_module_def fun_eq_iff)

lemma load_leaders_list:
  "load_leaders (e\<lparr>online_cpus := cs\<rparr>) s =
     (if \<forall>c\<in>set cs. core_ok (int c) then Some (s\<lparr>corestate := leaders_loaded (e\<lparr>online_cpus := cs\<rparr>) s\<rparr>) else None)"
proof (induction cs arbitrary: s)
  case Nil
  have "s\<lparr>corestate := leaders_loaded (e\<lparr>online_cpus := []\<rparr>) s\<rparr> = s"
    by (auto simp: leaders_loaded_def loads_leader_def intro!: kcommon.equality)
  then show ?case by (simp add: load_leaders_def)
next
  case (Cons c cs)
  then show ?case by (simp add: load_leaders_Cons leaders_loaded_Cons)
qed

lemma load_leaders_eq:
  "load_leaders e s = (if \<forall>c\<in>set (online_cpus e). core_ok (int c) then Some (s\<lparr>corestate := leaders_loaded e s\<rparr>) else None)"
  using load_leaders_list [where e = e and cs = "online_cpus e" and s = s] by simp

text \<open>
  The tuning request. Whatever the aggressiveness sent by the user, the value in force
  afterwards is a tenth of it limited to 100, hence between 0 and 10; monitoring runs, and the
  timer with it, iff the request enables it with the value 1.
\<close>

theorem tuning_clamps_aggressiveness:
  assumes "rd_u32 req 8 = Some enable" and "rd_u32 req 16 = Some ag" and "api_tuning e req s = Some (0, t)"
  shows "aggr t = int (min (unat ag) 100 div 10) \<and> 0 \<le> aggr t \<and> aggr t \<le> 10 \<and>
    keep_running t = (enable = 1) \<and> timer_active t = (enable = 1)"
proof -
  let ?ag = "if ag > MAX_AGGR then MAX_AGGR else ag"
  have u: "unat ?ag = min (unat ag) 100" by (simp add: MAX_AGGR_def word_less_nat_alt)
  then have d: "unat (?ag div 10) = min (unat ag) 100 div 10" by (simp add: unat_div)
  then have sd: "sint (?ag div 10) = int (min (unat ag) 100 div 10)"
    by (subst sint_of_small) simp_all
  have "aggr t = sint (?ag div 10) \<and> keep_running t = (enable = 1) \<and> timer_active t = (enable = 1)"
    using assms by (auto simp: api_tuning_def Let_def load_leaders_eq split: if_splits bind_splits)
  then show ?thesis by (auto simp: sd)
qed

theorem tuning_clamps_aggressiveness_witness:
  "\<exists>t. api_tuning demo_kenv (replicate 8 0 @ le32 0 @ le32 2 @ le32 250) demo_kstate = Some (0, t) \<and> aggr t = 10"
proof -
  let ?req = "replicate 8 0 @ le32 0 @ le32 2 @ le32 250"
  have r: "rd_u32 ?req 8 = Some 0" "rd_u32 ?req 16 = Some 250" "rd_u32 ?req 12 = Some 2" by simp_all
  obtain t where t: "api_tuning demo_kenv ?req demo_kstate = Some (0, t)"
    unfolding api_tuning_def r Let_def by (simp add: demo_kenv_simps)
  show ?thesis using tuning_clamps_aggressiveness [OF r(1,2) t] t by simp
qed

end
