(* ===== verification/Kernel_Dpf.thy ===== *)
theory Kernel_Dpf
  imports Kernel_Api
begin

text \<open>
  \<open>kernelmod/kernel_dpf.c\<close>: the proc file of the module, the periodic work that runs on every
  enabled core, and loading and unloading. A write to the proc file copies the user buffer
  twice, first the header and then the whole message; the two arguments \<open>hdr\<close> and
  \<open>msg\<close> are what user memory held at each copy. The functions that
  \<open>smp_call_function_many\<close> runs on other cores are executed one after the other, in the
  order that \<open>smp_run\<close> gives.
\<close>

definition TIMER_INTERVAL_NS :: u64 where [const_simps]: "TIMER_INTERVAL_NS = 1000000000"
definition PROC_BUFFER_SIZE :: nat where [const_simps]: "PROC_BUFFER_SIZE = 1024"

definition set_boot_default_on_core :: "nat \<Rightarrow> kstate \<Rightarrow> kstate" where
  "set_boot_default_on_core c s =
     (let s = wrmsr c 0x1A4 0x00000004 0x00000000 s;
          s = wrmsr c 0x1320 0x070906C4 0x10883FEA s;
          s = wrmsr c 0x1321 0x34140001 0x00002511 s;
          s = wrmsr c 0x1322 0x4CD0046C 0x2807FFFF s;
          s = wrmsr c 0x1323 0xC0000000 0x0001F9C0 s;
          s = wrmsr c 0x1324 0x00000000 0x06000000 s;
          s = wrmsr c 0x1325 0x0005C138 0x09220620 s;
          s = wrmsr c 0x1326 0x00000000 0x3F000000 s
      in wrmsr c 0x1327 0x05920014 0x00000000 s)"

section \<open>The proc file\<close>

text \<open>\<open>proc_read\<close> returns the number of bytes or the error, the bytes copied, and the new
  file position.\<close>

definition proc_read :: "kenv \<Rightarrow> nat \<Rightarrow> nat \<Rightarrow> kstate \<Rightarrow> (int \<times> bytes \<times> nat) option" where
  "proc_read e count pos s =
     (case proc_buffer s of
        None \<Rightarrow> Some (0, [], pos)
      | Some buf \<Rightarrow>
          if proc_buffer_size s = 0 then Some (0, [], pos)
          else if pos \<ge> proc_buffer_size s then Some (0, [], pos)
          else let bytes_to_copy = min count (proc_buffer_size s - pos)
               in do { data \<leftarrow> rd_bytes buf pos bytes_to_copy;
                       if \<not> copy_ok e 2 then Some (- EFAULT, [], pos)
                       else Some (int bytes_to_copy, data, pos + bytes_to_copy) })"

definition dispatch :: "kenv \<Rightarrow> u32 \<Rightarrow> bytes \<Rightarrow> kstate \<Rightarrow> (int \<times> kstate) option" where
  "dispatch e type msg_data s =
     (if type = DPF_MSG_INIT then api_init e s
      else if type = DPF_MSG_CORE_RANGE then api_core_range e msg_data s
      else if type = DPF_MSG_CORE_WEIGHT then api_core_weight e msg_data s
      else if type = DPF_MSG_TUNING then api_tuning e msg_data s
      else if type = DPF_MSG_DDRBW_SET then api_ddrbw_set e msg_data s
      else if type = DPF_MSG_PMU_READ then api_pmu_read e msg_data s
      else if type = DPF_MSG_MSR_READ then api_msr_read e msg_data s
      else if type = DPF_MSG_DDR_CONFIG then api_ddr_config e msg_data s
      else if type = DPF_MSG_DDR_BW_READ then api_ddr_bw_read e s
      else if type = DPF_MSG_PMU_LOG_CONTROL then api_pmu_log_control e msg_data s
      else if type = DPF_MSG_PMU_LOG_STOP then api_pmu_log_stop e s
      else if type = DPF_MSG_PMU_LOG_READ then api_pmu_log_read e msg_data s
      else Some (- EINVAL, s))"

definition dpf_proc_write :: "kenv \<Rightarrow> bytes \<Rightarrow> bytes \<Rightarrow> kstate \<Rightarrow> (int \<times> kstate) option" where
  "dpf_proc_write e hdr msg s =
     (let count = length msg
      in if count < 8 \<or> count > MAX_MSG_SIZE then Some (- EINVAL, s)
         else let s = (kfree_proc_buffer s)\<lparr>proc_buffer := None, proc_buffer_size := 0\<rparr>
              in if \<not> copy_ok e 0 then Some (- EFAULT, s)
                 else do { type \<leftarrow> rd_u32 hdr 0;
                           if \<not> kmalloc_ok e 2 count then Some (- ENOMEM, s)
                           else let s = kmalloced s
                                in if \<not> copy_ok e 1 then Some (- EFAULT, kfreed s)
                                   else do { (ret, s) \<leftarrow> dispatch e type msg s;
                                             Some (if ret < 0 then ret else int count, kfreed s) } })"

section \<open>The periodic work\<close>

definition log_entry :: "nat \<Rightarrow> u64 \<Rightarrow> u64 arr \<Rightarrow> bytes" where
  "log_entry core_id timestamp pmu_values =
     le64 timestamp @ le32 (word_of_nat core_id) @ concat (map (\<lambda>i. le64 (pmu_values i)) [0..<K_PMU_COUNTERS])"

definition log_core :: "kenv \<Rightarrow> nat \<Rightarrow> kstate \<Rightarrow> kstate option" where
  "log_core e core_id s =
     (if pmu_logging_active s \<and> pmu_log_buffer s \<noteq> None
      then do { (_, s) \<leftarrow> api_pmu_log_append_data
                  (log_entry core_id (clock e core_id 0) (pmu_raw (corestate s core_id))) s;
                Some s }
      else Some s)"

definition idle_tick :: "int \<Rightarrow> kstate \<Rightarrow> kstate option" where
  "idle_tick core_id s =
     do { s \<leftarrow> upd_mab_core core_id (\<lambda>m. m\<lparr>mc_idle_counter := int32 (mc_idle_counter m + 1)\<rparr>) s;
          first \<leftarrow> mab_first_enabled_core (module_id s core_id) s;
          if core_id = first
          then do { s \<leftarrow> upd_mab_module (module_id s core_id)
                          (\<lambda>m. m\<lparr>mm_idle_counter := int32 (mm_idle_counter m + 1)\<rparr>) s;
                    md \<leftarrow> mab_module_at s (module_id s core_id);
                    if mm_idle_counter md > IDLE_THRESHOLD
                    then upd_mab_module (module_id s core_id)
                           (\<lambda>m. m\<lparr>mm_initialized := MAB_INIT_NOT_STARTED\<rparr>) s
                    else Some s }
          else Some s }"

text \<open>The result carries the leader that was elected.\<close>

definition active_tick :: "u32 arr \<Rightarrow> int \<Rightarrow> kstate \<Rightarrow> (int \<times> kstate) option" where
  "active_tick junk core_id s =
     do { s \<leftarrow> upd_mab_core core_id (\<lambda>m. m\<lparr>mc_idle_counter := 0\<rparr>) s;
          module_leader \<leftarrow> mab_first_active_core (module_id s core_id) s;
          s \<leftarrow> upd_mab_module (module_id s core_id) (\<lambda>m. m\<lparr>mm_idle_counter := 0\<rparr>) s;
          md \<leftarrow> mab_module_at s (module_id s core_id);
          if mm_initialized md = MAB_INIT_DONE
          then do { (_, s) \<leftarrow> mab_tuning junk core_id s; Some (module_leader, s) }
          else if core_id = module_leader
          then do { (_, s) \<leftarrow> mab_init_module_step core_id s; Some (module_leader, s) }
          else Some (module_leader, s) }"

text \<open>The three-way dispatch on the activity of the core, and the write-back of the leader's
  registers.\<close>

definition mab_dispatch :: "u32 arr \<Rightarrow> int \<Rightarrow> int \<Rightarrow> kstate \<Rightarrow> (int \<times> kstate) option" where
  "mab_dispatch junk core_id active s =
     (if active < 0 then Some (-1, s)
      else if active = 0 then map_option (\<lambda>s. (-1, s)) (idle_tick core_id s)
      else if active = 1 then active_tick junk core_id s
      else Some (-1, s))"

definition flush_msrs :: "nat \<Rightarrow> int \<Rightarrow> kstate \<Rightarrow> kstate option" where
  "flush_msrs core_id module_leader s =
     (if int core_id = module_leader
      then do { d \<leftarrow> is_msr_dirty (int core_id) s;
                if d = 1 then msr_update core_id (int core_id) s else Some s }
      else Some s)"

definition per_core_work :: "kenv \<Rightarrow> nat \<Rightarrow> kstate \<Rightarrow> kstate option" where
  "per_core_work e core_id s =
     do { c \<leftarrow> core_at s (int core_id);
          if core_disabled c \<noteq> 0 then Some s
          else do { let s = snd (pmu_update (pmc e) core_id (int core_id) s);
                    s \<leftarrow> log_core e core_id s;
                    (active, s) \<leftarrow> mab_core_is_active (clock e core_id 1) (int core_id) s;
                    (module_leader, s) \<leftarrow> mab_dispatch (stack_junk e core_id) (int core_id) active s;
                    flush_msrs core_id module_leader s } }"

fun work_on :: "kenv \<Rightarrow> nat list \<Rightarrow> kstate \<Rightarrow> kstate option" where
  "work_on e [] s = Some s"
| "work_on e (c # cs) s = do { s \<leftarrow> per_core_work e c s; work_on e cs s }"

definition monitor_work_func :: "kenv \<Rightarrow> kstate \<Rightarrow> kstate option" where
  "monitor_work_func e s =
     (let s = s\<lparr>work_pending := False\<rparr>
      in if \<not> keep_running s then Some s
         else if filter (enabled_cpus s) [0..<nat MAX_NUM_CORES] \<noteq> []
         then do { s \<leftarrow> per_core_work e (cpu e) s;
                   work_on e (smp_run e (cpu e) (enabled_cpus s)) s }
         else Some s)"

text \<open>The result says whether the timer is started again.\<close>

definition monitor_callback :: "kstate \<Rightarrow> bool \<times> kstate" where
  "monitor_callback s =
     (if \<not> keep_running s then (False, s\<lparr>timer_active := False\<rparr>)
      else (True, s\<lparr>work_pending := True\<rparr>))"

section \<open>Loading and unloading\<close>

text \<open>The globals as the module's image holds them before it is loaded: zero unless the source
  initialises them. \<open>hw\<close> is what the registers of the CPUs hold.\<close>

definition boot_kstate :: "(nat \<Rightarrow> nat \<Rightarrow> u64) \<Rightarrow> kstate" where
  "boot_kstate hw = kprim.extend (kddr.extend (kmab.extend (kcommon.extend
     \<lparr>sys_first_core = 0, sys_active_cores = 0,
      corestate = (\<lambda>_. \<lparr>pmu_raw = (\<lambda>_. 0), pmu_old = (\<lambda>_. 0), pf_msr = (\<lambda>_. 0), pf_msr_dirty = 0, core_disabled = 0\<rparr>),
      ddr_bw_target = 0, hwreg = hw\<rparr>
     (kmab.fields 0 0 (\<lambda>_. \<lparr>arms = (\<lambda>_. \<lparr>score = 0, last_score = 0\<rparr>), mc_active_arm = 0, mc_initialized = 0,
        mc_idle_counter = 0, time_old = 0\<rparr>) (\<lambda>_. \<lparr>mm_active_arm = 0, mm_initialized = 0, mm_idle_counter = 0\<rparr>)
        (\<lambda>_ _. 0)))
     (kddr.fields (word_of_int (-1)) 0 zero_ddr 0))
     (kprim.fields (\<lambda>_. 0) (\<lambda>_. 0) (\<lambda>_. 0) (\<lambda>_. 0) (\<lambda>_ _. 0) 0 0 (\<lambda>_. 0) (\<lambda>_. 0) 0 0))
     (kstate.fields False False False False 0 None 0 0 (\<lambda>_. False) None 0 0 False 0)"

lemmas boot_kstate_simps = boot_kstate_def kcommon.defs kmab.defs kddr.defs kprim.defs kstate.defs zero_ddr_def

definition dpf_module_init :: "kenv \<Rightarrow> kstate \<Rightarrow> int \<times> kstate" where
  "dpf_module_init e s =
     (let s = s\<lparr>corestate := (\<lambda>i. if int i < MAX_NUM_CORES
                                   then (corestate s i)\<lparr>core_disabled := 1\<rparr> else corestate s i)\<rparr>;
          s = fold set_boot_default_on_core (online_cpus e) s;
          s = fold configure_pmu_on_core (online_cpus e) s
      in if \<not> kmalloc_ok e 3 PROC_BUFFER_SIZE then (- ENOMEM, s\<lparr>proc_buffer := None\<rparr>)
         else let s = (kmalloced s)\<lparr>proc_buffer := Some (map (fresh_byte e) [0..<PROC_BUFFER_SIZE])\<rparr>
              in if \<not> proc_create_ok e then (- ENOMEM, kfreed s)
                 else let s = mab_setup_default_arms (s\<lparr>proc_entry := True\<rparr>);
                          s = s\<lparr>mab_cores := (\<lambda>i. if int i < MAX_NUM_CORES
                                  then (mab_cores s i)\<lparr>mc_initialized := MAB_INIT_NOT_STARTED\<rparr> else mab_cores s i),
                                mab_modules := (\<lambda>i. if int i < MAX_MODULES
                                  then (mab_modules s i)\<lparr>mm_initialized := MAB_INIT_NOT_STARTED\<rparr> else mab_modules s i)\<rparr>
                      in (0, s\<lparr>kt_period := TIMER_INTERVAL_NS\<rparr>))"

definition dpf_module_exit :: "kstate \<Rightarrow> kstate option" where
  "dpf_module_exit s =
     (let s = s\<lparr>keep_running := False, timer_active := False, work_pending := False, proc_entry := False\<rparr>;
          s = kfree_proc_buffer s;
          s = (if pmu_log_buffer s \<noteq> None
               then (kfreed s)\<lparr>pmu_log_buffer := None, pmu_log_buffer_size := 0,
                               pmu_log_data_size := 0, pmu_logging_active := False\<rparr>
               else s)
      in unmap_all s)"

section \<open>The proc file\<close>

lemma dispatch_kept:
  assumes "dispatch e type msg s = Some (ret, t)" and "res_ok s"
  shows "res_ok t \<and> heap_extra t = heap_extra s \<and> (0 \<le> ret \<longrightarrow> response_ok type t)"
  using assms
  by (auto simp: dispatch_def split: if_splits
      dest: h_init.kept h_range.kept h_weight.kept h_tuning.kept h_ddrbw.kept h_pmu.kept h_msr.kept h_ddr.kept
        h_bw.kept h_logctl.kept h_logstop.kept h_logread.kept)

lemma cleared_proc_buffer:
  "res_ok s \<Longrightarrow> res_ok ((kfree_proc_buffer s)\<lparr>proc_buffer := None, proc_buffer_size := 0\<rparr>)"
  "heap_extra ((kfree_proc_buffer s)\<lparr>proc_buffer := None, proc_buffer_size := 0\<rparr>) = heap_extra s"
  by (simp_all add: kfree_proc_buffer_def kfreed_def res_ok_def buffer_ok_def log_ok_def ddr_ok_def io_balanced_def
      windows_def num_ctrl_def heap_extra_def owned_def)

lemma proc_write_keeps:
  assumes "dpf_proc_write e hdr msg s = Some (ret, t)" and "res_ok s" and "heap_live s = owned s"
  shows "res_ok t \<and> heap_live t = owned t \<and>
    (0 \<le> ret \<longrightarrow> ret = int (length msg) \<and> (\<exists>kind. rd_u32 hdr 0 = Some kind \<and> response_ok kind t))"
proof -
  let ?s = "(kfree_proc_buffer s)\<lparr>proc_buffer := None, proc_buffer_size := 0\<rparr>"
  have s: "res_ok ?s" "heap_extra ?s = 0"
    using assms(2,3) by (simp_all add: cleared_proc_buffer, simp add: heap_extra_def)
  have bal: "heap_live u = owned u" if "heap_extra u = 0" for u using that by (simp add: heap_extra_def)
  show ?thesis
  proof (cases "length msg < 8 \<or> length msg > MAX_MSG_SIZE \<or> \<not> copy_ok e 0 \<or> \<not> kmalloc_ok e 2 (length msg) \<or> \<not> copy_ok e 1")
    case True
    then show ?thesis
      using assms s bal by (auto simp: dpf_proc_write_def Let_def split: if_splits bind_splits)
  next
    case False
    then obtain type r u where u: "rd_u32 hdr 0 = Some type" "dispatch e type msg (kmalloced ?s) = Some (r, u)"
        "ret = (if r < 0 then r else int (length msg))" "t = kfreed u"
      using assms(1) by (auto simp: dpf_proc_write_def Let_def split: bind_splits)
    have "res_ok u \<and> heap_extra u = 1 \<and> (0 \<le> r \<longrightarrow> response_ok type u)"
      using dispatch_kept [OF u(2)] s by simp
    moreover have "response_ok type (kfreed u) = response_ok type u"
      by (simp add: response_ok_def kfreed_def)
    ultimately show ?thesis
      using u bal [of t] by (auto split: if_splits)
  qed
qed

text \<open>
  Claim C5: a write to the proc file keeps the module's resources in order, whatever the user
  sends and whichever allocation or copy fails. Every block that was allocated is freed or owned
  by the response buffer or the log, the buffer sizes match the buffers, and the number of live
  register mappings is the number of windows recorded. When the write succeeds it consumed the
  whole message and left a response whose header has the type of the request and the length of
  the response.
\<close>

theorem proc_write_contract:
  assumes "dpf_proc_write e hdr msg s = Some (ret, t)" and "res_ok s" and "heap_live s = owned s"
  shows "res_ok t \<and> heap_live t = owned t \<and>
    (0 \<le> ret \<longrightarrow> ret = int (length msg) \<and> (\<exists>kind. rd_u32 hdr 0 = Some kind \<and> response_ok kind t))"
  using proc_write_keeps [OF assms] by blast

lemma demo_res: "res_ok demo_kstate" "heap_live demo_kstate = owned demo_kstate"
proof -
  have "i \<in> windows demo_kstate \<longleftrightarrow> i = 0 \<or> i = 1" for i
    by (auto simp: windows_def demo_kstate_simps MAX_NUM_DDR_CONTROLLERS_def split: if_splits)
  then have "windows demo_kstate = {0, 1}" by blast
  then show "res_ok demo_kstate"
    by (simp add: res_ok_def buffer_ok_def log_ok_def ddr_ok_def io_balanced_def)
       (simp add: demo_kstate_simps num_ctrl_def const_simps)
  show "heap_live demo_kstate = owned demo_kstate" by (simp add: owned_def demo_kstate_simps)
qed

theorem proc_write_contract_witness:
  "\<exists>ret t. dpf_proc_write demo_kenv (le32 0 @ le32 0) (le32 0 @ le32 0) demo_kstate = Some (ret, t) \<and>
     heap_live t = owned t \<and> ret = 8 \<and> response_ok DPF_MSG_INIT t"
proof -
  have "\<exists>ret t. dpf_proc_write demo_kenv (le32 0 @ le32 0) (le32 0 @ le32 0) demo_kstate = Some (ret, t) \<and> 0 \<le> ret"
    by (simp add: dpf_proc_write_def dispatch_def api_init_def const_simps demo_kenv_simps)
  then show ?thesis
    using proc_write_contract [OF _ demo_res] by (fastforce simp: DPF_MSG_INIT_def)
qed

text \<open>
  Reads of the response compose. With a consistent buffer and successful copies, two
  consecutive reads deliver exactly the bytes, and leave the file position, that one read of the
  combined length would: the user can fetch a response in pieces of any size, and a read at the
  end returns 0.
\<close>

theorem proc_read_composes:
  assumes "buffer_ok s" and "copy_ok e 2"
  shows "\<exists>d1 p1 d2 p2. proc_read e m pos s = Some (int (length d1), d1, p1) \<and>
    proc_read e n p1 s = Some (int (length d2), d2, p2) \<and>
    proc_read e (m + n) pos s = Some (int (length (d1 @ d2)), d1 @ d2, p2) \<and>
    (proc_buffer_size s \<le> pos \<longrightarrow> d1 = [] \<and> p1 = pos)"
proof (cases "proc_buffer s")
  case None
  then show ?thesis by (simp add: proc_read_def)
next
  case (Some b)
  let ?N = "proc_buffer_size s"
  have N: "?N \<le> length b" using assms(1) Some by (simp add: buffer_ok_def)
  have r: "proc_read e k p s = (if ?N \<le> p then Some (0, [], p)
      else Some (int (min k (?N - p)), take (min k (?N - p)) (drop p b), p + min k (?N - p)))" for k p
    using Some N assms(2) by (auto simp: proc_read_def rd_bytes_def Let_def)
  show ?thesis
  proof (cases "?N \<le> pos")
    case True
    then show ?thesis by (simp add: r)
  next
    case False
    define i j where "i = min m (?N - pos)" and "j = min (m + n) (?N - pos)"
    then have ij: "i \<le> j" "pos + j \<le> length b" "?N \<le> pos + i \<Longrightarrow> j = i"
        "\<not> ?N \<le> pos + i \<Longrightarrow> min n (?N - (pos + i)) = j - i"
      using False N by linarith+
    have one: "proc_read e m pos s = Some (int i, take i (drop pos b), pos + i)"
        "proc_read e (m + n) pos s = Some (int j, take j (drop pos b), pos + j)"
      using False by (simp_all add: r i_def j_def)
    have two: "proc_read e n (pos + i) s = Some (int (j - i), take (j - i) (drop (pos + i) b), pos + j)"
      using ij by (simp add: r)
    have "take j (drop pos b) = take i (drop pos b) @ take (j - i) (drop (pos + i) b)"
      using take_add [of i "j - i" "drop pos b"] ij(1) by (simp add: add.commute)
    then have "take i (drop pos b) @ take (j - i) (drop (pos + i) b) = take j (drop pos b)" ..
    then show ?thesis
      using one two ij(1,2) False
      by (intro exI [of _ "take i (drop pos b)"] exI [of _ "pos + i"] exI [of _ "take (j - i) (drop (pos + i) b)"]
          exI [of _ "pos + j"]) simp
  qed
qed

theorem proc_read_composes_witness:
  "proc_read demo_kenv 1 0 (demo_kstate\<lparr>proc_buffer := Some [7, 8, 9], proc_buffer_size := 3\<rparr>) = Some (1, [7], 1) \<and>
   (\<exists>d p. proc_read demo_kenv 5 1 (demo_kstate\<lparr>proc_buffer := Some [7, 8, 9], proc_buffer_size := 3\<rparr>) = Some (int (length d), d, p) \<and>
     proc_read demo_kenv 6 0 (demo_kstate\<lparr>proc_buffer := Some [7, 8, 9], proc_buffer_size := 3\<rparr>) = Some (int (length ([7] @ d)), [7] @ d, p))"
proof -
  let ?s = "demo_kstate\<lparr>proc_buffer := Some [7, 8, 9], proc_buffer_size := 3\<rparr>"
  have s: "buffer_ok ?s" "copy_ok demo_kenv 2"
    by (simp_all add: buffer_ok_def demo_kenv_simps)
  have first: "proc_read demo_kenv 1 0 ?s = Some (1, [7], 1)"
    by (simp add: proc_read_def rd_bytes_def demo_kenv_simps)
  then show ?thesis using proc_read_composes [OF s, of 1 0 5] by auto
qed

section \<open>Every run keeps the resources in order\<close>

lemma resources_upd_mab:
  "upd_mab_core i f s = Some t \<Longrightarrow> resources t = resources s"
  "upd_mab_module m g s = Some t \<Longrightarrow> resources t = resources s"
  "upd_arm i a h s = Some t \<Longrightarrow> resources t = resources s"
  by (auto simp: upd_mab_core_def upd_mab_module_def upd_arm_def resources_def split: bind_splits)

lemma resources_loop:
  assumes "for_range lo hi body s = Some t" and "\<And>j u u'. body j u = Some u' \<Longrightarrow> resources u' = resources u"
  shows "resources t = resources s"
  using for_range_invariant [OF assms(1), of "\<lambda>z. resources z = resources s"] assms(2) by fastforce

lemma resources_apply: "mab_apply_msr_config i a s = Some (r, t) \<Longrightarrow> resources t = resources s"
  by (auto simp: mab_apply_msr_config_def msr_set_dirty_def split: if_splits bind_splits dest!: resources_upd_core)

lemma resources_active: "mab_core_is_active now i s = Some (r, t) \<Longrightarrow> resources t = resources s"
  by (auto simp: mab_core_is_active_def Let_def split: if_splits bind_splits dest!: resources_upd_mab(1))

lemma resources_fresh: "mab_module_fresh_scores m a s = Some t \<Longrightarrow> resources t = resources s"
  unfolding mab_module_fresh_scores_def
  by (erule resources_loop) (auto split: if_splits bind_splits dest!: resources_upd_mab(3))

lemma resources_scores: "mab_tuning_scores i a s = Some t \<Longrightarrow> resources t = resources s"
  unfolding mab_tuning_scores_def
  by (auto split: bind_splits dest!: resources_upd_mab(3) resources_loop) (auto split: if_splits dest!: resources_upd_mab(3))

lemma resources_tuning: "mab_tuning junk i s = Some (r, t) \<Longrightarrow> resources t = resources s"
  by (auto simp: mab_tuning_def Let_def split: bind_splits if_splits
      dest!: resources_scores resources_upd_mab(2) resources_apply)

lemma resources_scan: "mab_init_module_step i s = Some (r, t) \<Longrightarrow> resources t = resources s"
  by (auto simp: mab_init_module_step_def Let_def split: bind_splits if_splits
      dest!: resources_fresh resources_upd_mab(2,3) resources_apply)

lemma resources_idle: "idle_tick i s = Some t \<Longrightarrow> resources t = resources s"
  by (auto simp: idle_tick_def split: bind_splits if_splits dest!: resources_upd_mab(1,2))

lemma resources_active_tick: "active_tick junk i s = Some (r, t) \<Longrightarrow> resources t = resources s"
  by (auto simp: active_tick_def split: bind_splits if_splits
      dest!: resources_upd_mab(1,2) resources_tuning resources_scan)

lemma resources_msr_update: "msr_update c i s = Some t \<Longrightarrow> resources t = resources s"
  by (auto simp: msr_update_def wrmsr64_def Let_def split: bind_splits dest!: resources_upd_core)

definition balanced :: "kstate \<Rightarrow> bool" where
  "balanced s \<longleftrightarrow> res_ok s \<and> heap_live s = owned s"

lemma balanced_cong: "resources t = resources s \<Longrightarrow> balanced t = balanced s"
  using resources_cong(1,2) [of t s] by (auto simp: balanced_def heap_extra_def resources_def owned_def)

lemma balanced_append: "api_pmu_log_append_data d s = Some (r, t) \<Longrightarrow> balanced s \<Longrightarrow> balanced t"
  by (auto simp: api_pmu_log_append_data_def balanced_def res_ok_def buffer_ok_def log_ok_def ddr_ok_def io_balanced_def
      windows_def num_ctrl_def owned_def blit_def split: if_splits option.splits bind_splits)

lemma balanced_log_core: "log_core e c s = Some t \<Longrightarrow> balanced s \<Longrightarrow> balanced t"
  by (auto simp: log_core_def split: if_splits bind_splits dest: balanced_append)

lemma resources_dispatch: "mab_dispatch junk i a s = Some (l, t) \<Longrightarrow> resources t = resources s"
  by (auto simp: mab_dispatch_def split: if_splits dest!: resources_active_tick resources_idle)

lemma resources_flush: "flush_msrs c l s = Some t \<Longrightarrow> resources t = resources s"
  by (auto simp: flush_msrs_def split: if_splits bind_splits dest!: resources_msr_update)

lemma balanced_per_core_work:
  assumes "per_core_work e c s = Some t" and "balanced s"
  shows "balanced t"
proof (cases "core_disabled (corestate s c) = 0 \<and> core_ok (int c)")
  case False
  then show ?thesis using assms by (cases "core_ok (int c)") (auto simp: per_core_work_def)
next
  case True
  then obtain u a v l w where w: "log_core e c (snd (pmu_update (pmc e) c (int c) s)) = Some u"
      "mab_core_is_active (clock e c 1) (int c) u = Some (a, v)"
      "mab_dispatch (stack_junk e c) (int c) a v = Some (l, w)" "flush_msrs c l w = Some t"
    using assms(1) by (auto simp: per_core_work_def bind_eq_Some_conv)
  have "balanced (snd (pmu_update (pmc e) c (int c) s))"
    using assms(2) balanced_cong [OF resources_pmu_update] by blast
  then have "balanced u" by (rule balanced_log_core [OF w(1)])
  moreover have "resources t = resources u"
    using resources_active [OF w(2)] resources_dispatch [OF w(3)] resources_flush [OF w(4)] by simp
  ultimately show ?thesis using balanced_cong by blast
qed

lemma balanced_work_on: "work_on e cs s = Some t \<Longrightarrow> balanced s \<Longrightarrow> balanced t"
  by (induction cs arbitrary: s) (auto split: bind_splits dest: balanced_per_core_work)

lemma balanced_flags [simp]:
  "balanced (s\<lparr>work_pending := b\<rparr>) = balanced s" "balanced (s\<lparr>timer_active := b\<rparr>) = balanced s"
  by (rule balanced_cong, simp add: resources_def)+

lemma balanced_work: "monitor_work_func e s = Some t \<Longrightarrow> balanced s \<Longrightarrow> balanced t"
  by (auto simp: monitor_work_func_def Let_def split: if_splits bind_splits
      dest!: balanced_work_on balanced_per_core_work)

lemma balanced_write:
  assumes "dpf_proc_write e hdr msg s = Some (ret, t)" and "balanced s"
  shows "balanced t"
  using proc_write_keeps [OF assms(1)] assms(2) by (simp add: balanced_def)

text \<open>What can happen to the loaded module: a write to the proc file, the timer, the work that the
  timer queued, in any order and with any behaviour of the kernel and the hardware.\<close>

inductive kstep :: "kstate \<Rightarrow> kstate \<Rightarrow> bool" where
  request: "dpf_proc_write e hdr msg s = Some (ret, t) \<Longrightarrow> kstep s t"
| timer: "timer_active s \<Longrightarrow> monitor_callback s = (again, t) \<Longrightarrow> kstep s t"
| work: "work_pending s \<Longrightarrow> monitor_work_func e s = Some t \<Longrightarrow> kstep s t"

inductive running :: "kstate \<Rightarrow> bool" where
  loaded: "dpf_module_init e (boot_kstate hw) = (0, t) \<Longrightarrow> running t"
| step: "running s \<Longrightarrow> kstep s t \<Longrightarrow> running t"

inductive_cases kstepE: "kstep s t"

lemma balanced_kstep: "kstep s t \<Longrightarrow> balanced s \<Longrightarrow> balanced t"
  by (erule kstepE) (auto simp: monitor_callback_def dest: balanced_write balanced_work split: if_splits)

lemma resources_boot_default [simp]: "resources (set_boot_default_on_core c s) = resources s"
  by (simp add: set_boot_default_on_core_def)

lemma resources_boot_state:
  "resources (fold configure_pmu_on_core cs (fold set_boot_default_on_core cs' (s\<lparr>corestate := c\<rparr>))) = resources s"
  by (simp add: resources_fold)

lemma balanced_boot: "balanced (boot_kstate hw)"
  by (simp add: balanced_def res_ok_def buffer_ok_def log_ok_def ddr_ok_def io_balanced_def windows_def num_ctrl_def
      owned_def boot_kstate_simps MAX_NUM_DDR_CONTROLLERS_def)

lemma balanced_loaded:
  assumes "dpf_module_init e s = (0, t)" and "balanced s" and "proc_buffer s = None" and "proc_buffer_size s = 0"
  shows "balanced t"
proof -
  define u where "u = fold configure_pmu_on_core (online_cpus e) (fold set_boot_default_on_core (online_cpus e)
     (s\<lparr>corestate := (\<lambda>i. if int i < MAX_NUM_CORES then (corestate s i)\<lparr>core_disabled := 1\<rparr> else corestate s i)\<rparr>))"
  have "resources u = resources s" unfolding u_def by (rule resources_boot_state)
  then have u: "balanced u" "proc_buffer u = None" "proc_buffer_size u = 0"
    using assms(2-4) balanced_cong [of u s] by (simp_all, simp_all add: resources_def)
  have t: "resources t = resources ((kmalloced u)\<lparr>proc_buffer := Some (map (fresh_byte e) [0..<PROC_BUFFER_SIZE])\<rparr>)"
    using assms(1) unfolding dpf_module_init_def u_def [symmetric] Let_def
    by (auto simp: resources_def mab_setup_default_arms_def split: if_splits)
  show ?thesis
    unfolding balanced_cong [OF t] using u
    by (simp add: balanced_def res_ok_def buffer_ok_def log_ok_def ddr_ok_def io_balanced_def windows_def
        num_ctrl_def owned_def kmalloced_def)
qed

lemma balanced_running: "running s \<Longrightarrow> balanced s"
proof (induction rule: running.induct)
  case (loaded e hw t)
  then show ?case
    using balanced_boot by (auto intro: balanced_loaded simp: boot_kstate_simps)
next
  case (step s t)
  then show ?case by (blast intro: balanced_kstep)
qed

text \<open>
  Claim C2: no run of the module leaks or corrupts its resources. In every state that the module
  can reach after a successful load, by any sequence of requests (valid or not), timer interrupts
  and work, with any allocation, copy or mapping failing at any time, the allocated blocks are
  exactly the ones that the response pointer and the log pointer hold, the sizes kept for them
  are right, the log's fill level is within its buffer, the controllers in use are within the
  table, and the number of live register mappings is the number of windows recorded.
\<close>

theorem running_keeps_resources:
  assumes "running s"
  shows "heap_live s = owned s \<and> buffer_ok s \<and> log_ok s \<and> io_live s = int (card (windows s)) \<and>
    num_ctrl s \<le> MAX_NUM_DDR_CONTROLLERS"
  using balanced_running [OF assms] by (simp add: balanced_def res_ok_def ddr_ok_def io_balanced_def)

lemma demo_load: "running (snd (dpf_module_init demo_kenv (boot_kstate hw)))"
  by (rule running.loaded [of demo_kenv hw]) (simp add: dpf_module_init_def Let_def demo_kenv_simps)

theorem running_keeps_resources_witness:
  "heap_live (snd (dpf_module_init demo_kenv (boot_kstate (\<lambda>_ _. 0)))) =
   owned (snd (dpf_module_init demo_kenv (boot_kstate (\<lambda>_ _. 0))))"
  using running_keeps_resources [OF demo_load] by blast

lemma module_exit_eq:
  assumes "balanced s"
  shows "\<exists>t. dpf_module_exit s = Some t \<and> io_live t = 0 \<and> heap_live t = 0 \<and> windows t = {} \<and>
    \<not> keep_running t \<and> \<not> timer_active t \<and> \<not> work_pending t \<and> \<not> proc_entry t \<and> pmu_log_buffer t = None"
proof -
  let ?stop = "s\<lparr>keep_running := False, timer_active := False, work_pending := False, proc_entry := False\<rparr>"
  define u where "u = (let s = kfree_proc_buffer ?stop
     in if pmu_log_buffer s \<noteq> None
        then (kfreed s)\<lparr>pmu_log_buffer := None, pmu_log_buffer_size := 0, pmu_log_data_size := 0,
                        pmu_logging_active := False\<rparr> else s)"
  have flags: "\<not> keep_running u \<and> \<not> timer_active u \<and> \<not> work_pending u \<and> \<not> proc_entry u \<and> pmu_log_buffer u = None"
    by (simp add: u_def Let_def kfree_proc_buffer_def kfreed_def)
  have "heap_live u = 0"
    using assms by (simp add: u_def Let_def kfree_proc_buffer_def kfreed_def balanced_def owned_def)
  moreover have "ddr_ok u"
    using assms by (simp add: u_def Let_def kfree_proc_buffer_def kfreed_def balanced_def res_ok_def ddr_ok_def
        io_balanced_def windows_def num_ctrl_def)
  moreover obtain M where M: "unmap_all u = Some (with_maps M 0 u)" "\<forall>k. int k < MAX_NUM_DDR_CONTROLLERS \<longrightarrow> M k = 0"
    using unmap_all_eq [OF \<open>ddr_ok u\<close>] by blast
  moreover have "dpf_module_exit s = unmap_all u" by (simp add: dpf_module_exit_def u_def Let_def)
  ultimately show ?thesis
    using flags by (simp add: with_maps_def windows_def)
qed

text \<open>
  Claim C3: unloading releases everything. From every state that the running module can reach,
  unloading returns, and leaves no allocated block, no register mapping, no timer, no queued work
  and no proc entry.
\<close>

theorem unload_releases_everything:
  assumes "running s"
  shows "\<exists>t. dpf_module_exit s = Some t \<and> io_live t = 0 \<and> heap_live t = 0 \<and> windows t = {} \<and>
    \<not> keep_running t \<and> \<not> timer_active t \<and> \<not> work_pending t \<and> \<not> proc_entry t \<and> pmu_log_buffer t = None"
  by (rule module_exit_eq) (rule balanced_running [OF assms])

theorem unload_releases_everything_witness:
  "\<exists>t. dpf_module_exit (snd (dpf_module_init demo_kenv (boot_kstate (\<lambda>_ _. 0)))) = Some t \<and> heap_live t = 0 \<and> io_live t = 0"
  using unload_releases_everything [OF demo_load] by blast

section \<open>One tick of one core\<close>

definition module_of :: "nat \<Rightarrow> kstate \<Rightarrow> nat" where
  "module_of c s = nat (module_id s (int c))"

text \<open>What a tick on a core may do to its module: no other module changes, and its own either
  stays in its phase or takes one transition.\<close>

definition module_ticked :: "nat \<Rightarrow> kstate \<Rightarrow> kstate \<Rightarrow> bool" where
  "module_ticked c s t \<longleftrightarrow>
     module_wf (mab_modules t (module_of c s)) \<and>
     (phase_of (mab_modules t (module_of c s)) = phase_of (mab_modules s (module_of c s)) \<or>
      phase_step (phase_of (mab_modules s (module_of c s))) (phase_of (mab_modules t (module_of c s)))) \<and>
     (\<forall>k. k \<noteq> module_of c s \<longrightarrow> mab_modules t k = mab_modules s k)"

definition placed :: "nat \<Rightarrow> kstate \<Rightarrow> bool" where
  "placed c s \<longleftrightarrow> 0 \<le> sys_first_core s \<and> sys_first_core s \<le> int c \<and> int c < MAX_NUM_CORES \<and>
     module_in_bounds s (module_id s (int c)) \<and> module_wf (mab_modules s (module_of c s))"

lemma zdiv_less: "x < k * 4 \<Longrightarrow> x div 4 < k" for x k :: int
  by linarith

lemma placed_module:
  assumes "placed c s"
  shows "core_ok (int c)" "module_ok (module_id s (int c))" "int c \<in> module_cores s (module_id s (int c))"
proof -
  have m: "module_id s (int c) = (int c - sys_first_core s) div 4"
    using assms by (simp add: module_id_def placed_def signed_divide_int_def sgn_if)
  have b: "0 \<le> sys_first_core s" "sys_first_core s \<le> int c" "int c < 512"
    using assms by (auto simp: placed_def MAX_NUM_CORES_def)
  show "core_ok (int c)" using b by (simp add: core_ok_def MAX_NUM_CORES_def)
  show "module_ok (module_id s (int c))" unfolding m module_ok_def using b by (simp add: mab_consts pos_imp_zdiv_nonneg_iff zdiv_less [of _ 128])
  show "int c \<in> module_cores s (module_id s (int c))"
    unfolding m module_cores_def module_start_def mab_consts atLeastLessThan_iff by linarith
qed

lemma phase_of_idle [simp]:
  "phase_of (d\<lparr>mm_idle_counter := n\<rparr>) = phase_of d" "module_wf (d\<lparr>mm_idle_counter := n\<rparr>) = module_wf d"
  "phase_of (d\<lparr>mm_initialized := MAB_INIT_NOT_STARTED\<rparr>) = Fresh"
  "module_wf d \<Longrightarrow> module_wf (d\<lparr>mm_initialized := MAB_INIT_NOT_STARTED\<rparr>)"
  by (simp_all add: phase_of_def module_wf_def)

lemma module_id_updates [simp]:
  "module_id (s\<lparr>mab_cores := C\<rparr>) i = module_id s i" "module_id (s\<lparr>mab_modules := M\<rparr>) i = module_id s i"
  "module_id (s\<lparr>corestate := K\<rparr>) i = module_id s i"
  for s :: kstate
  by (simp_all add: module_id_def)

lemma module_tickedI:
  assumes "mab_modules t = (mab_modules s)(module_of c s := d)" and "module_wf d"
    and "phase_of d = phase_of (mab_modules s (module_of c s)) \<or> phase_step (phase_of (mab_modules s (module_of c s))) (phase_of d)"
  shows "module_ticked c s t"
  using assms by (simp add: module_ticked_def)

lemma idle_tick_eq:
  assumes "placed c s"
  shows "\<exists>C d. idle_tick (int c) s = Some (s\<lparr>mab_cores := C, mab_modules := (mab_modules s)(module_of c s := d)\<rparr>) \<and>
    module_wf d \<and> (phase_of d = phase_of (mab_modules s (module_of c s)) \<or> phase_of d = Fresh)"
proof -
  note ok = placed_module(1,2) [OF assms]
  let ?C = "(mab_cores s)(c := (mab_cores s c)\<lparr>mc_idle_counter := int32 (mc_idle_counter (mab_cores s c) + 1)\<rparr>)"
    and ?d = "mab_modules s (module_of c s)"
  let ?n = "int32 (mm_idle_counter ?d + 1)"
  have wf: "module_wf ?d" using assms by (simp add: placed_def)
  have "mab_first_enabled_core (module_id s (int c)) (s\<lparr>mab_cores := ?C\<rparr>) \<noteq> None"
    using assms by (subst mab_first_enabled_core_eq) (simp_all add: placed_def module_in_bounds_def module_start_def)
  then obtain f where f: "mab_first_enabled_core (module_id s (int c)) (s\<lparr>mab_cores := ?C\<rparr>) = Some f" by blast
  consider "f \<noteq> int c" | "f = int c" "?n \<le> IDLE_THRESHOLD" | "f = int c" "\<not> ?n \<le> IDLE_THRESHOLD" by blast
  then show ?thesis
  proof cases
    case 1
    then have "idle_tick (int c) s = Some (s\<lparr>mab_cores := ?C, mab_modules := (mab_modules s)(module_of c s := ?d)\<rparr>)"
      using ok f by (simp add: idle_tick_def)
    then show ?thesis using wf by blast
  next
    case 2
    then have "idle_tick (int c) s =
        Some (s\<lparr>mab_cores := ?C, mab_modules := (mab_modules s)(module_of c s := ?d\<lparr>mm_idle_counter := ?n\<rparr>)\<rparr>)"
      using ok f by (simp add: idle_tick_def module_of_def)
    moreover have "module_wf (?d\<lparr>mm_idle_counter := ?n\<rparr>)" "phase_of (?d\<lparr>mm_idle_counter := ?n\<rparr>) = phase_of ?d"
      using wf by simp_all
    ultimately show ?thesis by blast
  next
    case 3
    let ?e = "?d\<lparr>mm_idle_counter := ?n, mm_initialized := MAB_INIT_NOT_STARTED\<rparr>"
    have "idle_tick (int c) s = Some (s\<lparr>mab_cores := ?C, mab_modules := (mab_modules s)(module_of c s := ?e)\<rparr>)"
      using ok f 3 by (simp add: idle_tick_def module_of_def)
    moreover have "module_wf ?e" "phase_of ?e = Fresh"
      using wf by (simp_all add: module_wf_def phase_of_def)
    ultimately show ?thesis by blast
  qed
qed

text \<open>The register image of a core is that of an arm, and marked for writing.\<close>

definition image_of_arm :: "nat \<Rightarrow> int \<Rightarrow> kstate \<Rightarrow> bool" where
  "image_of_arm c a s \<longleftrightarrow> pf_msr_dirty (corestate s c) = 1 \<and>
     (\<forall>k < NR_OF_MSR. pf_msr (corestate s c) k = mab_arm_configs s (nat a) k)"

definition peers_scorable :: "nat \<Rightarrow> kstate \<Rightarrow> bool" where
  "peers_scorable c s \<longleftrightarrow> (\<forall>i\<in>active_set s (module_id s (int c)). i \<noteq> int c \<longrightarrow> scorable s i)"

lemma tuned_tick:
  assumes "module_wf (mab_modules u (module_of c u))" and "mm_initialized (mab_modules u (module_of c u)) = MAB_INIT_DONE"
  shows "module_ticked c u (tuned junk (int c) u)"
    and "phase_of (mab_modules (tuned junk (int c) u) (module_of c u)) \<noteq> phase_of (mab_modules u (module_of c u)) \<Longrightarrow>
      int c = least_or_none (active_set u (module_id u (int c))) \<and>
      image_of_arm c (mm_active_arm (mab_modules (tuned junk (int c) u) (module_of c u))) (tuned junk (int c) u)"
proof -
  show "module_ticked c u (tuned junk (int c) u)"
    using tuned_phase [of u "int c" junk] assms by (auto simp: module_ticked_def module_of_def modules_tuned)
next
  assume "phase_of (mab_modules (tuned junk (int c) u) (module_of c u)) \<noteq> phase_of (mab_modules u (module_of c u))"
  then show "int c = least_or_none (active_set u (module_id u (int c))) \<and>
      image_of_arm c (mm_active_arm (mab_modules (tuned junk (int c) u) (module_of c u))) (tuned junk (int c) u)"
    by (auto simp: tuned_def Let_def module_of_def image_of_arm_def armed_image [where i = "int c", simplified] split: if_splits)
qed

lemma scanned_tick:
  assumes "module_wf (mab_modules u (module_of c u))" and "mm_initialized (mab_modules u (module_of c u)) \<noteq> MAB_INIT_DONE"
  shows "module_ticked c u (scanned u (int c))"
    and "image_of_arm c (mm_active_arm (mab_modules (scanned u (int c)) (module_of c u))) (scanned u (int c))"
  using scanned_phase [of u "int c"] scanned_image [of u "int c"] assms
  by (auto simp: module_ticked_def module_of_def modules_scanned image_of_arm_def)

lemma active_set_cong:
  assumes "sys_first_core t = sys_first_core s" "\<And>i. core_disabled (corestate t i) = core_disabled (corestate s i)"
    "\<And>i. mc_idle_counter (mab_cores t i) = mc_idle_counter (mab_cores s i)"
  shows "active_set t m = active_set s m"
  using assms by (simp add: active_set_def module_cores_def module_start_def participates_def enabled_def)

text \<open>The state in which an active core hands over to the bandit.\<close>

definition awake :: "nat \<Rightarrow> kstate \<Rightarrow> kstate" where
  "awake c s = s\<lparr>mab_cores := (mab_cores s)(c := (mab_cores s c)\<lparr>mc_idle_counter := 0\<rparr>),
     mab_modules := (mab_modules s)(module_of c s := (mab_modules s (module_of c s))\<lparr>mm_idle_counter := 0\<rparr>)\<rparr>"

lemma awake_frame [simp]:
  "corestate (awake c s) = corestate s" "hwreg (awake c s) = hwreg s" "mab_arm_configs (awake c s) = mab_arm_configs s"
  "sys_first_core (awake c s) = sys_first_core s" "module_id (awake c s) i = module_id s i"
  "module_of c' (awake c s) = module_of c' s"
  "mab_modules (awake c s) (module_of c s) = (mab_modules s (module_of c s))\<lparr>mm_idle_counter := 0\<rparr>"
  "k \<noteq> module_of c s \<Longrightarrow> mab_modules (awake c s) k = mab_modules s k"
  "mc_idle_counter (mab_cores (awake c s) j) = (if j = c then 0 else mc_idle_counter (mab_cores s j))"
  by (simp_all add: awake_def module_id_def module_of_def)

lemma scorable_awake [simp]: "scorable (awake c s) i = scorable s i"
  by (simp add: scorable_def score_cycles_def)

lemma awake_placed [simp]: "placed c (awake c s) = placed c s"
  by (simp add: placed_def module_in_bounds_def module_start_def)

lemma awake_ticked: "module_ticked c (awake c s) t \<Longrightarrow> module_ticked c s t"
  by (simp add: module_ticked_def)

lemma awake_scorable:
  assumes "peers_scorable c s" and "scorable s (int c)" and "placed c s"
  shows "module_scorable (awake c s) (module_id s (int c))"
  unfolding module_scorable_def
proof
  fix i
  assume i: "i \<in> active_set (awake c s) (module_id s (int c))"
  show "scorable (awake c s) i"
  proof (cases "i = int c")
    case True
    then show ?thesis using assms(2) by simp
  next
    case False
    have "0 \<le> i"
      using i assms(3) by (simp add: active_set_def module_cores_def placed_def module_in_bounds_def module_start_def)
    then have "nat i \<noteq> c" using False by auto
    then have "i \<in> active_set s (module_id s (int c))"
      using i by (auto simp: active_set_def module_cores_def module_start_def participates_def enabled_def)
    then show ?thesis using assms(1) False by (simp add: peers_scorable_def)
  qed
qed

lemma active_tick_eq:
  assumes "placed c s" and "peers_scorable c s" and "scorable s (int c)"
  defines "u \<equiv> awake c s" and "l \<equiv> least_or_none (active_set (awake c s) (module_id s (int c)))"
  shows "active_tick junk (int c) s = Some (l,
    if mm_initialized (mab_modules s (module_of c s)) = MAB_INIT_DONE then tuned junk (int c) u
    else if int c = l then scanned u (int c) else u)"
proof -
  let ?v = "s\<lparr>mab_cores := (mab_cores s)(c := (mab_cores s c)\<lparr>mc_idle_counter := 0\<rparr>)\<rparr>"
  note ok = placed_module [OF assms(1)]
  have b: "module_in_bounds ?v (module_id s (int c))" "module_in_bounds u (module_id s (int c))"
    using assms(1) by (simp_all add: u_def placed_def module_in_bounds_def module_start_def)
  have "active_set ?v (module_id s (int c)) = active_set u (module_id s (int c))"
    unfolding u_def by (rule active_set_cong) simp_all
  then have l: "mab_first_active_core (module_id s (int c)) ?v = Some l"
    using b(1) by (simp add: mab_first_active_core_eq l_def u_def)
  have wf: "arm_ok (mm_active_arm (mab_modules s (module_of c s)))" using assms(1) by (simp add: placed_def module_wf_def)
  have tuning: "mab_tuning junk (int c) u = Some (0, tuned junk (int c) u)"
    using ok b wf assms(3) by (intro mab_tuning_eq) (simp_all add: u_def flip: module_of_def)
  have scan: "mab_init_module_step (int c) u = Some (0, scanned u (int c))"
    using ok b wf awake_scorable [OF assms(2,3,1)]
    by (intro mab_init_module_step_eq) (simp_all add: u_def flip: module_of_def)
  have u: "u = ?v\<lparr>mab_modules := (mab_modules s)(module_of c s := (mab_modules s (module_of c s))\<lparr>mm_idle_counter := 0\<rparr>)\<rparr>"
    by (simp add: u_def awake_def)
  have "active_tick junk (int c) s =
    (if mm_initialized (mab_modules u (module_of c s)) = MAB_INIT_DONE
     then do { (_, s) \<leftarrow> mab_tuning junk (int c) u; Some (l, s) }
     else if int c = l then do { (_, s) \<leftarrow> mab_init_module_step (int c) u; Some (l, s) } else Some (l, u))"
    using ok l by (simp add: active_tick_def u flip: module_of_def)
  then show ?thesis unfolding tuning scan by (simp add: u_def)
qed

text \<open>Two states that differ in the log at most.\<close>

definition log_only :: "kstate \<Rightarrow> kstate \<Rightarrow> bool" where
  "log_only s t \<longleftrightarrow> (\<exists>b n. t = s\<lparr>pmu_log_buffer := b, pmu_log_data_size := n\<rparr>)"

lemma log_onlyI: "log_only s (s\<lparr>pmu_log_buffer := b, pmu_log_data_size := n\<rparr>)"
  unfolding log_only_def by blast

lemma log_only_refl: "log_only s s"
  using log_onlyI [of s "pmu_log_data_size s" "pmu_log_buffer s"] by simp

lemma append_eq:
  assumes "log_ok s"
  shows "\<exists>r t. api_pmu_log_append_data d s = Some (r, t) \<and> log_only s t"
proof (cases "\<exists>b. pmu_log_buffer s = Some b \<and> pmu_logging_active s \<and> pmu_log_buffer_size s \<noteq> 0 \<and> d \<noteq> [] \<and>
    pmu_log_data_size s + length d \<le> pmu_log_buffer_size s")
  case True
  then show ?thesis using assms by (auto simp: api_pmu_log_append_data_def blit_def log_ok_def intro: log_onlyI)
next
  case False
  then show ?thesis by (auto simp: api_pmu_log_append_data_def log_only_refl split: option.splits)
qed

lemma log_core_eq: "log_ok s \<Longrightarrow> \<exists>t. log_core e c s = Some t \<and> log_only s t"
  using append_eq [of s "log_entry c (clock e c 0) (pmu_raw (corestate s c))"]
  by (cases "pmu_logging_active s \<and> pmu_log_buffer s \<noteq> None") (auto simp: log_core_def log_only_refl)

lemma msr_update_modules:
  "core_ok i \<Longrightarrow> msr_update c i s = Some t \<Longrightarrow> mab_modules t = mab_modules s \<and> mab_arm_configs t = mab_arm_configs s"
  by (auto simp: msr_update_def wrmsr64_def wrmsr_def Let_def)

lemma flush_eq:
  assumes "core_ok (int c)"
  shows "\<exists>t. flush_msrs c l s = Some t \<and> mab_modules t = mab_modules s \<and> (\<forall>x. x \<noteq> c \<longrightarrow> hwreg t x = hwreg s x) \<and>
    (l = int c \<and> image_of_arm c a s \<longrightarrow> (\<forall>k < NR_OF_MSR. hwreg t c (kmsr_addr ! k) = mab_arm_configs s (nat a) k))"
proof (cases "l = int c \<and> pf_msr_dirty (corestate s c) = 1")
  case True
  obtain t where t: "msr_update c (int c) s = Some t"
    "hwreg t = (hwreg s)(c := (hwreg s c)(
        0x1320 := pf_msr (corestate s c) 0, 0x1321 := pf_msr (corestate s c) 1,
        0x1322 := pf_msr (corestate s c) 2, 0x1323 := pf_msr (corestate s c) 3,
        0x1324 := pf_msr (corestate s c) 4, 0x1327 := pf_msr (corestate s c) 5,
        0x1a4 := pf_msr (corestate s c) 6))"
    using msr_update_eq [OF assms, of c s] by auto
  have "flush_msrs c l s = Some t" using True assms t(1) by (simp add: flush_msrs_def is_msr_dirty_def)
  moreover have "\<forall>k < NR_OF_MSR. hwreg t c (kmsr_addr ! k) = pf_msr (corestate s c) k"
    unfolding NR_OF_MSR_def all_less_7 t(2) by (simp add: kmsr_addr_def)
  ultimately show ?thesis
    using msr_update_modules [OF assms t(1)] t(2) by (auto simp: image_of_arm_def)
next
  case False
  then have "flush_msrs c l s = Some s" using assms by (auto simp: flush_msrs_def is_msr_dirty_def)
  then show ?thesis using False by (auto simp: image_of_arm_def)
qed

lemma active_verdict:
  "core_ok i \<Longrightarrow> \<exists>a. a \<in> {-1, 0, 1} \<and> mab_core_is_active now i s =
     Some (a, s\<lparr>mab_cores := (mab_cores s)(nat i := (mab_cores s (nat i))\<lparr>time_old := now\<rparr>)\<rparr>)"
  by (simp add: mab_core_is_active_eq Let_def)

text \<open>What the dispatch does to the module and the leader's image.\<close>

lemma dispatch_ticks:
  assumes "placed c s" and "peers_scorable c s" and "a \<in> {-1, 0, 1}" and "a = 1 \<Longrightarrow> scorable s (int c)"
  shows "\<exists>l t. mab_dispatch junk (int c) a s = Some (l, t) \<and> module_ticked c s t \<and> hwreg t = hwreg s \<and>
    mab_arm_configs t = mab_arm_configs s \<and>
    (phase_of (mab_modules t (module_of c s)) \<in> {phase_of (mab_modules s (module_of c s)), Fresh} \<or>
     l = int c \<and> image_of_arm c (mm_active_arm (mab_modules t (module_of c s))) t)"
proof -
  have wf: "module_wf (mab_modules s (module_of c s))" using assms(1) by (simp add: placed_def)
  consider "a = -1" | "a = 0" | "a = 1" using assms(3) by auto
  then show ?thesis
  proof cases
    case 1
    then show ?thesis using wf by (simp add: mab_dispatch_def module_ticked_def)
  next
    case 2
    obtain C d where d: "idle_tick (int c) s = Some (s\<lparr>mab_cores := C, mab_modules := (mab_modules s)(module_of c s := d)\<rparr>)"
        "module_wf d" "phase_of d = phase_of (mab_modules s (module_of c s)) \<or> phase_of d = Fresh"
      using idle_tick_eq [OF assms(1)] by blast
    then have "module_ticked c s (s\<lparr>mab_cores := C, mab_modules := (mab_modules s)(module_of c s := d)\<rparr>)"
      using phase_step.forget by (simp add: module_ticked_def) metis
    then show ?thesis using 2 d by (auto simp: mab_dispatch_def)
  next
    case 3
    let ?u = "awake c s" and ?l = "least_or_none (active_set (awake c s) (module_id s (int c)))"
    have eq: "mab_dispatch junk (int c) a s = Some (?l,
      if mm_initialized (mab_modules s (module_of c s)) = MAB_INIT_DONE then tuned junk (int c) ?u
      else if int c = ?l then scanned ?u (int c) else ?u)"
      using 3 active_tick_eq [OF assms(1,2) assms(4) [OF 3]] by (simp add: mab_dispatch_def)
    have u: "module_wf (mab_modules ?u (module_of c ?u))" using wf by simp
    consider "mm_initialized (mab_modules s (module_of c s)) = MAB_INIT_DONE"
      | "mm_initialized (mab_modules s (module_of c s)) \<noteq> MAB_INIT_DONE" "int c = ?l"
      | "mm_initialized (mab_modules s (module_of c s)) \<noteq> MAB_INIT_DONE" "int c \<noteq> ?l" by blast
    then show ?thesis
    proof cases
      case 1
      then have "mm_initialized (mab_modules ?u (module_of c ?u)) = MAB_INIT_DONE" by simp
      note t = tuned_tick [OF u this, of junk]
      show ?thesis unfolding eq using 1 awake_ticked [OF t(1)] t(2) by auto
    next
      case 2
      then have "mm_initialized (mab_modules ?u (module_of c ?u)) \<noteq> MAB_INIT_DONE" by simp
      note t = scanned_tick [OF u this]
      show ?thesis unfolding eq using 2 awake_ticked [OF t(1)] t(2) by simp
    next
      case 3
      then show ?thesis unfolding eq using wf by (simp add: module_ticked_def)
    qed
  qed
qed

lemma placed_cong:
  "sys_first_core t = sys_first_core s \<Longrightarrow> mab_modules t = mab_modules s \<Longrightarrow> placed c t = placed c s"
  by (simp add: placed_def module_of_def module_id_def module_in_bounds_def module_start_def)

lemma peers_scorable_cong:
  assumes "sys_first_core t = sys_first_core s" "\<And>i. core_disabled (corestate t i) = core_disabled (corestate s i)"
    "\<And>i. mc_idle_counter (mab_cores t i) = mc_idle_counter (mab_cores s i)"
    "\<And>i. i \<noteq> c \<Longrightarrow> corestate t i = corestate s i" and "placed c s"
  shows "peers_scorable c t = peers_scorable c s"
proof -
  have m: "module_id t (int c) = module_id s (int c)" using assms(1) by (simp add: module_id_def)
  have "scorable t i = scorable s i" if "i \<in> active_set s (module_id s (int c))" "i \<noteq> int c" for i
  proof -
    have "0 \<le> i"
      using that(1) assms(5) by (simp add: active_set_def module_cores_def placed_def module_in_bounds_def module_start_def)
    then have "nat i \<noteq> c" using that(2) by auto
    then show ?thesis using assms(4) by (simp add: scorable_def score_cycles_def)
  qed
  then show ?thesis
    unfolding peers_scorable_def m active_set_cong [OF assms(1-3)] by blast
qed

text \<open>
  Claim C1: one tick of the tuner on one core, end to end. For an enabled core whose module lies
  inside the core table, with a consistent log and peers that have run long enough to be scored,
  the work of the tick is defined: no array access is out of range and nothing divides by zero.
  The core's module takes at most one transition of its life cycle and stays well formed, no
  other module changes, no register of another CPU is written, and whenever the tick moves the
  module to another arm or stage, the registers of this CPU now hold exactly the configuration
  of the arm the module is on.
\<close>

theorem core_tick_refines:
  assumes "placed c s" and "log_ok s" and "core_disabled (corestate s c) = 0" and "peers_scorable c s"
  shows "\<exists>t. per_core_work e c s = Some t \<and> module_ticked c s t \<and> (\<forall>x. x \<noteq> c \<longrightarrow> hwreg t x = hwreg s x) \<and>
    (phase_of (mab_modules t (module_of c s)) \<in> {phase_of (mab_modules s (module_of c s)), Fresh} \<or>
     (\<forall>k < NR_OF_MSR. hwreg t c (kmsr_addr ! k) =
        mab_arm_configs s (nat (mm_active_arm (mab_modules t (module_of c s)))) k))"
proof -
  note ok = placed_module(1) [OF assms(1)]
  define p where "p = snd (pmu_update (pmc e) c (int c) s)"
  have p: "log_ok p" "sys_first_core p = sys_first_core s" "mab_modules p = mab_modules s" "hwreg p = hwreg s"
      "mab_cores p = mab_cores s" "mab_arm_configs p = mab_arm_configs s"
      "\<And>i. core_disabled (corestate p i) = core_disabled (corestate s i)" "\<And>i. i \<noteq> c \<Longrightarrow> corestate p i = corestate s i"
    using assms(2) by (simp_all add: p_def pmu_update_def log_ok_def Let_def)
  obtain u where u: "log_core e c p = Some u" "log_only p u" using log_core_eq [OF p(1)] by blast
  obtain a v where v: "a \<in> {-1, 0, 1}" "mab_core_is_active (clock e c 1) (int c) u = Some (a, v)"
      "v = u\<lparr>mab_cores := (mab_cores u)(c := (mab_cores u c)\<lparr>time_old := clock e c 1\<rparr>)\<rparr>"
    using active_verdict [OF ok, of "clock e c 1" u] by auto
  have f: "sys_first_core v = sys_first_core s" "mab_modules v = mab_modules s" "hwreg v = hwreg s" "corestate v = corestate p"
      "mab_arm_configs v = mab_arm_configs s" "\<And>i. mc_idle_counter (mab_cores v i) = mc_idle_counter (mab_cores s i)"
    using p u(2) v(3) by (auto simp: log_only_def)
  have m: "module_of c v = module_of c s" using f(1) by (simp add: module_of_def module_id_def)
  have "placed c v" using assms(1) f placed_cong by blast
  moreover have "peers_scorable c v"
    using assms(4) peers_scorable_cong [of v s c] f p assms(1) by simp
  moreover have "a = 1 \<Longrightarrow> scorable v (int c)" using active_scorable v(2) ok by blast
  ultimately obtain l w where w: "mab_dispatch (stack_junk e c) (int c) a v = Some (l, w)" "module_ticked c v w"
      "hwreg w = hwreg v" "mab_arm_configs w = mab_arm_configs v"
      "phase_of (mab_modules w (module_of c v)) \<in> {phase_of (mab_modules v (module_of c v)), Fresh} \<or>
       l = int c \<and> image_of_arm c (mm_active_arm (mab_modules w (module_of c v))) w"
    using dispatch_ticks [of c v a] v(1) by blast
  obtain t where t: "flush_msrs c l w = Some t" "mab_modules t = mab_modules w" "\<forall>x. x \<noteq> c \<longrightarrow> hwreg t x = hwreg w x"
      "l = int c \<and> image_of_arm c (mm_active_arm (mab_modules w (module_of c v))) w \<longrightarrow>
       (\<forall>k < NR_OF_MSR. hwreg t c (kmsr_addr ! k) = mab_arm_configs w (nat (mm_active_arm (mab_modules w (module_of c v)))) k)"
    using flush_eq [OF ok] by blast
  have "per_core_work e c s = Some t"
    using ok assms(3) u(1) v(2) w(1) t(1) by (simp add: per_core_work_def p_def Let_def)
  moreover have "module_ticked c s t" using w(2) t(2) f(2) m by (simp add: module_ticked_def)
  ultimately show ?thesis using w(3-5) t(2-4) f(2,3,5) m by auto
qed

lemma demo_placed: "placed 2 demo_kstate" "log_ok demo_kstate" "core_disabled (corestate demo_kstate 2) = 0"
  by (simp_all add: placed_def module_of_def module_id_def module_in_bounds_def module_start_def module_wf_def
      arm_ok_def log_ok_def demo_kstate_simps mab_consts phase_consts)

lemma demo_peers: "peers_scorable 2 demo_kstate"
proof -
  have "scorable demo_kstate i" for i
    by (simp add: scorable_def score_cycles_def demo_kstate_simps const_simps)
  then show ?thesis by (simp add: peers_scorable_def)
qed

theorem core_tick_refines_witness:
  "\<exists>t. per_core_work demo_kenv 2 demo_kstate = Some t \<and> module_ticked 2 demo_kstate t \<and>
     hwreg t 0 = hwreg demo_kstate 0"
  using core_tick_refines [OF demo_placed demo_peers, of demo_kenv] by fastforce

end
