(* ===== verification/C_Float.thy ===== *)
theory C_Float
  imports Complex_Main Dpf_Prelude
begin

text \<open>
  The types \<open>float\<close> and \<open>double\<close> of C on this platform: IEEE 754 binary32 and binary64 with
  rounding to nearest, ties to even, and no wider intermediate results (\<open>FLT_EVAL_METHOD\<close> is 0
  on x86-64 and the build enables no fused multiply-add). A value is finite, with a sign bit and a
  magnitude, or an infinity with its sign, or not a number. The magnitude is an exact rational
  number, and every operation computes the exact result and rounds it to the format, with gradual
  underflow and overflow to infinity. Everything here evaluates.
\<close>

datatype cfloat = FFin bool rat | FInf bool | FNaN

record fformat =
  prec :: nat
  emax :: int

definition binary32 :: fformat where "binary32 = \<lparr>prec = 24, emax = 127\<rparr>"
definition binary64 :: fformat where "binary64 = \<lparr>prec = 53, emax = 1023\<rparr>"

definition emin :: "fformat \<Rightarrow> int" where "emin f = 1 - emax f"

section \<open>Rounding\<close>

definition pow2 :: "int \<Rightarrow> rat" where
  "pow2 k = (if 0 \<le> k then 2 ^ nat k else 1 / 2 ^ nat (- k))"

text \<open>The power by squaring, for evaluation.\<close>

function ipow2 :: "int \<Rightarrow> int" where
  "ipow2 k = (if k \<le> 0 then 1 else let h = ipow2 (k div 2) in if even k then h * h else 2 * (h * h))"
  by pat_completeness auto
termination by (relation "measure nat") auto

declare ipow2.simps [simp del]

lemma ipow2: "ipow2 k = 2 ^ nat k"
proof (induction k rule: ipow2.induct)
  case (1 k)
  show ?case
  proof (cases "k \<le> 0")
    case False
    define j where "j = nat (k div 2)"
    have "ipow2 (k div 2) = 2 ^ j" using 1 False by (simp add: j_def)
    moreover have "nat k = (if even k then j + j else Suc (j + j))" using False unfolding j_def
      by (cases "even k") (auto elim!: evenE oddE simp: nat_mult_distrib nat_add_distrib)
    ultimately show ?thesis using False by (subst ipow2.simps) (simp add: power_add Let_def)
  qed (simp add: ipow2.simps)
qed

lemma pow2_code [code]: "pow2 k = (if 0 \<le> k then of_int (ipow2 k) else 1 / of_int (ipow2 (- k)))"
  by (simp add: pow2_def ipow2)

function bit_length :: "int \<Rightarrow> int" where
  "bit_length n = (if n \<le> 0 then 0 else 1 + bit_length (n div 2))"
  by pat_completeness auto
termination by (relation "measure nat") auto

declare bit_length.simps [simp del]

text \<open>The exponent of a positive rational: the greatest power of two that is not above it.\<close>

definition ilog2 :: "rat \<Rightarrow> int" where
  "ilog2 m = (case quotient_of m of (a, b) \<Rightarrow>
     let k = bit_length a - bit_length b in if pow2 k \<le> m then k else k - 1)"

definition rnd_even :: "rat \<Rightarrow> int" where
  "rnd_even x = (let q = \<lfloor>x\<rfloor>; r = x - of_int q
     in if r < 1 / 2 then q else if 1 / 2 < r then q + 1 else if even q then q else q + 1)"

definition round_mag :: "fformat \<Rightarrow> rat \<Rightarrow> rat" where
  "round_mag f m = (if m = 0 then 0
     else let u = pow2 (max (ilog2 m) (emin f) - (int (prec f) - 1)) in of_int (rnd_even (m / u)) * u)"

text \<open>\<open>fround f z x\<close> rounds \<open>x\<close>; \<open>z\<close> is the sign of an exact zero.\<close>

definition fround :: "fformat \<Rightarrow> bool \<Rightarrow> rat \<Rightarrow> cfloat" where
  "fround f z x = (let m = round_mag f \<bar>x\<bar>
     in if pow2 (emax f + 1) \<le> m then FInf (x < 0) else FFin (if x = 0 then z else x < 0) m)"

section \<open>Operations\<close>

definition signed :: "bool \<Rightarrow> rat \<Rightarrow> rat" where
  "signed s m = (if s then - m else m)"

definition f_of_int :: "fformat \<Rightarrow> int \<Rightarrow> cfloat" where
  "f_of_int f n = fround f False (of_int n)"

text \<open>Conversion to another format.\<close>

fun fconv :: "fformat \<Rightarrow> cfloat \<Rightarrow> cfloat" where
  "fconv f (FFin s m) = fround f s (signed s m)"
| "fconv f (FInf s) = FInf s"
| "fconv f FNaN = FNaN"

fun fneg :: "cfloat \<Rightarrow> cfloat" where
  "fneg (FFin s m) = FFin (\<not> s) m"
| "fneg (FInf s) = FInf (\<not> s)"
| "fneg FNaN = FNaN"

fun fadd :: "fformat \<Rightarrow> cfloat \<Rightarrow> cfloat \<Rightarrow> cfloat" where
  "fadd f (FFin s m) (FFin t n) = fround f (s \<and> t) (signed s m + signed t n)"
| "fadd f (FInf s) (FInf t) = (if s = t then FInf s else FNaN)"
| "fadd f (FInf s) (FFin t n) = FInf s"
| "fadd f (FFin s m) (FInf t) = FInf t"
| "fadd f FNaN b = FNaN"
| "fadd f a FNaN = FNaN"

definition fsub :: "fformat \<Rightarrow> cfloat \<Rightarrow> cfloat \<Rightarrow> cfloat" where
  "fsub f a b = fadd f a (fneg b)"

fun fmul :: "fformat \<Rightarrow> cfloat \<Rightarrow> cfloat \<Rightarrow> cfloat" where
  "fmul f (FFin s m) (FFin t n) = fround f (s \<noteq> t) (signed s m * signed t n)"
| "fmul f (FInf s) (FInf t) = FInf (s \<noteq> t)"
| "fmul f (FInf s) (FFin t n) = (if n = 0 then FNaN else FInf (s \<noteq> t))"
| "fmul f (FFin s m) (FInf t) = (if m = 0 then FNaN else FInf (s \<noteq> t))"
| "fmul f FNaN b = FNaN"
| "fmul f a FNaN = FNaN"

fun fdiv :: "fformat \<Rightarrow> cfloat \<Rightarrow> cfloat \<Rightarrow> cfloat" where
  "fdiv f (FFin s m) (FFin t n) =
     (if n = 0 then if m = 0 then FNaN else FInf (s \<noteq> t) else fround f (s \<noteq> t) (signed s m / signed t n))"
| "fdiv f (FInf s) (FInf t) = FNaN"
| "fdiv f (FInf s) (FFin t n) = FInf (s \<noteq> t)"
| "fdiv f (FFin s m) (FInf t) = FFin (s \<noteq> t) 0"
| "fdiv f FNaN b = FNaN"
| "fdiv f a FNaN = FNaN"

function isqrt :: "int \<Rightarrow> int" where
  "isqrt n = (if n \<le> 0 then 0
     else let r = 2 * isqrt (n div 4) in if (r + 1) * (r + 1) \<le> n then r + 1 else r)"
  by pat_completeness auto
termination by (relation "measure nat") auto

declare isqrt.simps [simp del]

text \<open>The root of a positive number, with the precision of the format. Its exponent is half that of
  the operand, so it neither overflows nor underflows.\<close>

definition sqrt_mag :: "fformat \<Rightarrow> rat \<Rightarrow> rat" where
  "sqrt_mag f m =
     (let u = pow2 (ilog2 m div 2 - (int (prec f) - 1));
          q = isqrt \<lfloor>m / (u * u)\<rfloor>;
          h = (of_int q + 1 / 2) * u
      in of_int (if m < h * h \<or> m = h * h \<and> even q then q else q + 1) * u)"

fun fsqrt :: "fformat \<Rightarrow> cfloat \<Rightarrow> cfloat" where
  "fsqrt f (FFin s m) = (if m = 0 then FFin s 0 else if s then FNaN else FFin False (sqrt_mag f m))"
| "fsqrt f (FInf s) = (if s then FNaN else FInf False)"
| "fsqrt f FNaN = FNaN"

fun flt :: "cfloat \<Rightarrow> cfloat \<Rightarrow> bool" where
  "flt (FFin s m) (FFin t n) = (signed s m < signed t n)"
| "flt (FInf s) (FInf t) = (s \<and> \<not> t)"
| "flt (FInf s) (FFin t n) = s"
| "flt (FFin s m) (FInf t) = (\<not> t)"
| "flt FNaN b = False"
| "flt a FNaN = False"

definition fle :: "cfloat \<Rightarrow> cfloat \<Rightarrow> bool" where
  "fle a b \<longleftrightarrow> a \<noteq> FNaN \<and> b \<noteq> FNaN \<and> \<not> flt b a"

text \<open>Conversion to an integer truncates; an infinity or not a number is undefined.\<close>

fun ftrunc :: "cfloat \<Rightarrow> int option" where
  "ftrunc (FFin s m) = Some (if s then - \<lfloor>m\<rfloor> else \<lfloor>m\<rfloor>)"
| "ftrunc _ = None"

text \<open>\<open>lround\<close>: halves away from zero. Its result is unspecified when it does not fit; then the
  model has no value.\<close>

fun flround :: "cfloat \<Rightarrow> int option" where
  "flround (FFin s m) = (let n = \<lfloor>m + 1 / 2\<rfloor> in if n < 2 ^ 63 then Some (if s then - n else n) else None)"
| "flround _ = None"

text \<open>A literal.\<close>

definition flit :: "fformat \<Rightarrow> rat \<Rightarrow> cfloat" where
  "flit f x = fround f False x"

section \<open>Not a number\<close>

lemma fnan_absorbs [simp]:
  "fadd f a FNaN = FNaN" "fadd f FNaN a = FNaN" "fsub f a FNaN = FNaN" "fsub f FNaN a = FNaN"
  "fmul f a FNaN = FNaN" "fmul f FNaN a = FNaN" "fdiv f a FNaN = FNaN" "fdiv f FNaN a = FNaN"
  "\<not> flt a FNaN" "\<not> flt FNaN a"
  by (cases a; simp add: fsub_def)+

section \<open>Order\<close>

lemma flt_irrefl [simp]: "\<not> flt a a"
  by (cases a) auto

lemma flt_trans: "flt a b \<Longrightarrow> flt b c \<Longrightarrow> flt a c"
  by (cases a; cases b; cases c) auto

lemma not_flt_trans: "\<not> flt a b \<Longrightarrow> \<not> flt b c \<Longrightarrow> b \<noteq> FNaN \<Longrightarrow> \<not> flt a c"
  by (cases a; cases b; cases c) auto

lemma flt_not_flt: "flt a b \<Longrightarrow> \<not> flt c b \<Longrightarrow> c \<noteq> FNaN \<Longrightarrow> flt a c"
  by (cases a; cases b; cases c) auto

section \<open>Bounds of rounding\<close>

lemma pow2_pos [simp]: "0 < pow2 k"
  by (simp add: pow2_def)

lemma pow2_add: "pow2 (a + b) = pow2 a * pow2 b"
proof -
  have "pow2 k = 2 powi k" for k by (simp add: pow2_def power_int_def inverse_eq_divide power_one_over)
  then show ?thesis by (simp add: power_int_add)
qed

lemma pow2_nat: "pow2 (int n) = 2 ^ n"
  by (simp add: pow2_def)

lemma pow2_mono: "a \<le> b \<Longrightarrow> pow2 a \<le> pow2 b"
proof -
  assume "a \<le> b"
  then obtain n where "b = a + int n" by (metis zle_iff_zadd)
  then show ?thesis by (simp add: pow2_add pow2_nat)
qed

lemma bit_length_bounds: "0 < n \<Longrightarrow> 0 < bit_length n \<and> 2 ^ nat (bit_length n - 1) \<le> n \<and> n < 2 ^ nat (bit_length n)"
proof (induction n rule: bit_length.induct)
  case (1 n)
  show ?case
  proof (cases "n = 1")
    case False
    then have ih: "0 < bit_length (n div 2)" "2 ^ nat (bit_length (n div 2) - 1) \<le> n div 2"
        "n div 2 < 2 ^ nat (bit_length (n div 2))"
      using 1 by auto
    define j where "j = nat (bit_length (n div 2) - 1)"
    have "bit_length (n div 2) = int (Suc j)" using ih(1) by (simp add: j_def)
    then have j: "bit_length n = int (Suc (Suc j))" "2 ^ j \<le> n div 2" "n div 2 < 2 ^ Suc j"
      using ih 1(2) by (simp_all add: bit_length.simps [of n] nat_add_distrib)
    then show ?thesis by (simp add: nat_add_distrib) linarith
  qed (simp add: bit_length.simps)
qed

lemma ilog2_le:
  assumes "0 < m"
  shows "pow2 (ilog2 m) \<le> m"
proof -
  obtain a b where q: "quotient_of m = (a, b)" by fastforce
  have b: "0 < b" and m: "m = of_int a / of_int b"
    using quotient_of_denom_pos [OF q] quotient_of_div [OF q] by auto
  then have a: "0 < a" using assms by (simp add: zero_less_divide_iff)
  define i j where "i = nat (bit_length a - 1)" and "j = nat (bit_length b)"
  have ij: "bit_length a = int (Suc i)" "bit_length b = int j" "2 ^ i \<le> a" "b < 2 ^ j"
    using bit_length_bounds [OF a] bit_length_bounds [OF b] by (auto simp: i_def j_def)
  have "(2 :: rat) ^ i \<le> of_int a" using ij(3) by (metis of_int_le_iff of_int_numeral of_int_power)
  moreover have "(of_int b :: rat) \<le> 2 ^ j" using ij(4) by (metis less_imp_le of_int_le_iff of_int_numeral of_int_power)
  moreover have "pow2 (int i - int j) * 2 ^ j = 2 ^ i" by (simp flip: pow2_nat pow2_add)
  ultimately have "pow2 (int i - int j) * of_int b \<le> of_int a"
    using mult_left_mono [of "of_int b" "2 ^ j" "pow2 (int i - int j)"] by (metis less_imp_le order_trans pow2_pos)
  then have "pow2 (int i - int j) \<le> m" using b m by (simp add: pos_le_divide_eq)
  then show ?thesis by (simp add: ilog2_def q Let_def ij)
qed

lemma rnd_even_int [simp]: "rnd_even (of_int k) = k"
  by (simp add: rnd_even_def)

lemma rnd_even_le: "x \<le> of_int k \<Longrightarrow> rnd_even x \<le> k"
proof (cases "x = of_int k")
  case False
  assume "x \<le> of_int k"
  then have "\<lfloor>x\<rfloor> < k" using False by (simp add: floor_less_iff)
  then show ?thesis by (simp add: rnd_even_def Let_def)
qed simp

lemma rnd_even_ge: "of_int k \<le> x \<Longrightarrow> k \<le> rnd_even x"
  by (simp add: rnd_even_def Let_def) linarith

text \<open>An integer that fits into the precision is a multiple of the rounding unit of every number
  that is not above it, so rounding does not cross it.\<close>

lemma round_unit:
  assumes "0 < m" "m \<le> of_nat n" "n < 2 ^ prec f" "emin f \<le> 0" "0 < prec f"
  shows "\<exists>k. of_nat n = of_int k * pow2 (max (ilog2 m) (emin f) - (int (prec f) - 1))"
proof -
  let ?e = "max (ilog2 m) (emin f) - (int (prec f) - 1)"
  have "?e \<le> 0"
  proof (rule ccontr)
    assume "\<not> ?e \<le> 0"
    then have "int (prec f) \<le> ilog2 m" using assms(4,5) by auto
    then have "pow2 (int (prec f)) \<le> pow2 (ilog2 m)" by (rule pow2_mono)
    also have "\<dots> \<le> m" using assms(1) by (rule ilog2_le)
    also note assms(2)
    finally have "(2 :: rat) ^ prec f \<le> of_nat n" unfolding pow2_nat .
    then show False using assms(3) by (metis not_le of_nat_le_iff of_nat_numeral of_nat_power)
  qed
  then obtain j where e: "?e = - int j" by (metis add.inverse_inverse nonneg_int_cases neg_0_le_iff_le)
  have "pow2 (- int j) * 2 ^ j = 1" using pow2_add [of "- int j" "int j"] by (simp add: pow2_nat pow2_def)
  then have "of_nat n = of_int (int n * 2 ^ j) * pow2 ?e" unfolding e by (simp add: mult.commute mult.left_commute)
  then show ?thesis by blast
qed

lemma round_mag_nonneg: "0 \<le> m \<Longrightarrow> 0 \<le> round_mag f m"
proof -
  assume "0 \<le> m"
  then have "0 \<le> rnd_even (m / pow2 k)" for k using rnd_even_ge [of 0 "m / pow2 k"] by (simp add: less_imp_le)
  then show ?thesis by (simp add: round_mag_def Let_def less_imp_le)
qed

lemma round_mag_le:
  assumes "0 \<le> m" "m \<le> of_nat n" "n < 2 ^ prec f" "emin f \<le> 0" "0 < prec f"
  shows "round_mag f m \<le> of_nat n"
proof (cases "m = 0")
  case False
  let ?u = "pow2 (max (ilog2 m) (emin f) - (int (prec f) - 1))"
  obtain k where k: "of_nat n = of_int k * ?u" using round_unit [of m n f] assms False by auto
  have "m / ?u \<le> of_int k" using assms(2) k by (simp add: pos_divide_le_eq)
  then have "of_int (rnd_even (m / ?u)) * ?u \<le> of_int k * ?u"
    by (intro mult_right_mono) (simp_all add: rnd_even_le less_imp_le)
  then show ?thesis using False k by (simp add: round_mag_def Let_def)
qed (simp add: round_mag_def)

text \<open>Small integers are exact.\<close>

lemma round_mag_exact:
  assumes "n < 2 ^ prec f" "emin f \<le> 0" "0 < prec f"
  shows "round_mag f (of_nat n) = of_nat n"
proof (cases "n = 0")
  case False
  let ?u = "pow2 (max (ilog2 (of_nat n)) (emin f) - (int (prec f) - 1))"
  obtain k where k: "of_nat n = of_int k * ?u" using round_unit [of "of_nat n" n f] assms False by auto
  then have "of_nat n / ?u = of_int k" by (simp add: divide_eq_eq less_imp_neq [OF pow2_pos, symmetric])
  then show ?thesis using False k by (simp add: round_mag_def Let_def)
qed (simp add: round_mag_def)

text \<open>Truncating a rounded value that is not above a small integer.\<close>

lemma binary32_small [simp]: "emin binary32 \<le> 0" "0 < prec binary32" "prec binary32 = 24" "emax binary32 = 127"
  by (simp_all add: emin_def binary32_def)

lemma binary64_small [simp]: "emin binary64 \<le> 0" "0 < prec binary64" "prec binary64 = 53" "emax binary64 = 1023"
  by (simp_all add: emin_def binary64_def)

lemma ftrunc_fround_le:
  assumes "0 \<le> x" "x \<le> of_nat n" "n < 2 ^ 24"
  shows "\<exists>k. ftrunc (fround binary32 z x) = Some (int k) \<and> k \<le> n"
proof -
  let ?m = "round_mag binary32 x"
  have le: "?m \<le> of_nat n" using round_mag_le [of x n binary32] assms by simp
  also have "\<dots> < pow2 (emax binary32 + 1)"
  proof -
    have "(of_nat n :: rat) < 2 ^ 24" using assms(3) by (metis of_nat_less_iff of_nat_numeral of_nat_power)
    also have "\<dots> \<le> 2 ^ 128" by simp
    finally show ?thesis by (simp add: pow2_def)
  qed
  finally have "fround binary32 z x = FFin (if x = 0 then z else False) ?m"
    using assms(1) by (simp add: fround_def Let_def)
  moreover have "0 \<le> \<lfloor>?m\<rfloor>" "\<lfloor>?m\<rfloor> \<le> int n" using le round_mag_nonneg [OF assms(1)] by (simp_all add: floor_le_iff)
  moreover have "x = 0 \<Longrightarrow> ?m = 0" by (simp add: round_mag_def)
  ultimately show ?thesis by (intro exI [of _ "nat \<lfloor>?m\<rfloor>"]) auto
qed

lemma f_of_int_small:
  assumes "n < 2 ^ 24"
  shows "f_of_int binary32 (int n) = FFin False (of_nat n)"
proof -
  have "(of_nat n :: rat) < 2 ^ 24" using assms by (metis of_nat_less_iff of_nat_numeral of_nat_power)
  also have "\<dots> \<le> pow2 (emax binary32 + 1)" by (simp add: pow2_def)
  finally show ?thesis
    using round_mag_exact [of n binary32] assms by (simp add: f_of_int_def fround_def Let_def)
qed

lemma fround_below:
  assumes "\<bar>x\<bar> \<le> of_nat n" "n < 2 ^ 24"
  shows "fround binary32 z x = FFin (if x = 0 then z else x < 0) (round_mag binary32 \<bar>x\<bar>)"
    "round_mag binary32 \<bar>x\<bar> \<le> of_nat n"
proof -
  show le: "round_mag binary32 \<bar>x\<bar> \<le> of_nat n" using round_mag_le [of "\<bar>x\<bar>" n binary32] assms by simp
  have "(of_nat n :: rat) < 2 ^ 24" using assms(2) by (metis of_nat_less_iff of_nat_numeral of_nat_power)
  also have "\<dots> \<le> pow2 (emax binary32 + 1)" by (simp add: pow2_def)
  finally show "fround binary32 z x = FFin (if x = 0 then z else x < 0) (round_mag binary32 \<bar>x\<bar>)"
    using le by (simp add: fround_def Let_def)
qed

lemma f_of_int_neg:
  assumes "0 < n" "n < 2 ^ 24"
  shows "f_of_int binary32 (- int n) = FFin True (of_nat n)"
  using fround_below(1) [of "- of_nat n" n False] round_mag_exact [of n binary32] assms by (simp add: f_of_int_def)

text \<open>Rounding a product of small numbers to an integer.\<close>

lemma flround_small:
  assumes "0 \<le> m" "0 \<le> k" "k * m \<le> of_nat n" "n < 2 ^ 24"
  shows "\<exists>d. flround (fmul binary32 (FFin s k) (FFin t m)) = Some d \<and> \<bar>d\<bar> \<le> int n"
proof -
  let ?x = "signed s k * signed t m"
  have x: "\<bar>?x\<bar> \<le> of_nat n" using assms(1-3) by (simp add: signed_def abs_mult)
  note f = fround_below(1) [OF x assms(4), of "s \<noteq> t"] fround_below(2) [OF x assms(4)]
  let ?r = "round_mag binary32 \<bar>?x\<bar>"
  define j where "j = \<lfloor>?r + 1 / 2\<rfloor>"
  have "0 \<le> ?r" by (simp add: round_mag_nonneg)
  then have "0 \<le> j" by (simp add: j_def)
  moreover have "j \<le> int n" using f(2) by (simp add: j_def floor_le_iff)
  moreover have "j < 2 ^ 63" using assms(4) \<open>j \<le> int n\<close> by simp
  ultimately show ?thesis using f(1) by (simp add: Let_def j_def [symmetric] del: floor_less_numeral)
qed

end
