(* ===== verification/User_Api.thy ===== *)
theory User_Api
  imports Kernel_Dpf C_Float
begin

text \<open>
  \<open>user_api.c\<close>: the user-space side of the proc file, one function per request. The device is
  the kernel module of \<open>Kernel_Dpf\<close>: \<open>write\<close> is \<open>dpf_proc_write\<close> on the bytes of the
  request (the buffer does not change during the call, so both copies see the same bytes), and
  \<open>read\<close> is \<open>proc_read\<close> at the file position, which is 0 after \<open>open\<close> and is not moved by
  a write.

  \<open>uenv\<close> is what the system provides during one call of the library: whether \<open>open\<close> and each
  \<open>malloc\<close> succeed, the kernel's environment at each system call (0 is the write, 1 and 2 the
  reads), what uninitialised memory holds, and the monotonic clock. \<open>ustate\<close> is the kernel, the
  number of open descriptors and of allocated blocks of the process, and the static variable of
  \<open>kernel_log_ddr_bw\<close>. A function returns 0 or \<open>-1\<close>; log output is not modelled.
\<close>

record uenv =
  open_ok :: bool
  calls :: "nat \<Rightarrow> kenv"
  umalloc_ok :: "nat \<Rightarrow> bool"
  stack_byte :: "nat \<Rightarrow> u8"
  monotonic :: "u64 \<times> u64"

record ustate =
  kernel :: kstate
  fds :: int
  uheap :: int
  bw_time_old :: u64

definition PMU_LOG_MODE_RESET :: u32 where [const_simps]: "PMU_LOG_MODE_RESET = 0"
definition PMU_LOG_MODE_APPEND :: u32 where [const_simps]: "PMU_LOG_MODE_APPEND = 1"

text \<open>Seconds and nanoseconds of the clock, in milliseconds.\<close>

definition get_time_ms :: "uenv \<Rightarrow> u64" where
  "get_time_ms e = snd (monotonic e) div 1000000 + fst (monotonic e) * 1000"

definition u_close :: "ustate \<Rightarrow> ustate" where
  "u_close u = u\<lparr>fds := fds u - 1\<rparr>"

definition u_write :: "uenv \<Rightarrow> bytes \<Rightarrow> ustate \<Rightarrow> (int \<times> ustate) option" where
  "u_write e msg u =
     do { (ret, k) \<leftarrow> dpf_proc_write (calls e 0) msg msg (kernel u); Some (ret, u\<lparr>kernel := k\<rparr>) }"

text \<open>Open the device, send a request and read up to \<open>len\<close> bytes of the response. \<open>tidy\<close>
  tells whether the function closes the descriptor on an error. The result holds the bytes read,
  or \<open>None\<close> after an error; on success the descriptor is still open.\<close>

definition exchange :: "uenv \<Rightarrow> bool \<Rightarrow> bytes \<Rightarrow> nat \<Rightarrow> ustate \<Rightarrow> (bytes option \<times> ustate) option" where
  "exchange e tidy req len u =
     (if \<not> open_ok e then Some (None, u)
      else do { let u = u\<lparr>fds := fds u + 1\<rparr>;
                (ret, u) \<leftarrow> u_write e req u;
                if ret < 0 then Some (None, if tidy then u_close u else u)
                else do { (ret, data, pos) \<leftarrow> proc_read (calls e 1) len 0 (kernel u);
                          if ret < 0 then Some (None, if tidy then u_close u else u)
                          else Some (Some data, u) } })"

text \<open>The functions that do nothing with the response except logging it.\<close>

definition send_request :: "uenv \<Rightarrow> bool \<Rightarrow> bytes \<Rightarrow> nat \<Rightarrow> ustate \<Rightarrow> (int \<times> ustate) option" where
  "send_request e tidy req len u =
     do { (resp, u) \<leftarrow> exchange e tidy req len u;
          Some (if resp = None then (-1, u) else (0, u_close u)) }"

section \<open>Requests\<close>

definition kernel_pmu_log_start :: "uenv \<Rightarrow> u64 \<Rightarrow> int \<Rightarrow> ustate \<Rightarrow> (int \<times> ustate) option" where
  "kernel_pmu_log_start e buffer_size reset u =
     send_request e True (header DPF_MSG_PMU_LOG_CONTROL 16 @ le32 (ucast buffer_size) @ le32 (word_of_int reset)) 20 u"

definition kernel_pmu_log_stop :: "uenv \<Rightarrow> ustate \<Rightarrow> (int \<times> ustate) option" where
  "kernel_pmu_log_stop e u = send_request e True (header DPF_MSG_PMU_LOG_STOP 8) 12 u"

text \<open>\<open>cap\<close> is the size of the caller's buffer; the copy into it is undefined when the data
  does not fit. The result holds what was stored in the buffer. A response shorter than the fixed
  part leaves the rest of the freshly allocated block as it was.\<close>

definition kernel_pmu_log_read ::
    "uenv \<Rightarrow> nat \<Rightarrow> u64 \<Rightarrow> ustate \<Rightarrow> (int \<times> bytes option \<times> ustate) option" where
  "kernel_pmu_log_read e cap max_bytes u =
     (if \<not> open_ok e then Some (-1, None, u)
      else do { let u = u\<lparr>fds := fds u + 1\<rparr>;
                (ret, u) \<leftarrow> u_write e (header DPF_MSG_PMU_LOG_READ 12 @ le32 (ucast max_bytes)) u;
                if ret < 0 then Some (-1, None, u_close u)
                else if \<not> umalloc_ok e 0 then Some (-1, None, u_close u)
                else do { let u = u\<lparr>uheap := uheap u + 1\<rparr>;
                          (ret, fixed, pos) \<leftarrow> proc_read (calls e 1) 16 0 (kernel u);
                          if ret < 0 then Some (-1, None, u_close (u\<lparr>uheap := uheap u - 1\<rparr>))
                          else do { data_size \<leftarrow> rd_u64 (fixed @ map (stack_byte e) [length fixed..<16]) 8;
                                    if \<not> umalloc_ok e 1 then Some (-1, None, u_close u)
                                    else do { (ret, data, pos) \<leftarrow> proc_read (calls e 2) (unat data_size) pos (kernel u);
                                              let u = u\<lparr>uheap := uheap u - 1\<rparr>;
                                              if ret < 0 then Some (-1, None, u_close u)
                                              else if unat data_size > cap then None
                                              else Some (0, Some (data @ map (stack_byte e) [16 + length data..<16 + unat data_size]),
                                                         u_close u) } } } })"

definition kernel_mode_init :: "uenv \<Rightarrow> ustate \<Rightarrow> (int \<times> ustate) option" where
  "kernel_mode_init e u = send_request e True (header DPF_MSG_INIT 8) 12 u"

definition kernel_core_range :: "uenv \<Rightarrow> u32 \<Rightarrow> u32 \<Rightarrow> ustate \<Rightarrow> (int \<times> ustate) option" where
  "kernel_core_range e start end_core u =
     send_request e False (header DPF_MSG_CORE_RANGE 16 @ le32 start @ le32 end_core) 20 u"

definition kernel_set_core_weights :: "uenv \<Rightarrow> int \<Rightarrow> int list \<Rightarrow> ustate \<Rightarrow> (int \<times> ustate) option" where
  "kernel_set_core_weights e count core_priority u =
     (if count \<le> 0 then Some (-1, u)
      else let req_size = 12 + nat count * 4; resp_size = 12 + nat count * 4
           in if \<not> umalloc_ok e 0 \<or> \<not> umalloc_ok e 1 then Some (-1, u)
              else if nat count > length core_priority then None
              else let u = u\<lparr>uheap := uheap u + 2\<rparr>;
                       req = header DPF_MSG_CORE_WEIGHT req_size @ le32 (word_of_int count)
                             @ concat (map (\<lambda>w. le32 (word_of_int w)) (take (nat count) core_priority))
                   in if \<not> open_ok e then Some (-1, u)
                      else do { (ret, u) \<leftarrow> send_request e False req resp_size u;
                                Some (ret, u\<lparr>uheap := uheap u - 2\<rparr>) })"

definition kernel_set_ddr_bandwidth :: "uenv \<Rightarrow> u32 \<Rightarrow> ustate \<Rightarrow> (int \<times> ustate) option" where
  "kernel_set_ddr_bandwidth e bandwidth u =
     send_request e True (header DPF_MSG_DDRBW_SET 12 @ le32 bandwidth) 12 u"

definition kernel_tuning_control ::
    "uenv \<Rightarrow> u32 \<Rightarrow> u32 \<Rightarrow> cfloat \<Rightarrow> ustate \<Rightarrow> (int \<times> ustate) option" where
  "kernel_tuning_control e tuning_status tunealg aggr_factor u =
     (if flt aggr_factor (f_of_int binary32 0) \<or> flt (f_of_int binary32 5) aggr_factor then Some (-1, u)
      else do { aggr_scaled \<leftarrow> ftrunc (fmul binary32 aggr_factor (f_of_int binary32 10));
                send_request e False
                  (header DPF_MSG_TUNING 20 @ le32 tuning_status @ le32 tunealg @ le32 (word_of_int aggr_scaled)) 20 u })"

section \<open>Readings\<close>

text \<open>The values are those stored through the caller's pointer.\<close>

definition read_values :: "uenv \<Rightarrow> bytes \<Rightarrow> nat \<Rightarrow> ustate \<Rightarrow> (int \<times> u64 list option \<times> ustate) option" where
  "read_values e req n u =
     do { (resp, u) \<leftarrow> exchange e True req (8 + 8 * n) u;
          case resp of
            None \<Rightarrow> Some (-1, None, u)
          | Some data \<Rightarrow>
              if length data \<noteq> 8 + 8 * n then Some (-1, None, u_close u)
              else Some (0, Some (map (\<lambda>i. the (rd_u64 data (8 + 8 * i))) [0..<n]), u_close u) }"

definition kernel_msr_read :: "uenv \<Rightarrow> u32 \<Rightarrow> ustate \<Rightarrow> (int \<times> u64 list option \<times> ustate) option" where
  "kernel_msr_read e core_id u =
     read_values e (header DPF_MSG_MSR_READ 12 @ le32 core_id) NR_OF_MSR u"

definition kernel_pmu_read :: "uenv \<Rightarrow> u32 \<Rightarrow> ustate \<Rightarrow> (int \<times> u64 list option \<times> ustate) option" where
  "kernel_pmu_read e core_id u =
     read_values e (header DPF_MSG_PMU_READ 12 @ le32 core_id) K_PMU_COUNTERS u"

definition kernel_ddr_bw_read :: "uenv \<Rightarrow> ustate \<Rightarrow> (int \<times> (u64 \<times> u64) option \<times> ustate) option" where
  "kernel_ddr_bw_read e u =
     do { (ret, vs, u) \<leftarrow> read_values e (header DPF_MSG_DDR_BW_READ 8) 2 u;
          Some (ret, map_option (\<lambda>vs. (vs ! 0, vs ! 1)) vs, u) }"

definition kernel_log_msr_values :: "uenv \<Rightarrow> u32 \<Rightarrow> ustate \<Rightarrow> (int \<times> ustate) option" where
  "kernel_log_msr_values e core_id u =
     do { (ret, _, u) \<leftarrow> kernel_msr_read e core_id u; Some (if ret < 0 then -1 else 0, u) }"

definition kernel_log_pmu_values :: "uenv \<Rightarrow> u32 \<Rightarrow> ustate \<Rightarrow> (int \<times> ustate) option" where
  "kernel_log_pmu_values e core_id u =
     do { (ret, _, u) \<leftarrow> kernel_pmu_read e core_id u; Some (if ret < 0 then -1 else 0, u) }"

definition kernel_log_ddr_bw :: "uenv \<Rightarrow> ustate \<Rightarrow> (int \<times> ustate) option" where
  "kernel_log_ddr_bw e u =
     do { (ret, _, u) \<leftarrow> kernel_ddr_bw_read e u;
          if ret < 0 then Some (-1, u)
          else if bw_time_old u = 0 then Some (0, u\<lparr>bw_time_old := get_time_ms e\<rparr>)
          else Some (0, u\<lparr>bw_time_old := get_time_ms e\<rparr>) }"

definition kernel_set_ddr_config :: "uenv \<Rightarrow> ddr_s \<Rightarrow> ustate \<Rightarrow> (int \<times> ustate) option" where
  "kernel_set_ddr_config e d u =
     (if ddr_interface_type d = DDR_NONE then Some (-1, u)
      else send_request e True (header DPF_MSG_DDR_CONFIG 24 @ le64 (bar_address d)
             @ le32 (word_of_int (ddr_interface_type d)) @ le32 (word_of_int (ddr_num_controllers d))) 24 u)"


section \<open>Descriptors and memory of the process\<close>

lemma u_close_frame [simp]:
  "fds (u_close u) = fds u - 1" "kernel (u_close u) = kernel u" "uheap (u_close u) = uheap u"
  "bw_time_old (u_close u) = bw_time_old u"
  by (simp_all add: u_close_def)

lemma u_write_frame: "u_write e msg u = Some (r, t) \<Longrightarrow> fds t = fds u \<and> uheap t = uheap u"
  by (auto simp: u_write_def split: bind_splits)

lemma exchange_frame:
  assumes "exchange e tidy req n u = Some (resp, t)"
  shows "fds t = fds u + (if resp = None then of_bool (open_ok e \<and> \<not> tidy) else 1) \<and> uheap t = uheap u"
proof (cases "open_ok e")
  case False
  then show ?thesis using assms by (simp add: exchange_def)
next
  case True
  then obtain ret v where v: "u_write e req (u\<lparr>fds := fds u + 1\<rparr>) = Some (ret, v)"
    using assms by (auto simp: exchange_def split: bind_splits)
  show ?thesis
    using assms True v u_write_frame [OF v]
    by (cases "ret < 0") (auto simp: exchange_def split: if_splits bind_splits)
qed

lemma send_frame:
  assumes "send_request e tidy req n u = Some (r, t)"
  shows "fds t = fds u + of_bool (r < 0 \<and> open_ok e \<and> \<not> tidy) \<and> uheap t = uheap u \<and> (r = 0 \<or> r = -1)"
proof -
  obtain resp v where v: "exchange e tidy req n u = Some (resp, v)" "(r, t) = (if resp = None then (-1, v) else (0, u_close v))"
    using assms by (auto simp: send_request_def split: bind_splits)
  then show ?thesis using exchange_frame [OF v(1)] by (cases "resp = None") auto
qed

text \<open>A function of the library that releases what it acquired on every path, and what its callers
  get from that: any number of calls, failed ones included, leaves the process as it was.\<close>

fun call_all :: "(uenv \<Rightarrow> ustate \<Rightarrow> (int \<times> ustate) option) \<Rightarrow> uenv list \<Rightarrow> ustate \<Rightarrow> ustate option" where
  "call_all f [] u = Some u"
| "call_all f (e # es) u = do { (_, u) \<leftarrow> f e u; call_all f es u }"

locale tidy_call =
  fixes call :: "uenv \<Rightarrow> ustate \<Rightarrow> (int \<times> ustate) option"
  assumes closes: "call e u = Some (r, t) \<Longrightarrow> fds t = fds u"
    and frees: "call e u = Some (r, t) \<Longrightarrow> uheap t = uheap u"
    and verdict: "call e u = Some (r, t) \<Longrightarrow> r = 0 \<or> r = -1"
begin

lemma call_all_tidy: "call_all call es u = Some t \<Longrightarrow> fds t = fds u \<and> uheap t = uheap u"
  by (induction es arbitrary: u) (auto split: bind_splits dest: closes frees)

end

lemma tidy_send: "tidy_call (\<lambda>e. send_request e True req n)"
  by unfold_locales (auto dest: send_frame)

lemma read_values_frame:
  assumes "read_values e req n u = Some (r, vs, t)"
  shows "fds t = fds u \<and> uheap t = uheap u \<and> (r = 0 \<and> vs \<noteq> None \<or> r = -1 \<and> vs = None)"
proof -
  obtain resp v where v: "exchange e True req (8 + 8 * n) u = Some (resp, v)"
    using assms by (auto simp: read_values_def split: bind_splits)
  then show ?thesis
    using assms exchange_frame [OF v] by (auto simp: read_values_def split: option.splits if_splits)
qed

interpretation c_init: tidy_call kernel_mode_init
  unfolding kernel_mode_init_def by (rule tidy_send)

interpretation c_start: tidy_call "\<lambda>e. kernel_pmu_log_start e b reset" for b reset
  unfolding kernel_pmu_log_start_def by (rule tidy_send)

interpretation c_stop: tidy_call kernel_pmu_log_stop
  unfolding kernel_pmu_log_stop_def by (rule tidy_send)

interpretation c_bandwidth: tidy_call "\<lambda>e. kernel_set_ddr_bandwidth e b" for b
  unfolding kernel_set_ddr_bandwidth_def by (rule tidy_send)

interpretation c_config: tidy_call "\<lambda>e. kernel_set_ddr_config e d" for d
  by unfold_locales (auto simp: kernel_set_ddr_config_def split: if_splits dest: send_frame)

interpretation c_msr: tidy_call "\<lambda>e. kernel_log_msr_values e c" for c
  by unfold_locales
     (auto simp: kernel_log_msr_values_def kernel_msr_read_def split: bind_splits if_splits dest!: read_values_frame)

interpretation c_pmu: tidy_call "\<lambda>e. kernel_log_pmu_values e c" for c
  by unfold_locales
     (auto simp: kernel_log_pmu_values_def kernel_pmu_read_def split: bind_splits if_splits dest!: read_values_frame)

interpretation c_bw: tidy_call kernel_log_ddr_bw
  by unfold_locales
     (auto simp: kernel_log_ddr_bw_def kernel_ddr_bw_read_def split: bind_splits if_splits dest!: read_values_frame)

text \<open>The calls of the library: the eleven whose result is a status, and the four that also store
  what they read; \<open>cap\<close> is the room behind the buffer pointer of \<open>kernel_pmu_log_read\<close>.\<close>

datatype ucall = Mode_Init | Log_Start u64 int | Log_Stop | Ddr_Bandwidth u32 | Ddr_Config ddr_s
  | Log_Msr u32 | Log_Pmu u32 | Log_Bw | Core_Range u32 u32 | Core_Weights int "int list" | Tuning u32 u32 cfloat
  | Log_Read nat u64 | Msr_Read u32 | Pmu_Read u32 | Bw_Read

definition call_status :: "(int \<times> 'v \<times> ustate) option \<Rightarrow> (int \<times> ustate) option" where
  "call_status = map_option (\<lambda>(r, v, t). (r, t))"

fun run_call :: "ucall \<Rightarrow> uenv \<Rightarrow> ustate \<Rightarrow> (int \<times> ustate) option" where
  "run_call Mode_Init e = kernel_mode_init e"
| "run_call (Log_Start b reset) e = kernel_pmu_log_start e b reset"
| "run_call Log_Stop e = kernel_pmu_log_stop e"
| "run_call (Ddr_Bandwidth b) e = kernel_set_ddr_bandwidth e b"
| "run_call (Ddr_Config d) e = kernel_set_ddr_config e d"
| "run_call (Log_Msr c) e = kernel_log_msr_values e c"
| "run_call (Log_Pmu c) e = kernel_log_pmu_values e c"
| "run_call Log_Bw e = kernel_log_ddr_bw e"
| "run_call (Core_Range a b) e = kernel_core_range e a b"
| "run_call (Core_Weights n ws) e = kernel_set_core_weights e n ws"
| "run_call (Tuning st alg f) e = kernel_tuning_control e st alg f"
| "run_call (Log_Read cap max_bytes) e = (\<lambda>u. call_status (kernel_pmu_log_read e cap max_bytes u))"
| "run_call (Msr_Read c) e = (\<lambda>u. call_status (kernel_msr_read e c u))"
| "run_call (Pmu_Read c) e = (\<lambda>u. call_status (kernel_pmu_read e c u))"
| "run_call Bw_Read e = (\<lambda>u. call_status (kernel_ddr_bw_read e u))"

text \<open>The calls that return early without closing the descriptor, once they have opened it.\<close>

fun keeps_descriptor :: "ucall \<Rightarrow> uenv \<Rightarrow> bool" where
  "keeps_descriptor (Core_Range a b) e = open_ok e"
| "keeps_descriptor (Core_Weights n ws) e = (open_ok e \<and> n > 0 \<and> umalloc_ok e 0 \<and> umalloc_ok e 1)"
| "keeps_descriptor (Tuning st alg f) e =
     (open_ok e \<and> \<not> flt f (f_of_int binary32 0) \<and> \<not> flt (f_of_int binary32 5) f)"
| "keeps_descriptor _ e = False"

fun keeps_memory :: "ucall \<Rightarrow> uenv \<Rightarrow> bool" where
  "keeps_memory (Core_Weights n ws) e = (\<not> open_ok e \<and> n > 0 \<and> umalloc_ok e 0 \<and> umalloc_ok e 1)"
| "keeps_memory _ e = False"

text \<open>The log read whose request was answered and whose second allocation, the \<open>realloc\<close> that makes
  room for the data, fails.\<close>

fun loses_block :: "ucall \<Rightarrow> uenv \<Rightarrow> ustate \<Rightarrow> bool" where
  "loses_block (Log_Read cap max_bytes) e u =
     (open_ok e \<and> umalloc_ok e 0 \<and> \<not> umalloc_ok e 1 \<and>
      (case u_write e (header DPF_MSG_PMU_LOG_READ 12 @ le32 (ucast max_bytes)) (u\<lparr>fds := fds u + 1\<rparr>) of
         None \<Rightarrow> False
       | Some (ret, v) \<Rightarrow> 0 \<le> ret \<and>
           (case proc_read (calls e 1) 16 0 (kernel v) of None \<Rightarrow> False | Some (ret, _) \<Rightarrow> 0 \<le> ret)))"
| "loses_block _ e u = False"

lemmas tidy_closes = c_init.closes c_start.closes c_stop.closes c_bandwidth.closes c_config.closes c_msr.closes
  c_pmu.closes c_bw.closes
lemmas tidy_frees = c_init.frees c_start.frees c_stop.frees c_bandwidth.frees c_config.frees c_msr.frees
  c_pmu.frees c_bw.frees
lemmas tidy_verdict = c_init.verdict c_start.verdict c_stop.verdict c_bandwidth.verdict c_config.verdict c_msr.verdict
  c_pmu.verdict c_bw.verdict

lemma untidy_calls:
  "kernel_core_range e a b u = Some (r, t) \<Longrightarrow>
     fds t = fds u + of_bool (r < 0 \<and> open_ok e) \<and> uheap t = uheap u \<and> (r = 0 \<or> r = -1)"
  "kernel_set_core_weights e n ws u = Some (r, t) \<Longrightarrow>
     fds t = fds u + of_bool (r < 0 \<and> keeps_descriptor (Core_Weights n ws) e) \<and>
     uheap t = uheap u + (if keeps_memory (Core_Weights n ws) e then 2 else 0) \<and>
     (r = 0 \<and> \<not> keeps_memory (Core_Weights n ws) e \<or> r = -1)"
  "kernel_tuning_control e st alg f u = Some (r, t) \<Longrightarrow>
     fds t = fds u + of_bool (r < 0 \<and> keeps_descriptor (Tuning st alg f) e) \<and> uheap t = uheap u \<and> (r = 0 \<or> r = -1)"
    apply (auto simp: kernel_core_range_def dest!: send_frame)[1]
   apply (auto simp: kernel_set_core_weights_def Let_def split: if_splits bind_splits dest!: send_frame)[1]
  apply (auto simp: kernel_tuning_control_def split: if_splits bind_splits dest!: send_frame)
  done

lemma value_reads:
  "call_status (kernel_msr_read e c u) = Some (r, t) \<Longrightarrow> fds t = fds u \<and> uheap t = uheap u \<and> (r = 0 \<or> r = -1)"
  "call_status (kernel_pmu_read e c u) = Some (r, t) \<Longrightarrow> fds t = fds u \<and> uheap t = uheap u \<and> (r = 0 \<or> r = -1)"
  "call_status (kernel_ddr_bw_read e u) = Some (r, t) \<Longrightarrow> fds t = fds u \<and> uheap t = uheap u \<and> (r = 0 \<or> r = -1)"
  by (auto simp: call_status_def kernel_msr_read_def kernel_pmu_read_def kernel_ddr_bw_read_def
      split: bind_splits dest!: read_values_frame)

lemma log_read_leaks:
  assumes "call_status (kernel_pmu_log_read e cap m u) = Some (r, t)"
  shows "fds t = fds u \<and> uheap t = uheap u + of_bool (loses_block (Log_Read cap m) e u) \<and>
    (r = 0 \<and> \<not> loses_block (Log_Read cap m) e u \<or> r = -1)"
proof (cases "open_ok e")
  case False
  then show ?thesis using assms by (auto simp: call_status_def kernel_pmu_log_read_def)
next
  case True
  let ?req = "header DPF_MSG_PMU_LOG_READ 12 @ le32 (ucast m)"
  obtain ret v where v: "u_write e ?req (u\<lparr>fds := fds u + 1\<rparr>) = Some (ret, v)"
    using assms True by (auto simp: call_status_def kernel_pmu_log_read_def split: bind_splits)
  have f: "fds v = fds u + 1" "uheap v = uheap u" using u_write_frame [OF v] by simp_all
  show ?thesis
  proof (cases "ret < 0 \<or> \<not> umalloc_ok e 0")
    case True
    then show ?thesis
      using assms \<open>open_ok e\<close> v f by (auto simp: call_status_def kernel_pmu_log_read_def split: if_splits)
  next
    case False
    then obtain ret' fixed pos where p: "proc_read (calls e 1) 16 0 (kernel v) = Some (ret', fixed, pos)"
      using assms \<open>open_ok e\<close> v by (auto simp: call_status_def kernel_pmu_log_read_def Let_def split: bind_splits)
    show ?thesis
      using assms \<open>open_ok e\<close> v f p False
      by (auto simp: call_status_def kernel_pmu_log_read_def Let_def split: if_splits bind_splits)
  qed
qed

text \<open>
  Claim C16: what a call of the library leaves behind, for each of its fifteen calls, the four that
  return values included, and whatever fails. Every call returns 0 or \<open>-1\<close>, and a successful one
  closes the descriptor it opened and frees what it allocated; so do the failing ones, with three
  exact exceptions: a failed \<open>kernel_core_range\<close>, \<open>kernel_set_core_weights\<close> or
  \<open>kernel_tuning_control\<close> leaves one descriptor open when it had got as far as opening it,
  \<open>kernel_set_core_weights\<close> leaves its two blocks allocated when the device cannot be opened, and
  \<open>kernel_pmu_log_read\<close> loses its block when the request was answered and the \<open>realloc\<close> for the
  data fails.
\<close>

theorem client_leaks_exactly:
  assumes "run_call c e u = Some (r, t)"
  shows "fds t = fds u + of_bool (r < 0 \<and> keeps_descriptor c e) \<and>
         uheap t = uheap u + (if keeps_memory c e then 2 else 0) + of_bool (loses_block c e u) \<and>
         (r = 0 \<and> fds t = fds u \<and> uheap t = uheap u \<or> r = -1)"
  using assms
  by (cases c)
    (auto simp del: loses_block.simps(1) simp add: loses_block.simps(2-15)
      dest: tidy_closes tidy_frees tidy_verdict untidy_calls value_reads log_read_leaks)

definition demo_ustate :: ustate where
  "demo_ustate = \<lparr>kernel = demo_kstate, fds = 3, uheap = 0, bw_time_old = 0\<rparr>"

definition demo_uenv :: uenv where
  "demo_uenv = \<lparr>open_ok = True, calls = (\<lambda>_. demo_kenv), umalloc_ok = (\<lambda>_. True), stack_byte = (\<lambda>_. 0),
     monotonic = (1, 0)\<rparr>"

section \<open>A request and its response\<close>

text \<open>Nothing in the system fails during the call.\<close>

definition system_ok :: "uenv \<Rightarrow> bool" where
  "system_ok e \<longleftrightarrow> open_ok e \<and> umalloc_ok e 0 \<and> umalloc_ok e 1 \<and>
     (\<forall>j i n. kmalloc_ok (calls e j) i n) \<and> (\<forall>j i. copy_ok (calls e j) i)"

text \<open>The kernel's state when it dispatches a request: the old response is gone, the request is
  allocated.\<close>

definition receiving :: "kstate \<Rightarrow> kstate" where
  "receiving s = kmalloced ((kfree_proc_buffer s)\<lparr>proc_buffer := None, proc_buffer_size := 0\<rparr>)"

lemma receiving_frame [simp]:
  "proc_buffer (receiving s) = None" "proc_buffer_size (receiving s) = 0" "corestate (receiving s) = corestate s"
  "hwreg (receiving s) = hwreg s" "pmu_log_buffer (receiving s) = pmu_log_buffer s"
  "pmu_log_buffer_size (receiving s) = pmu_log_buffer_size s" "pmu_log_data_size (receiving s) = pmu_log_data_size s"
  by (simp_all add: receiving_def kmalloced_def kfree_proc_buffer_def kfreed_def)

lemma rd_header [simp]: "rd_u32 (header kind n @ body) 0 = Some kind"
  by (simp add: header_def)

lemma write_dispatches:
  assumes "system_ok e" and "length body + 8 \<le> MAX_MSG_SIZE"
  shows "u_write e (header kind n @ body) u =
    do { (ret, k) \<leftarrow> dispatch (calls e 0) kind (header kind n @ body) (receiving (kernel u));
         Some (if ret < 0 then ret else int (length body) + 8, u\<lparr>kernel := kfreed k\<rparr>) }"
  using assms
  by (cases "dispatch (calls e 0) kind (header kind n @ body) (receiving (kernel u))")
     (auto simp: u_write_def dpf_proc_write_def system_ok_def Let_def simp flip: receiving_def)

lemma read_response:
  assumes "copy_ok e 2" and "proc_buffer s = Some b" and "proc_buffer_size s = length b" and "pos < length b"
  shows "proc_read e n pos s =
    Some (int (min n (length b - pos)), take n (drop pos b), pos + min n (length b - pos))"
  using assms by (auto simp: proc_read_def rd_bytes_def Let_def min_def)

lemma exchange_answer:
  assumes "system_ok e" and "length body + 8 \<le> MAX_MSG_SIZE"
    and "dispatch (calls e 0) kind (header kind m @ body) (receiving (kernel u)) = Some (r, k)"
  shows "0 \<le> r \<Longrightarrow> proc_buffer k = Some b \<Longrightarrow> proc_buffer_size k = length b \<Longrightarrow> b \<noteq> [] \<Longrightarrow>
      exchange e tidy (header kind m @ body) n u =
        Some (Some (take n b), u\<lparr>fds := fds u + 1, kernel := kfreed k\<rparr>)"
    and "r < 0 \<Longrightarrow> exchange e tidy (header kind m @ body) n u =
        Some (None, u\<lparr>fds := fds u + of_bool (\<not> tidy), kernel := kfreed k\<rparr>)"
proof -
  have w: "u_write e (header kind m @ body) (u\<lparr>fds := fds u + 1\<rparr>) =
      Some (if r < 0 then r else int (length body) + 8, u\<lparr>fds := fds u + 1, kernel := kfreed k\<rparr>)"
    using write_dispatches [OF assms(1,2), of kind m "u\<lparr>fds := fds u + 1\<rparr>"] assms(3) by simp
  have o: "open_ok e" "copy_ok (calls e 1) 2" using assms(1) by (simp_all add: system_ok_def)
  show "exchange e tidy (header kind m @ body) n u =
      Some (None, u\<lparr>fds := fds u + of_bool (\<not> tidy), kernel := kfreed k\<rparr>)" if "r < 0"
    using w o that by (simp add: exchange_def u_close_def)
  show "exchange e tidy (header kind m @ body) n u = Some (Some (take n b), u\<lparr>fds := fds u + 1, kernel := kfreed k\<rparr>)"
    if "0 \<le> r" "proc_buffer k = Some b" "proc_buffer_size k = length b" "b \<noteq> []"
  proof -
    have "proc_read (calls e 1) n 0 (kfreed k) = Some (int (min n (length b)), take n b, min n (length b))"
      using read_response [OF o(2), of "kfreed k" b 0 n] that by (simp add: kfreed_def)
    then show ?thesis using w o that(1) by (simp add: exchange_def)
  qed
qed

lemma u_close_update [simp]: "u_close (u\<lparr>fds := fds u + 1, kernel := k\<rparr>) = u\<lparr>kernel := k\<rparr>"
  by (simp add: u_close_def)

lemma install_resp_buffer [simp]:
  "proc_buffer (install_resp b s) = Some b" "proc_buffer_size (install_resp b s) = length b"
  by (simp_all add: install_resp_def)

lemma concat_le64: "length (concat (map (\<lambda>i. le64 (f i)) [0..<n])) = 8 * n"
  by (induction n) simp_all

lemma rd_concat_le64:
  "i < n \<Longrightarrow> rd_u64 (concat (map (\<lambda>i. le64 (f i)) [0..<n])) (8 * i) = Some (f i)"
proof (induction n)
  case 0
  then show ?case by simp
next
  case (Suc n)
  show ?case
  proof (cases "i = n")
    case True
    then show ?thesis by (simp add: concat_le64)
  next
    case False
    then have "rd_u64 (concat (map (\<lambda>i. le64 (f i)) [0..<n])) (8 * i) = Some (f i)" using Suc by simp
    then show ?thesis using False Suc.prems by (simp add: rd_u64_def rd_bytes_def concat_le64 split: if_splits)
  qed
qed

lemma read_values_answer:
  assumes "system_ok e" and "length body + 8 \<le> MAX_MSG_SIZE"
    and "dispatch (calls e 0) kind (header kind m @ body) (receiving (kernel u)) =
      Some (0, install_resp (header kind k @ concat (map (\<lambda>i. le64 (f i)) [0..<n])) s)"
  shows "read_values e (header kind m @ body) n u =
    Some (0, Some (map f [0..<n]), u\<lparr>kernel := kfreed (install_resp (header kind k @ concat (map (\<lambda>i. le64 (f i)) [0..<n])) s)\<rparr>)"
proof -
  let ?b = "header kind k @ concat (map (\<lambda>i. le64 (f i)) [0..<n])"
  have "length ?b = 8 + 8 * n" by (simp add: concat_le64)
  moreover have "?b \<noteq> []" by (metis append_is_Nil_conv length_0_conv length_header zero_neq_numeral)
  ultimately have "exchange e True (header kind m @ body) (8 + 8 * n) u =
      Some (Some ?b, u\<lparr>fds := fds u + 1, kernel := kfreed (install_resp ?b s)\<rparr>)"
    using exchange_answer(1) [OF assms, of ?b True "8 + 8 * n"] by simp
  moreover have "map (\<lambda>i. the (rd_u64 ?b (8 + 8 * i))) [0..<n] = map f [0..<n]"
    by (simp add: rd_concat_le64)
  ultimately show ?thesis by (simp add: read_values_def concat_le64)
qed

text \<open>A reading by an enabled core changes the kernel's copy of that core only; the stored values
  of the other readings stay.\<close>

definition same_readings :: "kstate \<Rightarrow> kstate \<Rightarrow> bool" where
  "same_readings s t \<longleftrightarrow> (\<forall>i. core_disabled (corestate t i) = core_disabled (corestate s i))"

lemma core_readable_ok:
  assumes "core_readable c k"
  shows "core_ok (uint c)" "core_disabled (corestate k (nat (uint c))) = 0"
  using assms by (simp_all add: core_readable_def core_ok_def)

lemma corestate_kept [simp]:
  "corestate (kfreed k) = corestate k" "corestate (kmalloced k) = corestate k" "corestate (install_resp b k) = corestate k"
  by (simp_all add: kfreed_def kmalloced_def install_resp_def kfree_proc_buffer_def)

lemma pmu_read_sampled:
  assumes "system_ok e" and "core_readable c (kernel u)"
  shows "\<exists>t. kernel_pmu_read e c u = Some (0, Some (map (pmc (calls e 0) (cpu (calls e 0))) [0..<K_PMU_COUNTERS]), t) \<and>
    fds t = fds u \<and> same_readings (kernel u) (kernel t) \<and>
    (\<forall>i. pf_msr (corestate (kernel t) i) = pf_msr (corestate (kernel u) i))"
proof -
  let ?k = "receiving (kernel u)" and ?req = "header DPF_MSG_PMU_READ 12 @ le32 c"
  define s where "s = snd (pmu_update (pmc (calls e 0)) (cpu (calls e 0)) (uint c) (kmalloced ?k))"
  have len: "length (le32 c) + 8 \<le> MAX_MSG_SIZE" by (simp add: MAX_MSG_SIZE_def)
  have r: "rd_u32 ?req 8 = Some c" "core_readable c ?k" using assms(2) by (simp_all add: core_readable_def)
  note upd = pmu_update_enabled [OF core_readable_ok(1) [OF assms(2)], of "kmalloced ?k" "pmc (calls e 0)" "cpu (calls e 0)"]
  have raw: "pmu_raw (corestate s (unat c)) i = pmc (calls e 0) (cpu (calls e 0)) i" if "i < K_PMU_COUNTERS" for i
    using that core_readable_ok(2) [OF assms(2)] unfolding s_def by (simp add: upd read_counters_eq)
  have kept: "core_disabled (corestate s i) = core_disabled (corestate (kernel u) i) \<and>
      pf_msr (corestate s i) = pf_msr (corestate (kernel u) i)" for i
    using core_readable_ok(2) [OF assms(2)] unfolding s_def by (simp add: upd)
  let ?resp = "header DPF_MSG_PMU_READ 72 @ concat (map (\<lambda>i. le64 (pmc (calls e 0) (cpu (calls e 0)) i)) [0..<K_PMU_COUNTERS])"
  have eq: "map (\<lambda>i. le64 (pmu_raw (corestate s (unat c)) i)) [0..<K_PMU_COUNTERS] =
      map (\<lambda>i. le64 (pmc (calls e 0) (cpu (calls e 0)) i)) [0..<K_PMU_COUNTERS]" using raw by simp
  have "dispatch (calls e 0) DPF_MSG_PMU_READ ?req ?k = Some (0, install_resp (header DPF_MSG_PMU_READ 72 @
      concat (map (\<lambda>i. le64 (pmu_raw (corestate s (unat c)) i)) [0..<K_PMU_COUNTERS])) s)"
    using r assms(1) by (simp add: dispatch_def api_pmu_read_def Let_def system_ok_def s_def [symmetric]) (simp add: const_simps)
  then have "kernel_pmu_read e c u = Some (0, Some (map (pmc (calls e 0) (cpu (calls e 0))) [0..<K_PMU_COUNTERS]),
      u\<lparr>kernel := kfreed (install_resp ?resp s)\<rparr>)"
    unfolding eq using read_values_answer [OF assms(1) len, of DPF_MSG_PMU_READ 12 u] by (simp add: kernel_pmu_read_def)
  then show ?thesis using kept by (simp add: same_readings_def)
qed

lemma msr_read_loaded:
  assumes "system_ok e" and "core_readable c (kernel u)"
  shows "\<exists>t. kernel_msr_read e c u = Some (0, Some (map (pf_msr (corestate (kernel t) (unat c))) [0..<NR_OF_MSR]), t) \<and>
    fds t = fds u \<and> same_readings (kernel u) (kernel t) \<and>
    (\<forall>i. i \<noteq> unat c \<longrightarrow> pf_msr (corestate (kernel t) i) = pf_msr (corestate (kernel u) i))"
proof -
  let ?k = "receiving (kernel u)" and ?req = "header DPF_MSG_MSR_READ 12 @ le32 c"
  have len: "length (le32 c) + 8 \<le> MAX_MSG_SIZE" by (simp add: MAX_MSG_SIZE_def)
  have r: "rd_u32 ?req 8 = Some c" "core_readable c ?k" using assms(2) by (simp_all add: core_readable_def)
  have "\<exists>s. (if pf_msr (corestate (kmalloced ?k) (unat c)) MSR_1320_INDEX = 0
      then msr_load (cpu (calls e 0)) (uint c) (kmalloced ?k) else Some (kmalloced ?k)) = Some s \<and>
    same_readings (kernel u) s \<and> (\<forall>i. i \<noteq> unat c \<longrightarrow> pf_msr (corestate s i) = pf_msr (corestate (kernel u) i))"
    using core_readable_ok [OF assms(2)] by (simp add: msr_load_eq same_readings_def)
  then obtain s where s: "(if pf_msr (corestate (kmalloced ?k) (unat c)) MSR_1320_INDEX = 0
      then msr_load (cpu (calls e 0)) (uint c) (kmalloced ?k) else Some (kmalloced ?k)) = Some s"
    "same_readings (kernel u) s" "\<forall>i. i \<noteq> unat c \<longrightarrow> pf_msr (corestate s i) = pf_msr (corestate (kernel u) i)" by blast
  let ?resp = "header DPF_MSG_MSR_READ 64 @ concat (map (\<lambda>i. le64 (pf_msr (corestate s (unat c)) i)) [0..<NR_OF_MSR])"
  have "dispatch (calls e 0) DPF_MSG_MSR_READ ?req ?k = Some (0, install_resp ?resp s)"
    using r assms(1) s(1) by (simp add: dispatch_def api_msr_read_def Let_def system_ok_def) (simp add: const_simps)
  then have "kernel_msr_read e c u = Some (0, Some (map (pf_msr (corestate s (unat c))) [0..<NR_OF_MSR]),
      u\<lparr>kernel := kfreed (install_resp ?resp s)\<rparr>)"
    using read_values_answer [OF assms(1) len, of DPF_MSG_MSR_READ 12 u] by (simp add: kernel_msr_read_def)
  then show ?thesis using s(2,3) by (simp add: same_readings_def)
qed

text \<open>
  Reading the counters of a core end to end. When nothing fails, \<open>kernel_pmu_read\<close>
  on an enabled core number in range returns 0 and stores for the caller exactly the eight
  counters that the kernel sampled for this request, in order; the counters are those of the CPU
  that served the request. Any other core number gives \<open>-1\<close> and stores nothing. Both ways the
  descriptor is closed.
\<close>

theorem pmu_read_end_to_end:
  assumes "system_ok e"
  shows "if core_readable c (kernel u)
    then \<exists>t. kernel_pmu_read e c u = Some (0, Some (map (pmc (calls e 0) (cpu (calls e 0))) [0..<K_PMU_COUNTERS]), t) \<and>
      fds t = fds u
    else \<exists>t. kernel_pmu_read e c u = Some (-1, None, t) \<and> fds t = fds u"
proof (cases "core_readable c (kernel u)")
  case False
  let ?k = "receiving (kernel u)" and ?req = "header DPF_MSG_PMU_READ 12 @ le32 c"
  have "length (le32 c) + 8 \<le> MAX_MSG_SIZE" "rd_u32 ?req 8 = Some c" by (simp_all add: MAX_MSG_SIZE_def)
  moreover from this have "dispatch (calls e 0) DPF_MSG_PMU_READ ?req ?k = Some (- EINVAL, ?k)"
    using False by (simp add: dispatch_def api_pmu_read_def const_simps core_readable_def)
  ultimately show ?thesis
    using False exchange_answer(2) [OF assms, of "le32 c" DPF_MSG_PMU_READ 12 u] by (simp add: kernel_pmu_read_def read_values_def)
next
  case True
  then show ?thesis using pmu_read_sampled [OF assms True] by auto
qed

lemma demo_system_ok: "system_ok demo_uenv"
  by (simp add: system_ok_def demo_uenv_def demo_kenv_simps)

theorem pmu_read_end_to_end_witness:
  "(\<exists>t. kernel_pmu_read demo_uenv 2 demo_ustate = Some (0, Some (replicate 8 0), t) \<and> fds t = 3) \<and>
   (\<exists>t. kernel_pmu_read demo_uenv 600 demo_ustate = Some (-1, None, t))"
proof -
  have "core_readable 2 (kernel demo_ustate)" "\<not> core_readable 600 (kernel demo_ustate)"
    by (simp_all add: core_readable_def demo_ustate_def demo_kstate_simps MAX_NUM_CORES_def)
  moreover have "map (pmc (calls demo_uenv 0) (cpu (calls demo_uenv 0))) [0..<K_PMU_COUNTERS] = replicate 8 0"
    by (simp add: demo_uenv_def demo_kenv_simps const_simps map_replicate_const)
  ultimately show ?thesis
    using pmu_read_end_to_end [OF demo_system_ok, of 2 demo_ustate] pmu_read_end_to_end [OF demo_system_ok, of 600 demo_ustate]
    by (auto simp: demo_ustate_def)
qed

lemma res_ok_receiving: "res_ok s \<Longrightarrow> res_ok (receiving s)"
  by (simp add: receiving_def cleared_proc_buffer)

text \<open>A request that the kernel answers reaches the caller, whatever the request is.\<close>

lemma send_answer:
  assumes "system_ok e" and "length body + 8 \<le> MAX_MSG_SIZE" and "res_ok (kernel u)"
    and "dispatch (calls e 0) kind (header kind m @ body) (receiving (kernel u)) = Some (r, k)"
  shows "0 \<le> r \<Longrightarrow> send_request e tidy (header kind m @ body) n u = Some (0, u\<lparr>kernel := kfreed k\<rparr>)"
    and "r < 0 \<Longrightarrow> send_request e tidy (header kind m @ body) n u =
      Some (-1, u\<lparr>fds := fds u + of_bool (\<not> tidy), kernel := kfreed k\<rparr>)"
proof -
  show "send_request e tidy (header kind m @ body) n u =
      Some (-1, u\<lparr>fds := fds u + of_bool (\<not> tidy), kernel := kfreed k\<rparr>)" if "r < 0"
    using exchange_answer(2) [OF assms(1,2,4) that] by (simp add: send_request_def)
  show "send_request e tidy (header kind m @ body) n u = Some (0, u\<lparr>kernel := kfreed k\<rparr>)" if "0 \<le> r"
  proof -
    have "response_ok kind k"
      using dispatch_kept [OF assms(4)] res_ok_receiving [OF assms(3)] that by blast
    then obtain b where b: "proc_buffer k = Some b" "proc_buffer_size k = length b" "rd_u32 b 0 = Some kind"
      by (auto simp: response_ok_def)
    then have "b \<noteq> []" using rd_u32_None_iff [of b 0] by auto
    then show ?thesis
      using exchange_answer(1) [OF assms(1,2,4) that b(1,2)] by (simp add: send_request_def)
  qed
qed

text \<open>
  Claim C17: setting the core range end to end. When nothing fails, \<open>kernel_core_range a b\<close>
  returns 0 exactly for \<open>a \<le> b < 512\<close>, and the kernel then tunes exactly the online cores of
  that range; otherwise it returns \<open>-1\<close>, the kernel keeps its range and its set of cores, and
  the descriptor stays open.
\<close>

theorem core_range_end_to_end:
  assumes "system_ok e" and "res_ok (kernel u)"
  shows "if unat a \<le> unat b \<and> unat b < 512
    then \<exists>t. kernel_core_range e a b u = Some (0, t) \<and> fds t = fds u \<and>
      sys_first_core (kernel t) = int (unat a) \<and> sys_active_cores (kernel t) = int (unat b) + 1 - int (unat a) \<and>
      (\<forall>c < 512. core_disabled (corestate (kernel t) c) = 0 \<longleftrightarrow>
         unat a \<le> c \<and> c \<le> unat b \<and> c \<in> set (online_cpus (calls e 0)))
    else \<exists>t. kernel_core_range e a b u = Some (-1, t) \<and> fds t = fds u + 1 \<and>
      sys_first_core (kernel t) = sys_first_core (kernel u) \<and> corestate (kernel t) = corestate (kernel u)"
proof -
  let ?k = "receiving (kernel u)" and ?req = "header DPF_MSG_CORE_RANGE 16 @ le32 a @ le32 b"
  have len: "length (le32 a @ le32 b) + 8 \<le> MAX_MSG_SIZE" by (simp add: MAX_MSG_SIZE_def)
  have r: "rd_u32 ?req 8 = Some a" "rd_u32 ?req 12 = Some b" "kmalloc_ok (calls e 0) 0 20"
    using assms(1) by (simp_all add: system_ok_def)
  have d: "dispatch (calls e 0) DPF_MSG_CORE_RANGE ?req ?k = api_core_range (calls e 0) ?req ?k"
    by (simp add: dispatch_def const_simps)
  have frame: "sys_first_core (kfreed k) = sys_first_core k" "sys_active_cores (kfreed k) = sys_active_cores k"
    "corestate (kfreed k) = corestate k" "sys_first_core (receiving k) = sys_first_core k" for k
    by (simp_all add: kfreed_def receiving_def kmalloced_def kfree_proc_buffer_def)
  note spec = core_range_spec [OF r, of ?k]
  show ?thesis
  proof (cases "unat a \<le> unat b \<and> unat b < 512")
    case True
    then obtain k where k: "api_core_range (calls e 0) ?req ?k = Some (0, k)"
      "sys_first_core k = int (unat a)" "sys_active_cores k = int (unat b) + 1 - int (unat a)"
      "\<forall>c < 512. core_disabled (corestate k c) = 0 \<longleftrightarrow> unat a \<le> c \<and> c \<le> unat b \<and> c \<in> set (online_cpus (calls e 0))"
      using spec by auto
    then have "kernel_core_range e a b u = Some (0, u\<lparr>kernel := kfreed k\<rparr>)"
      unfolding kernel_core_range_def using send_answer(1) [OF assms(1) len assms(2)] d by simp
    then show ?thesis using True k(2-4) by (simp add: frame)
  next
    case False
    then have "api_core_range (calls e 0) ?req ?k = Some (- EINVAL, ?k)" using spec by argo
    then have "kernel_core_range e a b u = Some (-1, u\<lparr>fds := fds u + of_bool (\<not> False), kernel := kfreed ?k\<rparr>)"
      unfolding kernel_core_range_def d [symmetric] using send_answer(2) [OF assms(1) len assms(2), of _ 16] by simp
    then show ?thesis using False by (simp add: frame)
  qed
qed

lemma demo_res_ok: "res_ok (kernel demo_ustate)"
  using demo_res by (simp add: demo_ustate_def)

theorem core_range_end_to_end_witness:
  "(\<exists>t. kernel_core_range demo_uenv 1 9 demo_ustate = Some (0, t) \<and> sys_active_cores (kernel t) = 9) \<and>
   (\<exists>t. kernel_core_range demo_uenv 5 600 demo_ustate = Some (-1, t) \<and> fds t = 4)"
  using core_range_end_to_end [OF demo_system_ok demo_res_ok, of 1 9] core_range_end_to_end [OF demo_system_ok demo_res_ok, of 5 600]
  by (auto simp: demo_ustate_def)

text \<open>The response to a log read on the empty log, of which only the first allocation succeeds.\<close>

lemma demo_log_read_loses:
  fixes e :: uenv
  defines "e \<equiv> demo_uenv\<lparr>umalloc_ok := (\<lambda>i. i = 0)\<rparr>"
  shows "\<exists>t. run_call (Log_Read 100 0) e demo_ustate = Some (-1, t)" and "loses_block (Log_Read 100 0) e demo_ustate"
proof -
  let ?k = "receiving (kernel demo_ustate)"
  let ?u = "demo_ustate\<lparr>fds := fds demo_ustate + 1\<rparr>" and ?body = "le32 0"
  let ?req = "header DPF_MSG_PMU_LOG_READ 12 @ ?body" and ?b = "header DPF_MSG_PMU_LOG_READ 16 @ le64 0"
  have len: "length ?body + 8 \<le> MAX_MSG_SIZE" by (simp add: MAX_MSG_SIZE_def)
  have e: "open_ok e" "umalloc_ok e 0" "\<not> umalloc_ok e 1" "calls e = (\<lambda>_. demo_kenv)" "stack_byte e = (\<lambda>_. 0)"
    by (simp_all add: e_def demo_uenv_def)
  have p: "log_ok ?k" "pmu_log_buffer ?k \<noteq> None" "pmu_log_buffer_size ?k > 0"
      "rd_u32 ?req 8 = Some 0" "\<forall>m. kmalloc_ok demo_kenv 0 m" "pmu_log_data_size ?k = 0"
    using res_ok_receiving [OF demo_res_ok]
    by (simp_all add: res_ok_def demo_ustate_def) (simp_all add: demo_kstate_simps demo_kenv_simps)
  obtain k where k: "api_pmu_log_read demo_kenv ?req ?k = Some (0, k)" "proc_buffer k = Some ?b"
    using log_read_spec [OF p(1-5), of 0] p(6) by auto
  have d: "dispatch demo_kenv DPF_MSG_PMU_LOG_READ ?req ?k = Some (0, k)"
    using k(1) by (simp add: dispatch_def const_simps)
  have size: "proc_buffer_size (kfreed k) = length ?b" "proc_buffer (kfreed k) = Some ?b"
    using dispatch_kept [OF d res_ok_receiving [OF demo_res_ok]] k(2) by (auto simp: response_ok_def kfreed_def)
  have "u_write demo_uenv ?req ?u = Some (12, ?u\<lparr>kernel := kfreed k\<rparr>)"
    using write_dispatches [OF demo_system_ok len, of DPF_MSG_PMU_LOG_READ 12 ?u] d by (simp add: demo_uenv_def)
  then have w: "u_write e ?req ?u = Some (12, ?u\<lparr>kernel := kfreed k\<rparr>)"
    by (simp add: u_write_def e_def)
  have c: "copy_ok demo_kenv 2" by (simp add: demo_kenv_simps)
  have r: "proc_read demo_kenv 16 0 (kfreed k) = Some (16, ?b, 16)"
    using read_response [OF c size(2,1), of 0 16] by simp
  show "loses_block (Log_Read 100 0) e demo_ustate" using w r e by simp
  show "\<exists>t. run_call (Log_Read 100 0) e demo_ustate = Some (-1, t)"
    using w r e by (simp add: kernel_pmu_log_read_def call_status_def)
qed

theorem client_leaks_exactly_witness:
  "(\<exists>t. run_call (Core_Range 9 1) demo_uenv demo_ustate = Some (-1, t) \<and> fds t = fds demo_ustate + 1) \<and>
   (\<exists>t. run_call (Log_Read 100 0) (demo_uenv\<lparr>umalloc_ok := (\<lambda>i. i = 0)\<rparr>) demo_ustate = Some (-1, t) \<and>
      uheap t = uheap demo_ustate + 1)"
proof -
  have len: "length (le32 9 @ le32 1) + 8 \<le> MAX_MSG_SIZE" by (simp add: MAX_MSG_SIZE_def)
  have "dispatch (calls demo_uenv 0) DPF_MSG_CORE_RANGE (header DPF_MSG_CORE_RANGE 16 @ le32 9 @ le32 1)
      (receiving (kernel demo_ustate)) = Some (- EINVAL, receiving (kernel demo_ustate))"
    by (simp add: dispatch_def api_core_range_def const_simps)
  then obtain t where t: "run_call (Core_Range 9 1) demo_uenv demo_ustate = Some (-1, t)"
    using exchange_answer(2) [OF demo_system_ok len] by (simp add: kernel_core_range_def send_request_def)
  obtain v where v: "run_call (Log_Read 100 0) (demo_uenv\<lparr>umalloc_ok := (\<lambda>i. i = 0)\<rparr>) demo_ustate = Some (-1, v)"
    using demo_log_read_loses(1) by blast
  have "uheap v = uheap demo_ustate + 1"
    using client_leaks_exactly [OF v] demo_log_read_loses(2) by simp
  moreover have "fds t = fds demo_ustate + 1"
    using client_leaks_exactly [OF t] by (simp add: demo_uenv_def)
  ultimately show ?thesis using t v by blast
qed

lemma log_read_outcome:
  assumes "system_ok e" and "res_ok (kernel u)"
    and "pmu_log_buffer (kernel u) \<noteq> None" and "pmu_log_buffer_size (kernel u) > 0"
    and "n = (if (ucast max_bytes :: u32) = 0 then pmu_log_data_size (kernel u)
              else min (unat (ucast max_bytes :: u32)) (pmu_log_data_size (kernel u)))"
    and "n = 0 \<or> 12 \<le> n" and "n < 2 ^ 64"
  shows "cap < n \<Longrightarrow> kernel_pmu_log_read e cap max_bytes u = None"
    and "n \<le> cap \<Longrightarrow> \<exists>t. kernel_pmu_log_read e cap max_bytes u = Some (0, Some (take n (log_contents (kernel u))), t) \<and>
    fds t = fds u \<and> uheap t = uheap u \<and> log_contents (kernel t) = log_contents (kernel u)"
proof -
  let ?k = "receiving (kernel u)" and ?body = "le32 (ucast max_bytes)" and ?u = "u\<lparr>fds := fds u + 1\<rparr>"
  let ?req = "header DPF_MSG_PMU_LOG_READ 12 @ ?body" and ?d = "take n (log_contents (kernel u))"
  let ?resp = "header DPF_MSG_PMU_LOG_READ (16 + n) @ le64 (word_of_nat n) @ ?d"
  have len: "length ?body + 8 \<le> MAX_MSG_SIZE" by (simp add: MAX_MSG_SIZE_def)
  have kc: "log_contents (receiving k) = log_contents k" "log_contents (kfreed k) = log_contents k" for k
    by (simp_all add: log_contents_def kfreed_def cong: option.case_cong)
  have ok: "log_ok ?k" using res_ok_receiving [OF assms(2)] by (simp add: res_ok_def)
  have p: "pmu_log_buffer ?k \<noteq> None" "pmu_log_buffer_size ?k > 0" "rd_u32 ?req 8 = Some (ucast max_bytes)"
      "\<forall>m. kmalloc_ok (calls e 0) 0 m"
      "n = (if (ucast max_bytes :: u32) = 0 then pmu_log_data_size ?k
            else min (unat (ucast max_bytes :: u32)) (pmu_log_data_size ?k))"
    using assms(3,4) by simp_all (use assms(1,5) in \<open>simp_all add: system_ok_def\<close>)
  obtain k where k: "api_pmu_log_read (calls e 0) ?req ?k = Some (0, k)" "log_contents k = log_contents ?k"
      "proc_buffer k = Some ?resp"
    using log_read_spec [OF ok p] unfolding if_P [OF assms(6)] kc by blast
  have d: "dispatch (calls e 0) DPF_MSG_PMU_LOG_READ ?req ?k = Some (0, k)"
    using k(1) by (simp add: dispatch_def const_simps)
  have size: "proc_buffer_size (kfreed k) = length ?resp" "proc_buffer (kfreed k) = Some ?resp"
    using dispatch_kept [OF d res_ok_receiving [OF assms(2)]] k(3) by (auto simp: response_ok_def kfreed_def)
  have dlen: "length ?d = n"
  proof -
    obtain b where "pmu_log_buffer (kernel u) = Some b" "length b = pmu_log_buffer_size (kernel u)"
        "pmu_log_data_size (kernel u) \<le> pmu_log_buffer_size (kernel u)"
      using assms(2,3) by (auto simp: res_ok_def log_ok_def)
    then show ?thesis by (simp add: log_contents_def assms(5))
  qed
  have w: "u_write e ?req ?u = Some (12, ?u\<lparr>kernel := kfreed k\<rparr>)"
    using write_dispatches [OF assms(1) len, of DPF_MSG_PMU_LOG_READ 12 ?u] d by simp
  have c: "copy_ok (calls e i) 2" for i using assms(1) by (simp add: system_ok_def)
  have r1: "proc_read (calls e 1) 16 0 (kfreed k) =
      Some (16, header DPF_MSG_PMU_LOG_READ (16 + n) @ le64 (word_of_nat n), 16)"
    using read_response [OF c [of 1] size(2,1), of 0 16] by simp
  have r2: "\<exists>p. proc_read (calls e 2) n 16 (kfreed k) = Some (int n, ?d, p)"
  proof (cases "n = 0")
    case True
    then show ?thesis using size dlen by (simp add: proc_read_def)
  next
    case False
    then have "log_contents (kernel u) \<noteq> []" using dlen by auto
    then show ?thesis using False read_response [OF c [of 2] size(2,1), of 16 n] dlen by simp
  qed
  have n: "unat (word_of_nat n :: u64) = n" using assms(7) by (simp add: unsigned_of_nat take_bit_nat_eq_self_iff)
  have f: "rd_u64 (header DPF_MSG_PMU_LOG_READ (16 + n) @ le64 (word_of_nat n)) 8 = Some (word_of_nat n)" by simp
  have s: "open_ok e" "umalloc_ok e 0" "umalloc_ok e 1" using assms(1) by (simp_all add: system_ok_def)
  show "kernel_pmu_log_read e cap max_bytes u = None" if "cap < n"
    using w r1 r2 s n f that unfolding kernel_pmu_log_read_def by auto
  show "\<exists>t. kernel_pmu_log_read e cap max_bytes u = Some (0, Some (take n (log_contents (kernel u))), t) \<and>
    fds t = fds u \<and> uheap t = uheap u \<and> log_contents (kernel t) = log_contents (kernel u)" if "n \<le> cap"
    using w r1 r2 s n f dlen that k(2) unfolding kernel_pmu_log_read_def by (auto simp: kc)
qed

lemmas log_read_delivers = log_read_outcome(2)

lemma log_read_undefined:
  assumes "system_ok e" and "res_ok (kernel u)"
    and "pmu_log_buffer (kernel u) \<noteq> None" and "pmu_log_buffer_size (kernel u) > 0"
    and "n = (if (ucast max_bytes :: u32) = 0 then pmu_log_data_size (kernel u)
              else min (unat (ucast max_bytes :: u32)) (pmu_log_data_size (kernel u)))"
    and "0 < n" and "n < 12"
  shows "kernel_pmu_log_read e cap max_bytes u = None"
proof -
  let ?k = "receiving (kernel u)" and ?body = "le32 (ucast max_bytes)" and ?u = "u\<lparr>fds := fds u + 1\<rparr>"
  let ?req = "header DPF_MSG_PMU_LOG_READ 12 @ ?body"
  have len: "length ?body + 8 \<le> MAX_MSG_SIZE" by (simp add: MAX_MSG_SIZE_def)
  have ok: "log_ok ?k" using res_ok_receiving [OF assms(2)] by (simp add: res_ok_def)
  have p: "pmu_log_buffer ?k \<noteq> None" "pmu_log_buffer_size ?k > 0" "rd_u32 ?req 8 = Some (ucast max_bytes)"
      "\<forall>m. kmalloc_ok (calls e 0) 0 m"
      "n = (if (ucast max_bytes :: u32) = 0 then pmu_log_data_size ?k
            else min (unat (ucast max_bytes :: u32)) (pmu_log_data_size ?k))"
    using assms(3,4) by simp_all (use assms(1,5) in \<open>simp_all add: system_ok_def\<close>)
  have "\<not> (n = 0 \<or> 12 \<le> n)" using assms(6,7) by simp
  from log_read_spec [OF ok p] this have "api_pmu_log_read (calls e 0) ?req ?k = None" by simp
  then have "dispatch (calls e 0) DPF_MSG_PMU_LOG_READ ?req ?k = None" by (simp add: dispatch_def const_simps)
  then have "u_write e ?req ?u = None"
    using write_dispatches [OF assms(1) len, of DPF_MSG_PMU_LOG_READ 12 ?u] by simp
  then show ?thesis using assms(1) by (simp add: kernel_pmu_log_read_def system_ok_def)
qed

text \<open>
  Claim C18: fetching the PMU log end to end. Take a consistent log of an allocated buffer, a system
  in which nothing fails, any limit and a caller's buffer of any size. Let \<open>n\<close>, a number of
  64 bits, be the length of the whole log for the limit 0 and the smaller of the limit and that
  length otherwise; the limit is taken modulo the 32 bits of the request.
  If \<open>n\<close> is 0 or at least 12 and fits into the caller's buffer, \<open>kernel_pmu_log_read\<close> stores
  exactly the first \<open>n\<close> bytes of the log, in spite of the response being read in two parts; the
  descriptor is closed, the response freed and the log kept. The two other cases are undefined
  behaviour: for \<open>n\<close> from 1 to 11 the kernel's trace line reads twelve bytes of data that
  are not there, and when \<open>n\<close> exceeds the caller's buffer the copy overruns it, since the
  call never compares the size of the response with its limit.
\<close>

theorem log_read_end_to_end:
  assumes "system_ok e" and "res_ok (kernel u)"
    and "pmu_log_buffer (kernel u) \<noteq> None" and "pmu_log_buffer_size (kernel u) > 0"
    and "n = (if (ucast max_bytes :: u32) = 0 then pmu_log_data_size (kernel u)
              else min (unat (ucast max_bytes :: u32)) (pmu_log_data_size (kernel u)))"
    and "n < 2 ^ 64"
  shows "if 0 < n \<and> n < 12 \<or> cap < n then kernel_pmu_log_read e cap max_bytes u = None
    else \<exists>t. kernel_pmu_log_read e cap max_bytes u = Some (0, Some (take n (log_contents (kernel u))), t) \<and>
      fds t = fds u \<and> uheap t = uheap u \<and> log_contents (kernel t) = log_contents (kernel u)"
proof (cases "0 < n \<and> n < 12")
  case True
  then show ?thesis using log_read_undefined [OF assms(1-5)] by simp
next
  case False
  then have "n = 0 \<or> 12 \<le> n" by linarith
  from log_read_outcome [OF assms(1-5) this assms(6)] False show ?thesis by auto
qed

theorem log_read_end_to_end_witness:
  "\<exists>t. kernel_pmu_log_read demo_uenv 100 64 (demo_ustate\<lparr>kernel := demo_kstate\<lparr>pmu_log_data_size := 152\<rparr>\<rparr>) =
     Some (0, Some (replicate 64 0), t) \<and> fds t = 3"
proof -
  let ?u = "demo_ustate\<lparr>kernel := demo_kstate\<lparr>pmu_log_data_size := 152\<rparr>\<rparr>"
  have "res_ok (kernel ?u)"
    using demo_res(1) demo_log_ready
    by (simp add: res_ok_def buffer_ok_def log_ok_def ddr_ok_def io_balanced_def windows_def num_ctrl_def log_ready_def)
  moreover have "pmu_log_buffer demo_kstate = Some (replicate 200 0)" "pmu_log_buffer_size demo_kstate = 200"
    by (simp_all add: demo_kstate_simps)
  ultimately show ?thesis
    using log_read_end_to_end [OF demo_system_ok, of ?u 64 64 100] by (auto simp: log_contents_def demo_ustate_def)
qed

section \<open>The aggressiveness factor\<close>

lemma scaled_factor_bound:
  assumes "0 \<le> m" "\<not> flt (FFin s m) (f_of_int binary32 0)" "\<not> flt (f_of_int binary32 5) (FFin s m)"
  shows "\<exists>a. ftrunc (fmul binary32 (FFin s m) (f_of_int binary32 10)) = Some (int a) \<and> a \<le> 50"
proof -
  have c: "f_of_int binary32 0 = FFin False 0" "f_of_int binary32 5 = FFin False 5" "f_of_int binary32 10 = FFin False 10"
    using f_of_int_small [of 0] f_of_int_small [of 5] f_of_int_small [of 10] by simp_all
  have "0 \<le> signed s m * 10" "signed s m * 10 \<le> of_nat 50" using assms unfolding c by (simp_all add: signed_def)
  from ftrunc_fround_le [OF this, of s] show ?thesis by (simp add: c signed_def)
qed

text \<open>
  What the kernel makes of an accepted tuning request: its state after the request, when it is not
  stuck in the loop over the online CPUs.
\<close>

definition tuning_applied :: "kenv \<Rightarrow> u32 \<Rightarrow> u32 \<Rightarrow> nat \<Rightarrow> kstate \<Rightarrow> kstate" where
  "tuning_applied e status alg a k =
     (if status = 1 then k\<lparr>tune_alg := sint alg, aggr := int (a div 10), corestate := leaders_loaded e k,
        keep_running := True, timer_active := True\<rparr>
      else k\<lparr>tune_alg := sint alg, aggr := int (a div 10), keep_running := False, timer_active := False\<rparr>)"

lemma leaders_loaded_cong:
  "corestate k = corestate k' \<Longrightarrow> hwreg k = hwreg k' \<Longrightarrow> sys_first_core k = sys_first_core k' \<Longrightarrow>
   leaders_loaded e k = leaders_loaded e k'"
  by (auto simp: leaders_loaded_def loads_leader_def core_in_module_def fun_eq_iff)

lemma api_tuning_eq:
  assumes "rd_u32 req 8 = Some status" and "rd_u32 req 12 = Some alg" and "rd_u32 req 16 = Some (word_of_nat a)"
    and "a \<le> 50" and "kmalloc_ok e 0 20"
  shows "\<exists>resp. api_tuning e req k =
    (if status = 1 \<and> (\<exists>c\<in>set (online_cpus e). 512 \<le> c) then None
     else Some (0, install_resp resp (tuning_applied e status alg a (kmalloced k))))"
proof -
  have u: "unat (word_of_nat a :: u32) = a" using assms(4) by (simp add: unsigned_of_nat take_bit_nat_eq_self_iff)
  have clamp: "\<not> MAX_AGGR < (word_of_nat a :: u32)" using assms(4) u by (simp add: MAX_AGGR_def word_less_nat_alt)
  have "unat ((word_of_nat a :: u32) div 10) = a div 10" by (simp add: unat_div u)
  then have ag: "sint ((word_of_nat a :: u32) div 10) = int (a div 10)"
    using sint_of_small [of "(word_of_nat a :: u32) div 10"] assms(4) by simp
  have ok: "(\<forall>c\<in>set (online_cpus e). core_ok (int c)) \<longleftrightarrow> \<not> (\<exists>c\<in>set (online_cpus e). 512 \<le> c)"
    by (auto simp: core_ok_def MAX_NUM_CORES_def not_le)
  have load: "leaders_loaded e (k\<lparr>tune_alg := sint alg, aggr := x\<rparr>) = leaders_loaded e k" for k x
    by (rule leaders_loaded_cong) simp_all
  show ?thesis
    using clamp assms(5) unfolding api_tuning_def assms(1-3) Let_def load_leaders_eq ok
    by (auto simp: ag load tuning_applied_def)
qed

text \<open>
  Claim C19: tuning control end to end, for every status and every finite factor, when nothing in the
  system fails. A factor outside 0 to 5 is refused without opening the device. For the others the
  value that \<open>kernel_tuning_control\<close> sends lies between 0 and 50 in spite of rounding, so the kernel
  never has to clamp it; the call returns 0, closes its descriptor, and the kernel has stored the
  algorithm and the sent value divided by ten, at most 5. With the status 1 monitoring and its timer
  run afterwards and each online leader of an enabled module has the registers loaded that the CPU
  serving the request shows; with any other status they are stopped and no core state changes. The
  one exception is a machine with an online CPU numbered 512 or more: enabling the tuning there reads
  outside \<open>corestate\<close>.
\<close>

theorem tuning_control_end_to_end:
  assumes "system_ok e" and "res_ok (kernel u)" and "f = FFin s m" and "0 \<le> m"
  shows "if flt f (f_of_int binary32 0) \<or> flt (f_of_int binary32 5) f
    then kernel_tuning_control e status alg f u = Some (-1, u)
    else \<exists>a. ftrunc (fmul binary32 f (f_of_int binary32 10)) = Some (int a) \<and> a \<le> 50 \<and>
      (if status = 1 \<and> (\<exists>c\<in>set (online_cpus (calls e 0)). 512 \<le> c)
       then kernel_tuning_control e status alg f u = None
       else \<exists>t. kernel_tuning_control e status alg f u = Some (0, t) \<and> fds t = fds u \<and>
         tune_alg (kernel t) = sint alg \<and> aggr (kernel t) = int (a div 10) \<and>
         keep_running (kernel t) = (status = 1) \<and> timer_active (kernel t) = (status = 1) \<and>
         corestate (kernel t) =
           (if status = 1 then leaders_loaded (calls e 0) (kernel u) else corestate (kernel u)))"
proof (cases "flt f (f_of_int binary32 0) \<or> flt (f_of_int binary32 5) f")
  case True
  then show ?thesis by (auto simp: kernel_tuning_control_def)
next
  case False
  then obtain a where a: "ftrunc (fmul binary32 f (f_of_int binary32 10)) = Some (int a)" "a \<le> 50"
    using scaled_factor_bound [OF assms(4)] assms(3) by blast
  let ?k = "receiving (kernel u)" and ?body = "le32 status @ le32 alg @ le32 (word_of_nat a)"
  let ?req = "header DPF_MSG_TUNING 20 @ ?body" and ?t = "tuning_applied (calls e 0) status alg a (kmalloced (receiving (kernel u)))"
  let ?stuck = "status = 1 \<and> (\<exists>c\<in>set (online_cpus (calls e 0)). 512 \<le> c)"
  have len: "length ?body + 8 \<le> MAX_MSG_SIZE" by (simp add: MAX_MSG_SIZE_def)
  have r: "rd_u32 ?req 8 = Some status" "rd_u32 ?req 12 = Some alg" "rd_u32 ?req 16 = Some (word_of_nat a)"
      "kmalloc_ok (calls e 0) 0 20" "open_ok e"
    using assms(1) by (simp_all add: system_ok_def)
  obtain resp where d: "dispatch (calls e 0) DPF_MSG_TUNING ?req ?k = (if ?stuck then None else Some (0, install_resp resp ?t))"
    using api_tuning_eq [OF r(1-3) a(2) r(4), of ?k] by (auto simp: dispatch_def const_simps)
  have send: "kernel_tuning_control e status alg f u = send_request e False ?req 20 u"
    using False a(1) by (simp add: kernel_tuning_control_def)
  have load: "leaders_loaded (calls e 0) (kmalloced ?k) = leaders_loaded (calls e 0) (kernel u)"
    by (rule leaders_loaded_cong) (simp_all add: receiving_def kmalloced_def kfree_proc_buffer_def kfreed_def)
  show ?thesis
  proof (cases ?stuck)
    case True
    then have "u_write e ?req (u\<lparr>fds := fds u + 1\<rparr>) = None"
      using write_dispatches [OF assms(1) len, of DPF_MSG_TUNING 20 "u\<lparr>fds := fds u + 1\<rparr>"] d by simp
    then have "kernel_tuning_control e status alg f u = None"
      using r(5) unfolding send by (simp add: send_request_def exchange_def)
    then show ?thesis using False True a by simp
  next
    case False': False
    then have "kernel_tuning_control e status alg f u = Some (0, u\<lparr>kernel := kfreed (install_resp resp ?t)\<rparr>)"
      using send_answer(1) [OF assms(1) len assms(2), of DPF_MSG_TUNING 20 0 "install_resp resp ?t"] d
      unfolding send by simp
    then show ?thesis
      using False False' a by (auto simp: tuning_applied_def load kfreed_def install_resp_def kfree_proc_buffer_def)
  qed
qed

text \<open>The factor 4.75 is sent as 47, both when the tuning is switched off and when it is enabled.\<close>

theorem tuning_control_end_to_end_witness:
  "(\<exists>t. kernel_tuning_control demo_uenv 0 2 (FFin False (19 / 4)) demo_ustate = Some (0, t) \<and> aggr (kernel t) = 4) \<and>
   (\<exists>t. kernel_tuning_control demo_uenv 1 2 (FFin False (19 / 4)) demo_ustate = Some (0, t) \<and> keep_running (kernel t))"
proof -
  have c: "f_of_int binary32 0 = FFin False 0" "f_of_int binary32 5 = FFin False 5"
    using f_of_int_small [of 0] f_of_int_small [of 5] by simp_all
  have v: "ftrunc (fmul binary32 (FFin False (19 / 4)) (f_of_int binary32 10)) = Some 47" by code_simp
  have o: "\<not> (\<exists>c\<in>set (online_cpus (calls demo_uenv 0)). 512 \<le> c)" by (simp add: demo_uenv_def demo_kenv_simps)
  show ?thesis
    using tuning_control_end_to_end [OF demo_system_ok demo_res_ok, of "FFin False (19 / 4)" False "19 / 4" 0 2]
      tuning_control_end_to_end [OF demo_system_ok demo_res_ok, of "FFin False (19 / 4)" False "19 / 4" 1 2] o
    unfolding c v by (auto simp: signed_def)
qed

end
