(* ===== verification/Rdt_Mbm.thy ===== *)
theory Rdt_Mbm
  imports Msr
begin

text \<open>
  \<open>rdt_mbm.c\<close>: memory bandwidth monitoring with Intel RDT, used when no DDR counters are found.
  A resource monitoring id (RMID) is associated with every core, and the bandwidth is the sum of
  the progress of the cores' monitoring counters times a scale factor.

  \<open>cpuid\<close> and the number of online processors are parameters. The registers change by
  themselves: \<open>hw r\<close> is what the hardware has done to them before the \<open>r\<close>-th attempt to read a
  counter. The build option \<open>DDR_BW_ALL_CORES\<close> is 1, so the loops run over all online
  processors. The descriptors that \<open>rdt_mbm_reset\<close> closes are recorded in \<open>closed_fds\<close>.
\<close>

type_synonym cpuid_fn = "u32 \<Rightarrow> u32 \<Rightarrow> u32 \<times> u32 \<times> u32 \<times> u32"

record mbm_data_st =
  mb_rmid :: u32
  mb_delta :: u64
  mb_old_count :: u64

record rdt_state =
  rdt_sys :: msr_sys
  mbm_data :: "mbm_data_st arr"
  total_mbt :: u64
  scale_factor :: u32
  counter_length :: u32
  max_rmid :: u32
  num_cores :: u32
  closed_fds :: "int list"

definition min_rmid :: u32 where [const_simps]: "min_rmid = 1"
definition MIN_MBM_COUNTER_LEN :: u32 where [const_simps]: "MIN_MBM_COUNTER_LEN = 24"
definition PQOS_CPUID_MON_TMEM_BW_BIT :: u32 where [const_simps]: "PQOS_CPUID_MON_TMEM_BW_BIT = 2"
definition PQOS_CPUID_MON_LMEM_BW_BIT :: u32 where [const_simps]: "PQOS_CPUID_MON_LMEM_BW_BIT = 4"
definition PQOS_MSR_ASSOC_QECOS_MASK :: u64 where [const_simps]: "PQOS_MSR_ASSOC_QECOS_MASK = 0xffffffff00000000"
definition PQOS_MSR_ASSOC_RMID_MASK :: u64 where [const_simps]: "PQOS_MSR_ASSOC_RMID_MASK = mask 10"
definition PQOS_MSR_MON_EVTSEL_RMID_MASK :: u64 where [const_simps]: "PQOS_MSR_MON_EVTSEL_RMID_MASK = mask 10"
definition PQOS_MSR_MON_EVTSEL_RMID_SHIFT :: nat where [const_simps]: "PQOS_MSR_MON_EVTSEL_RMID_SHIFT = 32"
definition PQOS_MSR_MON_EVTSEL_EVTID_MASK :: u64 where [const_simps]: "PQOS_MSR_MON_EVTSEL_EVTID_MASK = mask 8"
definition PQOS_MSR_MON_QMC_DATA_MASK :: u64 where [const_simps]: "PQOS_MSR_MON_QMC_DATA_MASK = mask 62"

datatype pqos_mon_event = PQOS_MON_EVENT_LMEM_BW | PQOS_MON_EVENT_TMEM_BW

section \<open>Detection\<close>

definition rdt_mbm_support_check :: "cpuid_fn \<Rightarrow> int \<Rightarrow> rdt_state \<Rightarrow> int \<times> rdt_state" where
  "rdt_mbm_support_check cpuid nproc s =
     (case cpuid 7 0 of (_, ebx7, _, _) \<Rightarrow>
      if \<not> bit ebx7 12 then (-1, s)
      else case cpuid 0xf 0 of (_, ebxf, _, edxf) \<Rightarrow>
      if \<not> bit edxf 1 then (-2, s)
      else let s = s\<lparr>max_rmid := ebxf + 1\<rparr>
           in case cpuid 0xf 1 of (eax, ebx, _, edx) \<Rightarrow>
      if edx AND PQOS_CPUID_MON_TMEM_BW_BIT = 0 then (-3, s)
      else if edx AND PQOS_CPUID_MON_LMEM_BW_BIT = 0 then (-4, s)
      else (0, s\<lparr>scale_factor := ebx, counter_length := (eax AND 0x7f) + MIN_MBM_COUNTER_LEN,
                 num_cores := word_of_int nproc\<rparr>))"

definition core2rmid :: "rdt_state \<Rightarrow> u32 \<Rightarrow> u32" where
  "core2rmid s core = (let rmid = core + 1 in if rmid > max_rmid s then min_rmid else rmid)"

section \<open>Loops over the cores\<close>

text \<open>A loop body either returns from the function (\<open>Inl\<close>) or goes on with a new state. With no
  processor the bound wraps and every index is visited.\<close>

fun oloop :: "('a \<Rightarrow> 's \<Rightarrow> ('r + 's) outcome) \<Rightarrow> 'a list \<Rightarrow> 's \<Rightarrow> ('r + 's) outcome" where
  "oloop f [] s = Ret (Inr s)"
| "oloop f (x # xs) s = obind (f x s) (\<lambda>r. case r of Inl v \<Rightarrow> Ret (Inl v) | Inr s' \<Rightarrow> oloop f xs s')"

definition mbm_cores :: "rdt_state \<Rightarrow> nat list" where
  "mbm_cores s = [0..<(if num_cores s = 0 then 2 ^ 32 else unat (num_cores s))]"

definition rdt_mbm_reset :: "msr_os \<Rightarrow> rdt_state \<Rightarrow> (int \<times> rdt_state) outcome" where
  "rdt_mbm_reset os s =
     obind (oloop (\<lambda>core s.
              obind (msr_set_rmid os (int core) 0 (rdt_sys s)) (\<lambda>(retval, sys).
                let s = s\<lparr>rdt_sys := sys\<rparr>
                in if retval \<noteq> 0 then Ret (Inl (-1, s))
                   else Ret (Inr (s\<lparr>closed_fds := msr_file_id sys core # closed_fds s\<rparr>))))
            (mbm_cores s) s)
       (\<lambda>r. case r of Inl v \<Rightarrow> Ret v | Inr s \<Rightarrow> Ret (0, s))"

definition get_event_id :: "pqos_mon_event \<Rightarrow> u32" where
  "get_event_id event = (case event of PQOS_MON_EVENT_LMEM_BW \<Rightarrow> 3 | PQOS_MON_EVENT_TMEM_BW \<Rightarrow> 2)"

section \<open>Association and counting\<close>

definition assoc_value :: "u64 \<Rightarrow> u32 \<Rightarrow> u64" where
  "assoc_value val rmid = (val AND PQOS_MSR_ASSOC_QECOS_MASK) OR (ucast rmid AND PQOS_MSR_ASSOC_RMID_MASK)"

definition rdt_mbm_set_rmid :: "msr_os \<Rightarrow> u32 \<Rightarrow> u32 \<Rightarrow> msr_sys \<Rightarrow> (int \<times> msr_sys) outcome" where
  "rdt_mbm_set_rmid os core rmid s =
     obind (msr_get_rmid os (sint core) s) (\<lambda>val.
       msr_set_rmid os (uint core) (assoc_value val rmid) s)"

definition evtsel_value :: "u32 \<Rightarrow> u32 \<Rightarrow> u64" where
  "evtsel_value rmid event =
     push_bit PQOS_MSR_MON_EVTSEL_RMID_SHIFT (ucast rmid AND PQOS_MSR_MON_EVTSEL_RMID_MASK)
     OR (ucast event AND PQOS_MSR_MON_EVTSEL_EVTID_MASK)"

text \<open>The retry loop, with the attempts left, whether the event selection is written, and the last
  value read. The result is the return value, the value read and the registers.\<close>

fun bw_retries ::
    "msr_os \<Rightarrow> (nat \<Rightarrow> msr_sys \<Rightarrow> msr_sys) \<Rightarrow> int \<Rightarrow> u64 \<Rightarrow> nat \<Rightarrow> bool \<Rightarrow> u64 \<Rightarrow> msr_sys \<Rightarrow> (int \<times> u64 \<times> msr_sys) outcome" where
  "bw_retries os hw core val_evtsel 0 flag_wrt val s = Ret (-1, val, s)"
| "bw_retries os hw core val_evtsel (Suc n) flag_wrt val s =
     obind (if flag_wrt then msr_set_evtsel os core val_evtsel (hw (3 - n) s) else Ret (0, hw (3 - n) s)) (\<lambda>(ret, s).
     if ret \<noteq> 0 then Ret (-1, val, s)
     else obind (msr_get_mon_count os core s) (\<lambda>val.
          if bit val 63
          then obind (msr_get_evtsel os core s) (\<lambda>val.
               if val \<noteq> val_evtsel then bw_retries os hw core val_evtsel n True val s
               else if bit val 62 then bw_retries os hw core val_evtsel n False val s
               else Ret (0, val, s))
          else if bit val 62 then bw_retries os hw core val_evtsel n False val s
          else Ret (0, val, s)))"

text \<open>The stored value, when there is one, is the last component.\<close>

definition rdt_mbm_bw_count ::
    "msr_os \<Rightarrow> (nat \<Rightarrow> msr_sys \<Rightarrow> msr_sys) \<Rightarrow> u32 \<Rightarrow> u32 \<Rightarrow> u32 \<Rightarrow> msr_sys \<Rightarrow> (int \<times> u64 option \<times> msr_sys) outcome" where
  "rdt_mbm_bw_count os hw core rmid event s =
     obind (bw_retries os hw (uint core) (evtsel_value rmid event) 4 True 0 s) (\<lambda>(retval, val, s).
       Ret (retval, if retval = 0 then Some (val AND PQOS_MSR_MON_QMC_DATA_MASK) else None, s))"

definition bw_get_core ::
    "msr_os \<Rightarrow> (nat \<Rightarrow> nat \<Rightarrow> msr_sys \<Rightarrow> msr_sys) \<Rightarrow> nat \<Rightarrow> rdt_state \<Rightarrow> ((u64 \<times> rdt_state) + rdt_state) outcome" where
  "bw_get_core os hw core s =
     (case aget MAX_NUM_CORES (mbm_data s) (int core) of
        None \<Rightarrow> Undef
      | Some d \<Rightarrow>
          if mb_rmid d = 0 then Ret (Inr s)
          else obind (rdt_mbm_bw_count os (hw core) (word_of_nat core) (mb_rmid d)
                        (get_event_id PQOS_MON_EVENT_TMEM_BW) (rdt_sys s)) (\<lambda>(ret, bw_count, sys).
               let s = s\<lparr>rdt_sys := sys\<rparr>
               in case bw_count of
                    None \<Rightarrow> Ret (Inl (word_of_int ret, s))
                  | Some bw_count \<Rightarrow>
                      let d = d\<lparr>mb_delta := bw_count - mb_old_count d, mb_old_count := bw_count\<rparr>
                      in Ret (Inr (s\<lparr>mbm_data := (mbm_data s)(core := d), total_mbt := total_mbt s + mb_delta d\<rparr>))))"

definition rdt_mbm_bw_get ::
    "msr_os \<Rightarrow> (nat \<Rightarrow> nat \<Rightarrow> msr_sys \<Rightarrow> msr_sys) \<Rightarrow> rdt_state \<Rightarrow> (u64 \<times> rdt_state) outcome" where
  "rdt_mbm_bw_get os hw s =
     obind (oloop (bw_get_core os hw) (mbm_cores s) (s\<lparr>total_mbt := 0\<rparr>)) (\<lambda>r.
       case r of Inl v \<Rightarrow> Ret v | Inr s \<Rightarrow> Ret (total_mbt s * ucast (scale_factor s), s))"

section \<open>Start\<close>

definition mbm_init_core ::
    "msr_os \<Rightarrow> nat \<Rightarrow> nat \<times> rdt_state \<Rightarrow> (int + (nat \<times> rdt_state)) outcome" where
  "mbm_init_core os core = (\<lambda>(mon_count, s).
     case aget MAX_NUM_CORES (msr_file_id (rdt_sys s)) (int core) of
       None \<Rightarrow> Undef
     | Some fd \<Rightarrow>
         obind (if fd = 0
                then obind (msr_open os (int core)) (\<lambda>fd.
                       Ret ((rdt_sys s)\<lparr>msr_file_id := (msr_file_id (rdt_sys s))(core := fd)\<rparr>))
                else Ret (rdt_sys s)) (\<lambda>sys.
         obind (rdt_mbm_set_rmid os (word_of_nat core) (core2rmid s (word_of_nat core)) sys) (\<lambda>(ret, sys).
           let s = s\<lparr>rdt_sys := sys\<rparr>
           in if ret \<noteq> 0 then Ret (Inr (mon_count, s))
              else Ret (Inr (mon_count + 1, s\<lparr>mbm_data := (mbm_data s)(core :=
                     (mbm_data s core)\<lparr>mb_rmid := core2rmid s (word_of_nat core)\<rparr>)\<rparr>)))))"

definition rdt_mbm_init ::
    "msr_os \<Rightarrow> (nat \<Rightarrow> nat \<Rightarrow> msr_sys \<Rightarrow> msr_sys) \<Rightarrow> (nat \<Rightarrow> nat \<Rightarrow> msr_sys \<Rightarrow> msr_sys) \<Rightarrow> rdt_state \<Rightarrow> (int \<times> rdt_state) outcome" where
  "rdt_mbm_init os hw1 hw2 s =
     obind (oloop (mbm_init_core os) (mbm_cores s) (0, s)) (\<lambda>r.
       case r of
         Inl v \<Rightarrow> Ret (v, s)
       | Inr (mon_count, s) \<Rightarrow>
           if mon_count = 0 then Ret (-1, s)
           else obind (rdt_mbm_bw_get os hw1 s) (\<lambda>(_, s).
                obind (rdt_mbm_bw_get os hw2 s) (\<lambda>(_, s). Ret (0, s))))"


section \<open>One counter\<close>

lemma obind_Ret [simp]: "obind m Ret = m"
  by (cases m) simp_all

text \<open>A core whose descriptor is in the table, belongs to it and works.\<close>

definition core_msr_ok :: "msr_os \<Rightarrow> int \<Rightarrow> msr_sys \<Rightarrow> bool" where
  "core_msr_ok os c s \<longleftrightarrow> 0 \<le> c \<and> c < MAX_NUM_CORES \<and> os_fd_core os (msr_file_id s (nat c)) = c \<and>
     (\<forall>a \<in> {PQOS_MSR_ASSOC, PQOS_MSR_MON_EVTSEL, PQOS_MSR_MON_QMC}.
        os_pread_ok os (msr_file_id s (nat c)) a \<and> os_pwrite_ok os (msr_file_id s (nat c)) a)"

definition set_reg :: "int \<Rightarrow> nat \<Rightarrow> u64 \<Rightarrow> msr_sys \<Rightarrow> msr_sys" where
  "set_reg c a v s = s\<lparr>regs := (regs s)(c := (regs s c)(a := v))\<rparr>"

lemma set_reg_simps [simp]:
  "msr_file_id (set_reg c a v s) = msr_file_id s" "regs (set_reg c a v s) c a = v"
  "a \<noteq> b \<or> c \<noteq> d \<Longrightarrow> regs (set_reg c a v s) d b = regs s d b"
  "core_msr_ok os d (set_reg c a v s) = core_msr_ok os d s"
  by (auto simp: set_reg_def core_msr_ok_def)

lemma regs_set_reg: "regs (set_reg c a v s) d b = (if d = c \<and> b = a then v else regs s d b)"
  by (simp add: set_reg_def)

lemma msr_reg_ok:
  assumes "core_msr_ok os c s"
  shows "msr_get_rmid os c s = Ret (regs s c PQOS_MSR_ASSOC)"
    "msr_set_rmid os c v s = Ret (0, set_reg c PQOS_MSR_ASSOC v s)"
    "msr_get_evtsel os c s = Ret (regs s c PQOS_MSR_MON_EVTSEL)"
    "msr_set_evtsel os c v s = Ret (0, set_reg c PQOS_MSR_MON_EVTSEL v s)"
    "msr_get_mon_count os c s = Ret (regs s c PQOS_MSR_MON_QMC)"
  using assms
  by (simp_all add: core_msr_ok_def msr_get_rmid_def msr_set_rmid_def msr_get_evtsel_def msr_set_evtsel_def
      msr_get_mon_count_def rdmsr_reg_def wrmsr_reg_def pread8_def pwrite8_def set_reg_def)

lemma evtsel_bit_62: "\<not> bit (evtsel_value r e) 62"
  by (simp add: evtsel_value_def const_simps bit_simps)

lemma PQOS_distinct: "PQOS_MSR_MON_QMC \<noteq> PQOS_MSR_MON_EVTSEL"
  by (simp add: const_simps)

lemma bw_count_first:
  assumes "core_msr_ok os (uint c) (hw 0 s)" and "v = regs (hw 0 s) (uint c) PQOS_MSR_MON_QMC" and "\<not> bit v 62"
  shows "rdt_mbm_bw_count os hw c r e s =
    Ret (0, Some ((if bit v 63 then evtsel_value r e else v) AND PQOS_MSR_MON_QMC_DATA_MASK),
         set_reg (uint c) PQOS_MSR_MON_EVTSEL (evtsel_value r e) (hw 0 s))"
proof -
  let ?s = "set_reg (uint c) PQOS_MSR_MON_EVTSEL (evtsel_value r e) (hw 0 s)"
  have ok: "core_msr_ok os (uint c) ?s" using assms(1) by simp
  have v: "regs ?s (uint c) PQOS_MSR_MON_QMC = v" using assms(2) PQOS_distinct by simp
  have "bw_retries os hw (uint c) (evtsel_value r e) (Suc 3) True 0 s =
      Ret (0, if bit v 63 then evtsel_value r e else v, ?s)"
    unfolding bw_retries.simps using assms(3) by (simp add: msr_reg_ok [OF assms(1)] msr_reg_ok [OF ok] v evtsel_bit_62)
  then show ?thesis by (simp add: rdt_mbm_bw_count_def)
qed

text \<open>
  What one reading of a monitoring counter returns. With a working descriptor and data
  available at the first attempt, \<open>rdt_mbm_bw_count\<close> returns 0 and stores the counter, cut to its
  62 data bits, after selecting the RMID and the event, and changes no other register. But when
  the counter reports an error (bit 63) it still returns 0, and what it stores is the event
  selection instead of a count.
\<close>

theorem bw_count_result:
  assumes "core_msr_ok os (uint c) (hw 0 s)" and "regs (hw 0 s) (uint c) PQOS_MSR_MON_QMC = v" and "\<not> bit v 62"
  shows "\<exists>t. rdt_mbm_bw_count os hw c r e s =
      Ret (0, Some (if bit v 63 then push_bit 32 (ucast (take_bit 10 r)) OR ucast (take_bit 8 e) else take_bit 62 v), t) \<and>
    regs t (uint c) PQOS_MSR_MON_EVTSEL = push_bit 32 (ucast (take_bit 10 r)) OR ucast (take_bit 8 e) \<and>
    (\<forall>d a. d \<noteq> uint c \<or> a \<noteq> PQOS_MSR_MON_EVTSEL \<longrightarrow> regs t d a = regs (hw 0 s) d a)"
proof -
  have ev: "evtsel_value r e = push_bit 32 (ucast (take_bit 10 r)) OR ucast (take_bit 8 e)"
    by (rule bit_word_eqI) (auto simp: evtsel_value_def const_simps bit_simps)
  have "(push_bit 32 (ucast (take_bit 10 r)) OR ucast (take_bit 8 e)) AND mask 62 =
      (push_bit 32 (ucast (take_bit 10 r)) OR ucast (take_bit 8 e) :: u64)"
    by (rule bit_word_eqI) (auto simp: bit_simps)
  moreover have "v AND mask 62 = take_bit 62 v" by (simp add: take_bit_eq_mask)
  ultimately show ?thesis
    using bw_count_first [of os c hw s v r e, OF assms(1) assms(2) [symmetric] assms(3)]
    by (auto simp: ev PQOS_MSR_MON_QMC_DATA_MASK_def regs_set_reg)
qed

text \<open>A system on which every descriptor works and all counters show \<open>n\<close>.\<close>

definition rdt_os :: msr_os where
  "rdt_os = \<lparr>os_open = (\<lambda>c. c + 10), os_fd_core = (\<lambda>fd. fd - 10), os_pread_ok = (\<lambda>_ _. True),
     os_pwrite_ok = (\<lambda>_ _. True), os_errno = 0, os_tsc = 0\<rparr>"

definition rdt_sys_at :: "u64 \<Rightarrow> msr_sys" where
  "rdt_sys_at n = \<lparr>msr_file_id = (\<lambda>c. int c + 10), regs = (\<lambda>_ _. n)\<rparr>"

lemma rdt_sys_at_ok: "0 \<le> c \<Longrightarrow> c < MAX_NUM_CORES \<Longrightarrow> core_msr_ok rdt_os c (rdt_sys_at n)"
  by (simp add: core_msr_ok_def rdt_os_def rdt_sys_at_def)

theorem bw_count_result_witness:
  "\<not> bit (push_bit 63 1 :: u64) 62 \<and>
   (\<exists>t. rdt_mbm_bw_count rdt_os (\<lambda>_ s. s) 1 2 2 (rdt_sys_at (push_bit 63 1)) = Ret (0, Some 0x200000002, t))"
proof -
  have ok: "core_msr_ok rdt_os (uint (1 :: u32)) (rdt_sys_at (push_bit 63 1))"
    by (rule rdt_sys_at_ok) (simp_all add: const_simps)
  have reg: "regs (rdt_sys_at (push_bit 63 1)) (uint (1 :: u32)) PQOS_MSR_MON_QMC = push_bit 63 1"
    by (simp add: rdt_sys_at_def)
  have nb: "\<not> bit (push_bit 63 1 :: u64) 62" by (simp add: bit_simps)
  have b: "bit (push_bit 63 1 :: u64) 63" by (simp add: bit_simps)
  have v: "push_bit 32 (ucast (take_bit 10 (2 :: u32))) OR ucast (take_bit 8 (2 :: u32)) = (0x200000002 :: u64)"
    by code_simp
  from bw_count_result [of rdt_os "1 :: u32" "\<lambda>_ s. s", OF ok reg nb, of 2 2] show ?thesis
    using nb by (simp add: b v) blast
qed


section \<open>The bandwidth of all cores\<close>

text \<open>\<open>counting os n hw q\<close>: before the first attempt on core \<open>c\<close> the hardware has brought the counter
  of \<open>c\<close> to \<open>q c\<close>, which is data, and has left the descriptors alone.\<close>

definition counting :: "nat \<Rightarrow> (nat \<Rightarrow> nat \<Rightarrow> msr_sys \<Rightarrow> msr_sys) \<Rightarrow> (nat \<Rightarrow> u64) \<Rightarrow> bool" where
  "counting n hw q \<longleftrightarrow> (\<forall>c < n. take_bit 62 (q c) = q c \<and>
     (\<forall>s. regs (hw c 0 s) (int c) PQOS_MSR_MON_QMC = q c \<and> msr_file_id (hw c 0 s) = msr_file_id s))"

definition bw_progress :: "(nat \<Rightarrow> u64) \<Rightarrow> mbm_data_st arr \<Rightarrow> nat \<Rightarrow> u64" where
  "bw_progress q d c = (if mb_rmid (d c) = 0 then 0 else q c - mb_old_count (d c))"

definition bw_recorded :: "(nat \<Rightarrow> u64) \<Rightarrow> nat set \<Rightarrow> mbm_data_st arr \<Rightarrow> mbm_data_st arr" where
  "bw_recorded q C d = (\<lambda>c. if c \<in> C \<and> mb_rmid (d c) \<noteq> 0
     then (d c)\<lparr>mb_delta := q c - mb_old_count (d c), mb_old_count := q c\<rparr> else d c)"

text \<open>What the loop over a list of distinct cores leaves behind.\<close>

definition bw_done :: "(nat \<Rightarrow> u64) \<Rightarrow> nat list \<Rightarrow> rdt_state \<Rightarrow> rdt_state \<Rightarrow> bool" where
  "bw_done q cs s t \<longleftrightarrow> total_mbt t = total_mbt s + sum_list (map (bw_progress q (mbm_data s)) cs) \<and>
     mbm_data t = bw_recorded q (set cs) (mbm_data s) \<and> msr_file_id (rdt_sys t) = msr_file_id (rdt_sys s) \<and>
     scale_factor t = scale_factor s \<and> num_cores t = num_cores s"

lemma core_msr_ok_fds:
  "msr_file_id t = msr_file_id s \<Longrightarrow> core_msr_ok os c t = core_msr_ok os c s"
  by (simp add: core_msr_ok_def)

lemma take_bit_62_bits:
  assumes "take_bit 62 (v :: u64) = v"
  shows "\<not> bit v 62" "\<not> bit v 63" "v AND PQOS_MSR_MON_QMC_DATA_MASK = v"
proof -
  show "\<not> bit v 62" "\<not> bit v 63" by (subst assms [symmetric], simp add: bit_simps)+
  show "v AND PQOS_MSR_MON_QMC_DATA_MASK = v" using assms by (simp add: PQOS_MSR_MON_QMC_DATA_MASK_def take_bit_eq_mask)
qed

lemma bw_get_core_done:
  assumes n: "c < n" "int n \<le> MAX_NUM_CORES" and hw: "counting n hw q"
    and ok: "core_msr_ok os (int c) (rdt_sys s)"
  shows "\<exists>t. bw_get_core os hw c s = Ret (Inr t) \<and> bw_done q [c] s t"
proof (cases "mb_rmid (mbm_data s c) = 0")
  case True
  then show ?thesis using n by (auto simp: bw_get_core_def bw_done_def bw_progress_def bw_recorded_def)
next
  case False
  have c: "c < 512" using n by (simp add: const_simps)
  then have u: "uint (word_of_nat c :: u32) = int c" by (simp add: uint_nat unsigned_of_nat take_bit_nat_eq_self_iff)
  let ?h = "hw c 0 (rdt_sys s)"
  have q: "take_bit 62 (q c) = q c" "regs ?h (int c) PQOS_MSR_MON_QMC = q c" "msr_file_id ?h = msr_file_id (rdt_sys s)"
    using hw n(1) by (auto simp: counting_def)
  have h: "core_msr_ok os (int c) ?h" using ok core_msr_ok_fds [OF q(3)] by simp
  have cnt: "rdt_mbm_bw_count os (hw c) (word_of_nat c) r e (rdt_sys s) =
      Ret (0, Some (q c), set_reg (int c) PQOS_MSR_MON_EVTSEL (evtsel_value r e) ?h)" for r e
    using bw_count_first [of os "word_of_nat c" "hw c" "rdt_sys s" "q c" r e] h q(2) take_bit_62_bits [OF q(1)]
    by (simp only: u if_False simp_thms)
  have a: "aget MAX_NUM_CORES (mbm_data s) (int c) = Some (mbm_data s c)" using c by (simp add: const_simps)
  have "bw_recorded q {c} (mbm_data s) = (mbm_data s)(c := (mbm_data s c)\<lparr>mb_delta := q c - mb_old_count (mbm_data s c), mb_old_count := q c\<rparr>)"
    using False by (auto simp: bw_recorded_def)
  then show ?thesis using False q(3)
    by (simp add: bw_get_core_def a cnt bw_done_def bw_progress_def Let_def)
qed

lemma bw_done_Cons:
  assumes "bw_done q [c] s u" "bw_done q cs u t" "c \<notin> set cs"
  shows "bw_done q (c # cs) s t"
proof -
  have d: "mbm_data u = bw_recorded q {c} (mbm_data s)" using assms(1) by (simp add: bw_done_def)
  have "bw_progress q (mbm_data u) x = bw_progress q (mbm_data s) x" if "x \<in> set cs" for x
    using that assms(3) by (auto simp: d bw_progress_def bw_recorded_def)
  then have m: "map (bw_progress q (mbm_data u)) cs = map (bw_progress q (mbm_data s)) cs" by simp
  have r: "bw_recorded q (set cs) (mbm_data u) = bw_recorded q (insert c (set cs)) (mbm_data s)"
    using assms(3) by (auto simp: d bw_recorded_def)
  show ?thesis using assms(1,2) unfolding bw_done_def m r by (simp add: add.assoc)
qed

lemma bw_loop_done:
  assumes "int n \<le> MAX_NUM_CORES" "counting n hw q"
  shows "distinct cs \<Longrightarrow> set cs \<subseteq> {0..<n} \<Longrightarrow> \<forall>c < n. core_msr_ok os (int c) (rdt_sys s) \<Longrightarrow>
    \<exists>t. oloop (bw_get_core os hw) cs s = Ret (Inr t) \<and> bw_done q cs s t"
proof (induction cs arbitrary: s)
  case Nil
  then show ?case by (simp add: bw_done_def bw_recorded_def)
next
  case (Cons c cs)
  then have "core_msr_ok os (int c) (rdt_sys s)" "c < n" by auto
  with bw_get_core_done [OF _ assms] obtain u where u: "bw_get_core os hw c s = Ret (Inr u)" "bw_done q [c] s u" by blast
  then have "\<forall>c < n. core_msr_ok os (int c) (rdt_sys u)"
    using Cons.prems(3) core_msr_ok_fds [of "rdt_sys u" "rdt_sys s"] by (auto simp: bw_done_def)
  with Cons.IH [of u] Cons.prems obtain t where "oloop (bw_get_core os hw) cs u = Ret (Inr t)" "bw_done q cs u t" by auto
  then show ?case using u bw_done_Cons Cons.prems(1) by auto
qed

text \<open>
  Claim C20: the bandwidth reported from the RDT counters. When the descriptors of all online
  processors work and their counters show \<open>q c\<close> at the first attempt, \<open>rdt_mbm_bw_get\<close> returns the
  scale factor times the sum, over the cores with an RMID, of the progress since the count saved
  by the previous call, and saves the new counts, so that the next call reports progress from
  \<open>q\<close>. Differences and sum wrap at 64 bits: the width of the counter is not used.
\<close>

theorem bw_get_sums_progress:
  assumes "num_cores s \<noteq> 0" "uint (num_cores s) \<le> MAX_NUM_CORES" "counting (unat (num_cores s)) hw q"
    and "\<forall>c < unat (num_cores s). core_msr_ok os (int c) (rdt_sys s)"
  shows "\<exists>t. rdt_mbm_bw_get os hw s =
      Ret ((\<Sum>c\<leftarrow>[0..<unat (num_cores s)]. if mb_rmid (mbm_data s c) = 0 then 0 else q c - mb_old_count (mbm_data s c))
             * ucast (scale_factor s), t) \<and>
    (\<forall>c < unat (num_cores s). mb_rmid (mbm_data s c) \<noteq> 0 \<longrightarrow> mb_old_count (mbm_data t c) = q c) \<and>
    (\<forall>c. mb_rmid (mbm_data t c) = mb_rmid (mbm_data s c))"
proof -
  let ?n = "unat (num_cores s)" and ?s = "s\<lparr>total_mbt := 0\<rparr>"
  have n: "int ?n \<le> MAX_NUM_CORES" using assms(2) by simp
  from bw_loop_done [OF n assms(3), of "[0..<?n]" os ?s] assms(4)
  obtain t where t: "oloop (bw_get_core os hw) [0..<?n] ?s = Ret (Inr t)" "bw_done q [0..<?n] ?s t" by auto
  then have "rdt_mbm_bw_get os hw s = Ret (total_mbt t * ucast (scale_factor s), t)"
    using assms(1) unfolding rdt_mbm_bw_get_def mbm_cores_def by (simp add: bw_done_def del: upt_Suc)
  moreover have "total_mbt t = (\<Sum>c\<leftarrow>[0..<?n]. if mb_rmid (mbm_data s c) = 0 then 0 else q c - mb_old_count (mbm_data s c))"
    using t(2) unfolding bw_done_def by (simp add: bw_progress_def [abs_def])
  moreover have "mbm_data t = bw_recorded q {0..<?n} (mbm_data s)" using t(2) by (simp add: bw_done_def)
  then have "(\<forall>c < ?n. mb_rmid (mbm_data s c) \<noteq> 0 \<longrightarrow> mb_old_count (mbm_data t c) = q c) \<and>
      (\<forall>c. mb_rmid (mbm_data t c) = mb_rmid (mbm_data s c))" by (simp add: bw_recorded_def)
  ultimately show ?thesis by simp
qed

definition rdt_demo :: rdt_state where
  "rdt_demo = \<lparr>rdt_sys = rdt_sys_at 0, mbm_data = (\<lambda>c. \<lparr>mb_rmid = word_of_nat c, mb_delta = 0, mb_old_count = 5\<rparr>),
     total_mbt = 0, scale_factor = 64, counter_length = 24, max_rmid = 8, num_cores = 3, closed_fds = []\<rparr>"

theorem bw_get_sums_progress_witness:
  "\<exists>t. rdt_mbm_bw_get rdt_os (\<lambda>c _. set_reg (int c) PQOS_MSR_MON_QMC 12) rdt_demo = Ret (14 * 64, t) \<and>
     mb_old_count (mbm_data t 2) = 12"
proof -
  have u: "unat (3 :: u32) = 3" by simp
  have l: "[0..<3] = [0, 1, 2 :: nat]" by (simp add: upt_rec)
  have 1: "num_cores rdt_demo \<noteq> 0" "uint (num_cores rdt_demo) \<le> MAX_NUM_CORES"
    by (simp_all add: rdt_demo_def const_simps)
  have 2: "counting (unat (num_cores rdt_demo)) (\<lambda>c _. set_reg (int c) PQOS_MSR_MON_QMC 12) (\<lambda>_. 12)"
    by (simp add: counting_def)
  have 3: "\<forall>c < unat (num_cores rdt_demo). core_msr_ok rdt_os (int c) (rdt_sys rdt_demo)"
    by (simp add: rdt_demo_def rdt_sys_at_ok const_simps)
  from bw_get_sums_progress [OF 1 2 3] show ?thesis by (auto simp: rdt_demo_def l)
qed

section \<open>Monitoring ids\<close>

text \<open>CPUID leaf 0xf reports the highest RMID in EBX. After detection the core with that number is
  given the next one, which does not exist.\<close>

lemma rmid_out_of_range:
  assumes "rdt_mbm_support_check cpuid nproc s = (0, t)" "cpuid 0xf 0 = (a, highest, c, d)" "highest < - 1"
  shows "core2rmid t highest = highest + 1" "highest < core2rmid t highest"
proof -
  have m: "max_rmid t = highest + 1" using assms(1,2)
    by (auto simp: rdt_mbm_support_check_def Let_def split: prod.splits if_splits)
  then show "core2rmid t highest = highest + 1" by (simp add: core2rmid_def Let_def)
  moreover have "unat highest < 2 ^ 32 - 1" using assms(3) by (simp add: word_less_nat_alt unsigned_minus_1_eq_mask mask_eq_exp_minus_1)
  then have "highest < highest + 1" by (simp add: word_less_nat_alt unat_word_ariths)
  ultimately show "highest < core2rmid t highest" by simp
qed

end
