(* ===== verification/User_Mab.thy ===== *)
theory User_Mab
  imports Msr C_Float
begin

text \<open>
  \<open>tuners/mab.c\<close> and \<open>tuners/mab_setup.c\<close>: the multi-armed bandit of the user-space program.
  The master thread calls \<open>mab\<close> once per interval; it evaluates the arm that was running,
  chooses the next one and marks the cores dirty when the arm changed.

  \<open>tuner\<close> is the global state the tuner works on: \<open>mstate\<close>, \<open>arms\<close>, \<open>gtinfo\<close>, the core range
  and the time interval. The two circular buffers are the lists allocated for them. A function
  pointer is a value of the datatype of the functions it can point to, or \<open>None\<close> for the null
  pointer. The parameters are \<open>rand\<close>, whose two next results are the arguments \<open>r1\<close> and \<open>r2\<close>
  (between 0 and \<open>RAND_MAX\<close>), the library function \<open>log\<close>, whose accuracy C leaves open, and
  cJSON, which \<open>read_config\<close> stands for. \<open>size_t\<close> counters that index an array are natural
  numbers; \<open>iterations\<close>, which is only counted, keeps its 64 bits. Logging is not modelled.
\<close>

definition MAX_ARMS :: int where [const_simps]: "MAX_ARMS = 1000"
definition MAX_THREADS :: int where [const_simps]: "MAX_THREADS = 1024"
definition RAND_MAX :: nat where [const_simps]: "RAND_MAX = 2147483647"

definition ROUND_ROBIN :: int where [const_simps]: "ROUND_ROBIN = 0"
definition MAIN_LOOP :: int where [const_simps]: "MAIN_LOOP = 1"
definition MAIN_LOOP_TRANSITION :: int where [const_simps]: "MAIN_LOOP_TRANSITION = 2"
definition RR_RESTART :: int where [const_simps]: "RR_RESTART = 3"

definition E_GREEDY :: int where [const_simps]: "E_GREEDY = 0"
definition UCB :: int where [const_simps]: "UCB = 1"
definition DUCB :: int where [const_simps]: "DUCB = 2"
definition RANDOM :: int where [const_simps]: "RANDOM = 3"

definition ONCE :: int where [const_simps]: "ONCE = 1"
definition PERIODIC :: int where [const_simps]: "PERIODIC = 3"

definition SD_OFF :: int where [const_simps]: "SD_OFF = 0"
definition SD_ON :: int where [const_simps]: "SD_ON = 1"
definition SD_STEP :: int where [const_simps]: "SD_STEP = 2"

definition MAX_TIME_INTERVAL :: cfloat where "MAX_TIME_INTERVAL = flit binary64 (1 / 10)"
definition MIN_TIME_INTERVAL :: cfloat where "MIN_TIME_INTERVAL = flit binary64 (1 / 100)"

datatype next_arm_strategy_t = Next_arm_rr | Next_arm_max | Next_arm_random | Next_arm_potential | Next_arm_default
datatype update_strategy_t = Update_rr | Update_increment | Update_discounted | Update_none
datatype RewardUpdateFunc = Get_reward | Update_reward

record mab_state =
  ms_mode :: int
  ms_algorithm :: int
  num_total :: cfloat
  ms_arm :: nat
  num_arms :: nat
  arm_configuration :: int
  ms_epsilon :: cfloat
  ms_gamma :: cfloat
  ms_c :: cfloat
  avg_reward :: cfloat
  ms_normalise :: int
  norm_freq :: nat
  num_threads :: nat
  rr_counter :: nat
  next_arm_func :: "next_arm_strategy_t option"
  update_func :: "update_strategy_t option"
  ms_iterations :: u64
  dynamic_sd :: int
  ipc_buffer :: "cfloat list"
  ipc_index :: nat
  current_ipc_mean :: cfloat
  current_ipc_M2 :: cfloat
  ipc_n :: nat
  ipc_window_size :: nat
  sd_buffer :: "cfloat list"
  sd_index :: nat
  current_sd_mean :: cfloat
  sd_n :: nat
  sd_window_size :: nat
  sd_mean_threshold :: cfloat
  sd_mean_min_threshold :: cfloat

record arms_t =
  arm_msr_values :: "msr_u arr arr"
  arm_rewards :: "cfloat arr"
  arm_ipcs :: "cfloat arr"
  arm_nums :: "cfloat arr"

record thread_state =
  t_core_id :: int
  t_msr_dirty :: bool
  t_msr_value :: "msr_u arr"
  t_pmu_result :: "u64 arr"
  t_instructions_retired :: u64
  t_cpu_cycles :: u64

record tuner =
  mstate :: mab_state
  arms :: arms_t
  gtinfo :: "thread_state arr"
  u_core_first :: int
  u_core_last :: int
  time_intervall :: cfloat

abbreviation f32 :: "int \<Rightarrow> cfloat" where "f32 \<equiv> f_of_int binary32"

section \<open>The next arm\<close>

definition next_arm_rr :: "tuner \<Rightarrow> nat" where
  "next_arm_rr s = rr_counter (mstate s)"

text \<open>The index of the first greatest value, as both loops compute it: a value replaces the current
  one when it is greater.\<close>

fun argmax_from :: "(nat \<Rightarrow> cfloat) \<Rightarrow> nat list \<Rightarrow> nat \<Rightarrow> cfloat \<Rightarrow> nat" where
  "argmax_from f [] max_index max_reward = max_index"
| "argmax_from f (i # is) max_index max_reward =
     (if flt max_reward (f i) then argmax_from f is i (f i) else argmax_from f is max_index max_reward)"

definition next_arm_max :: "nat \<Rightarrow> nat \<Rightarrow> tuner \<Rightarrow> nat option" where
  "next_arm_max r1 r2 s =
     (let r = fdiv binary32 (f32 (int r1)) (f32 (int RAND_MAX)); n = num_arms (mstate s)
      in if flt r (ms_epsilon (mstate s))
         then if n = 0 then None else Some (r2 mod n)
         else if int n > MAX_ARMS then None
         else Some (argmax_from (arm_rewards (arms s)) [1..<n] 0 (arm_rewards (arms s) 0)))"

definition next_arm_random :: "nat \<Rightarrow> tuner \<Rightarrow> nat option" where
  "next_arm_random r1 s =
     (let n = num_arms (mstate s)
      in if n = 0 \<or> RAND_MAX div n = 0 then None else Some (r1 div (RAND_MAX div n)))"

definition exploration_factor :: "tuner \<Rightarrow> cfloat \<Rightarrow> nat \<Rightarrow> cfloat" where
  "exploration_factor s log_num_total arm_num =
     fconv binary32 (fadd binary64 (arm_rewards (arms s) arm_num)
       (fmul binary64 (ms_c (mstate s))
         (fsqrt binary64 (fdiv binary32 log_num_total (arm_nums (arms s) arm_num)))))"

definition next_arm_potential :: "(cfloat \<Rightarrow> cfloat) \<Rightarrow> tuner \<Rightarrow> nat option" where
  "next_arm_potential clog s =
     (let n = num_arms (mstate s); f = exploration_factor s (fconv binary32 (clog (num_total (mstate s))))
      in if int n > MAX_ARMS then None else Some (argmax_from f [1..<n] 0 (f 0)))"

definition next_arm_default :: "tuner \<Rightarrow> nat" where
  "next_arm_default s = 0"

fun next_arm :: "(cfloat \<Rightarrow> cfloat) \<Rightarrow> nat \<Rightarrow> nat \<Rightarrow> next_arm_strategy_t \<Rightarrow> tuner \<Rightarrow> nat option" where
  "next_arm clog r1 r2 Next_arm_rr s = Some (next_arm_rr s)"
| "next_arm clog r1 r2 Next_arm_max s = next_arm_max r1 r2 s"
| "next_arm clog r1 r2 Next_arm_random s = next_arm_random r1 s"
| "next_arm clog r1 r2 Next_arm_potential s = next_arm_potential clog s"
| "next_arm clog r1 r2 Next_arm_default s = Some (next_arm_default s)"

section \<open>Selections\<close>

definition arm_nums_at :: "tuner \<Rightarrow> nat \<Rightarrow> cfloat option" where
  "arm_nums_at s i = aget MAX_ARMS (arm_nums (arms s)) (int i)"

definition upd_arms :: "(arms_t \<Rightarrow> arms_t) \<Rightarrow> tuner \<Rightarrow> tuner" where
  "upd_arms f s = s\<lparr>arms := f (arms s)\<rparr>"

definition upd_mstate :: "(mab_state \<Rightarrow> mab_state) \<Rightarrow> tuner \<Rightarrow> tuner" where
  "upd_mstate f s = s\<lparr>mstate := f (mstate s)\<rparr>"

definition set_num :: "nat \<Rightarrow> cfloat \<Rightarrow> tuner \<Rightarrow> tuner" where
  "set_num i v = upd_arms (\<lambda>a. a\<lparr>arm_nums := (arm_nums a)(i := v)\<rparr>)"

definition update_selections_rr :: "tuner \<Rightarrow> tuner option" where
  "update_selections_rr s =
     do { _ \<leftarrow> arm_nums_at s (ms_arm (mstate s));
          Some (upd_mstate (\<lambda>m. m\<lparr>num_total := fadd binary32 (num_total m) (f32 1), rr_counter := rr_counter m + 1\<rparr>)
            (set_num (ms_arm (mstate s)) (f32 1) s)) }"

definition update_selections_increment :: "tuner \<Rightarrow> tuner option" where
  "update_selections_increment s =
     do { n \<leftarrow> arm_nums_at s (ms_arm (mstate s));
          Some (upd_mstate (\<lambda>m. m\<lparr>num_total := fadd binary32 (num_total m) (f32 1)\<rparr>)
            (set_num (ms_arm (mstate s)) (fadd binary32 n (f32 1)) s)) }"

definition discount_nums :: "tuner \<Rightarrow> tuner" where
  "discount_nums s = upd_arms (\<lambda>a. a\<lparr>arm_nums := (\<lambda>i. if i < num_arms (mstate s)
     then fmul binary32 (arm_nums a i) (ms_gamma (mstate s)) else arm_nums a i)\<rparr>) s"

definition update_selections_discounted :: "tuner \<Rightarrow> tuner option" where
  "update_selections_discounted s =
     (if int (num_arms (mstate s)) > MAX_ARMS then None
      else do { let s = discount_nums s;
                n \<leftarrow> arm_nums_at s (ms_arm (mstate s));
                Some (upd_mstate (\<lambda>m. m\<lparr>num_total := fadd binary32 (fmul binary32 (ms_gamma m) (num_total m)) (f32 1)\<rparr>)
                  (set_num (ms_arm (mstate s)) (fadd binary32 n (f32 1)) s)) })"

definition update_selections_none :: "tuner \<Rightarrow> tuner option" where
  "update_selections_none s = Some s"

fun update_selections :: "update_strategy_t \<Rightarrow> tuner \<Rightarrow> tuner option" where
  "update_selections Update_rr = update_selections_rr"
| "update_selections Update_increment = update_selections_increment"
| "update_selections Update_discounted = update_selections_discounted"
| "update_selections Update_none = update_selections_none"

section \<open>Rewards\<close>

definition set_reward :: "nat \<Rightarrow> cfloat \<Rightarrow> tuner \<Rightarrow> tuner" where
  "set_reward i v = upd_arms (\<lambda>a. a\<lparr>arm_rewards := (arm_rewards a)(i := v)\<rparr>)"

definition set_ipc :: "nat \<Rightarrow> cfloat \<Rightarrow> tuner \<Rightarrow> tuner" where
  "set_ipc i v = upd_arms (\<lambda>a. a\<lparr>arm_ipcs := (arm_ipcs a)(i := v)\<rparr>)"

text \<open>The instructions per cycle of the second thread, in double precision, rounded to \<open>float\<close>.\<close>

definition measured_ipc :: "tuner \<Rightarrow> cfloat" where
  "measured_ipc s = fconv binary32 (fdiv binary64 (f_of_int binary64 (uint (t_instructions_retired (gtinfo s 1))))
     (f_of_int binary64 (uint (t_cpu_cycles (gtinfo s 1)))))"

definition get_reward :: "nat \<Rightarrow> tuner \<Rightarrow> (cfloat \<times> tuner) option" where
  "get_reward arm_num s =
     (let reward = measured_ipc s; n = arm_nums (arms s) arm_num
      in if int arm_num \<ge> MAX_ARMS then None
         else if ms_mode (mstate s) = RR_RESTART \<or> MAIN_LOOP_TRANSITION \<noteq> 0
         then Some (reward, set_ipc arm_num reward s)
         else Some (reward, set_ipc arm_num
                (fdiv binary32 (fadd binary32 (fmul binary32 (arm_ipcs (arms s) arm_num) (fsub binary32 n (f32 1))) reward) n) s))"

definition update_reward :: "nat \<Rightarrow> tuner \<Rightarrow> (cfloat \<times> tuner) option" where
  "update_reward arm_num s =
     do { (rstep, s) \<leftarrow> get_reward arm_num s;
          let normalised_reward = fdiv binary32 rstep (avg_reward (mstate s));
          let n = arm_nums (arms s) arm_num;
          Some (fdiv binary32 (fadd binary32 (fmul binary32 (arm_rewards (arms s) arm_num) (fsub binary32 n (f32 1))) normalised_reward) n, s) }"

fun reward_func :: "RewardUpdateFunc \<Rightarrow> nat \<Rightarrow> tuner \<Rightarrow> (cfloat \<times> tuner) option" where
  "reward_func Get_reward = get_reward"
| "reward_func Update_reward = update_reward"

section \<open>Switching arms\<close>

definition set_msrs :: "nat \<Rightarrow> tuner \<Rightarrow> tuner option" where
  "set_msrs arm_num s =
     (if arm_num \<noteq> ms_arm (mstate s)
      then if int (num_threads (mstate s)) > MAX_THREADS then None
           else Some (s\<lparr>gtinfo := (\<lambda>i. if i < num_threads (mstate s) then (gtinfo s i)\<lparr>t_msr_dirty := True\<rparr> else gtinfo s i)\<rparr>)
      else Some s)"

definition setup_arm ::
    "(cfloat \<Rightarrow> cfloat) \<Rightarrow> nat \<Rightarrow> nat \<Rightarrow> next_arm_strategy_t option \<Rightarrow> update_strategy_t option \<Rightarrow> tuner \<Rightarrow> tuner option" where
  "setup_arm clog r1 r2 next_arm_strategy update_strategy s =
     do { let prev_arm = ms_arm (mstate s);
          strategy \<leftarrow> next_arm_strategy;
          arm \<leftarrow> next_arm clog r1 r2 strategy s;
          s \<leftarrow> set_msrs prev_arm (upd_mstate (\<lambda>m. m\<lparr>ms_arm := arm, ms_iterations := ms_iterations m + 1\<rparr>) s);
          update \<leftarrow> update_strategy;
          update_selections update s }"

definition evaluate_arm :: "RewardUpdateFunc \<Rightarrow> tuner \<Rightarrow> tuner option" where
  "evaluate_arm rewardFunc s =
     do { let prev_arm = ms_arm (mstate s);
          (v, s) \<leftarrow> reward_func rewardFunc prev_arm s;
          Some (set_reward prev_arm v s) }"

definition ipc_total :: "tuner \<Rightarrow> cfloat" where
  "ipc_total s = foldl (fadd binary32) (f32 0) (map (arm_ipcs (arms s)) [0..<num_arms (mstate s)])"

definition normalise_rewards :: "tuner \<Rightarrow> tuner option" where
  "normalise_rewards s =
     (if int (num_arms (mstate s)) > MAX_ARMS \<or> u_core_last s > MAX_ARMS then None
      else let avg = fdiv binary32 (ipc_total s) (f32 (int (num_arms (mstate s))))
           in Some (upd_mstate (\<lambda>m. m\<lparr>avg_reward := avg\<rparr>)
                (upd_arms (\<lambda>a. a\<lparr>arm_rewards := (\<lambda>i. if int i < u_core_last s
                   then fdiv binary32 (arm_rewards a i) avg else arm_rewards a i)\<rparr>) s)))"

section \<open>Standard deviation\<close>

definition update_ipc_window :: "cfloat \<Rightarrow> tuner \<Rightarrow> tuner option" where
  "update_ipc_window new_ipc s =
     (let m = mstate s; w = ipc_window_size m
      in if ipc_index m \<ge> length (ipc_buffer m) \<or> w = 0 then None
         else let old_ipc = ipc_buffer m ! ipc_index m;
                  diff = fsub binary32 new_ipc old_ipc;
                  new_mean = fadd binary32 (current_ipc_mean m) (fdiv binary32 diff (f32 (int w)));
                  spread = fsub binary32 (fadd binary32 (fsub binary32 new_ipc new_mean) old_ipc) (current_ipc_mean m)
              in Some (upd_mstate (\<lambda>m. m\<lparr>ipc_buffer := (ipc_buffer m)[ipc_index m := new_ipc],
                   ipc_index := (ipc_index m + 1) mod w,
                   ipc_n := if ipc_n m < w then ipc_n m + 1 else ipc_n m,
                   current_ipc_M2 := fadd binary32 (current_ipc_M2 m) (fmul binary32 diff spread),
                   current_ipc_mean := new_mean\<rparr>) s))"

definition update_sd_window :: "cfloat \<Rightarrow> tuner \<Rightarrow> tuner option" where
  "update_sd_window new_sd s =
     (let m = mstate s; w = sd_window_size m
      in if sd_index m \<ge> length (sd_buffer m) \<or> w = 0 then None
         else let old_sd = sd_buffer m ! sd_index m;
                  n = sd_n m + 1
              in Some (upd_mstate (\<lambda>m. (m\<lparr>sd_buffer := (sd_buffer m)[sd_index m := new_sd],
                   sd_index := (sd_index m + 1) mod w\<rparr>)
                   \<lparr>sd_n := if sd_n m < w then n else sd_n m,
                    current_sd_mean := fadd binary32 (current_sd_mean m)
                      (if sd_n m < w then fdiv binary32 (fsub binary32 new_sd (current_sd_mean m)) (f32 (int n))
                       else fdiv binary32 (fsub binary32 new_sd old_sd) (f32 (int w)))\<rparr>) s))"

definition update_and_fetch_sd_mean :: "cfloat \<Rightarrow> tuner \<Rightarrow> (cfloat \<times> tuner) option" where
  "update_and_fetch_sd_mean new_ipc s =
     do { s \<leftarrow> update_ipc_window new_ipc s;
          let m = mstate s;
          s \<leftarrow> (if ipc_n m = ipc_window_size m
               then update_sd_window (fconv binary32 (fsqrt binary64
                      (fdiv binary32 (current_ipc_M2 m) (f32 (int (ipc_window_size m)))))) s
               else Some s);
          Some (current_sd_mean (mstate s), s) }"

definition check_dynamic_sd :: "tuner \<Rightarrow> (bool \<times> tuner) option" where
  "check_dynamic_sd s =
     (if dynamic_sd (mstate s) = SD_ON \<or> dynamic_sd (mstate s) = SD_STEP
      then do { (sd_mean, s) \<leftarrow> update_and_fetch_sd_mean (measured_ipc s) s;
                let m = mstate s;
                if flt (sd_mean_threshold m) sd_mean
                then if dynamic_sd m = SD_ON then Some (True, s)
                     else if dynamic_sd m = SD_STEP \<and> flt (time_intervall s) MAX_TIME_INTERVAL
                     then Some (False, s\<lparr>time_intervall := fconv binary32 MAX_TIME_INTERVAL\<rparr>)
                     else Some (False, s)
                else if dynamic_sd m = SD_STEP \<and> flt sd_mean (sd_mean_threshold m)
                        \<and> flt MIN_TIME_INTERVAL (time_intervall s)
                then Some (False, s\<lparr>time_intervall := fconv binary32 MIN_TIME_INTERVAL\<rparr>)
                else Some (False, s) }
      else Some (False, s))"

section \<open>One call\<close>

definition mab_round_robin :: "(cfloat \<Rightarrow> cfloat) \<Rightarrow> nat \<Rightarrow> nat \<Rightarrow> tuner \<Rightarrow> tuner option" where
  "mab_round_robin clog r1 r2 s =
     do { s \<leftarrow> (if rr_counter (mstate s) \<noteq> 0 then evaluate_arm Get_reward s else Some s);
          s \<leftarrow> setup_arm clog r1 r2 (Some Next_arm_rr) (Some Update_rr) s;
          if rr_counter (mstate s) = num_arms (mstate s)
          then Some (upd_mstate (\<lambda>m. m\<lparr>rr_counter := 0, ms_mode := MAIN_LOOP_TRANSITION\<rparr>) s)
          else Some s }"

definition mab_transition :: "(cfloat \<Rightarrow> cfloat) \<Rightarrow> nat \<Rightarrow> nat \<Rightarrow> tuner \<Rightarrow> tuner option" where
  "mab_transition clog r1 r2 s =
     do { s \<leftarrow> evaluate_arm Get_reward s;
          s \<leftarrow> (if ms_normalise (mstate s) = ONCE \<or> ms_normalise (mstate s) = PERIODIC then normalise_rewards s else Some s);
          s \<leftarrow> setup_arm clog r1 r2 (next_arm_func (mstate s)) (update_func (mstate s)) s;
          Some (upd_mstate (\<lambda>m. m\<lparr>ms_mode := MAIN_LOOP\<rparr>) s) }"

definition mab_main_loop :: "(cfloat \<Rightarrow> cfloat) \<Rightarrow> nat \<Rightarrow> nat \<Rightarrow> tuner \<Rightarrow> tuner option" where
  "mab_main_loop clog r1 r2 s =
     do { s \<leftarrow> evaluate_arm Update_reward s;
          setup_arm clog r1 r2 (next_arm_func (mstate s)) (update_func (mstate s)) s }"

definition periodic_due :: "mab_state \<Rightarrow> bool option" where
  "periodic_due m =
     (if ms_normalise m = PERIODIC
      then if norm_freq m = 0 then None else Some (unat (ms_iterations m + 1) mod norm_freq m = 0)
      else Some False)"

definition mab :: "(cfloat \<Rightarrow> cfloat) \<Rightarrow> nat \<Rightarrow> nat \<Rightarrow> tuner \<Rightarrow> tuner option" where
  "mab clog r1 r2 s =
     do { (sleep, s) \<leftarrow> check_dynamic_sd s;
          if sleep then setup_arm clog r1 r2 (Some Next_arm_default) (Some Update_none) s
          else if ms_algorithm (mstate s) = RANDOM
          then setup_arm clog r1 r2 (Some Next_arm_random) (Some Update_increment) s
          else do { due \<leftarrow> periodic_due (mstate s);
                    s \<leftarrow> (if due then normalise_rewards s else Some s);
                    if ms_mode (mstate s) = ROUND_ROBIN then mab_round_robin clog r1 r2 s
                    else if ms_mode (mstate s) = MAIN_LOOP_TRANSITION then mab_transition clog r1 r2 s
                    else mab_main_loop clog r1 r2 s } }"

section \<open>Configuration\<close>

text \<open>An item of the configuration, as cJSON presents it: its type, its string, its number as a
  \<open>double\<close> and that number as an \<open>int\<close>.\<close>

datatype cjson_item = JString "string option" | JNumber int cfloat | JOther

type_synonym cjson = "string \<Rightarrow> cjson_item option"

definition map_algorithm_to_enum :: "string \<Rightarrow> int" where
  "map_algorithm_to_enum algorithm =
     (if algorithm = ''E_GREEDY'' then E_GREEDY else if algorithm = ''UCB'' then UCB
      else if algorithm = ''DUCB'' then DUCB else if algorithm = ''RANDOM'' then RANDOM else -1)"

definition json_int :: "cjson \<Rightarrow> string \<Rightarrow> (int \<Rightarrow> bool) \<Rightarrow> (int \<Rightarrow> mab_state \<Rightarrow> mab_state) \<Rightarrow> mab_state \<Rightarrow> mab_state" where
  "json_int json key ok store m = (case json key of Some (JNumber i d) \<Rightarrow> if ok i then store i m else m | _ \<Rightarrow> m)"

definition json_float :: "cjson \<Rightarrow> string \<Rightarrow> (cfloat \<Rightarrow> bool) \<Rightarrow> (cfloat \<Rightarrow> mab_state \<Rightarrow> mab_state) \<Rightarrow> mab_state \<Rightarrow> mab_state" where
  "json_float json key ok store m =
     (case json key of Some (JNumber i d) \<Rightarrow> if ok d then store (fconv binary32 d) m else m | _ \<Rightarrow> m)"

definition f64 :: "int \<Rightarrow> cfloat" where "f64 n = f_of_int binary64 n"

definition json_algorithm :: "cjson \<Rightarrow> mab_state \<Rightarrow> mab_state outcome" where
  "json_algorithm json m =
     (case json ''algorithm'' of
        Some (JString (Some a)) \<Rightarrow>
          if map_algorithm_to_enum a = -1 then Exit (-1) else Ret (m\<lparr>ms_algorithm := map_algorithm_to_enum a\<rparr>)
      | _ \<Rightarrow> Ret m)"

definition json_arm_configuration :: "cjson \<Rightarrow> mab_state \<Rightarrow> mab_state outcome" where
  "json_arm_configuration json m =
     (case json ''arm_configuration'' of
        Some (JNumber i d) \<Rightarrow> if 0 \<le> i \<and> i \<le> 5 then Ret (m\<lparr>arm_configuration := i\<rparr>) else Exit (-1)
      | _ \<Rightarrow> Exit (-1))"

text \<open>\<open>read_config\<close> is the parsed contents of the file, \<open>None\<close> when it cannot be read or
  parsed.\<close>

definition setup_mab_state_from_json :: "cjson option \<Rightarrow> mab_state \<Rightarrow> mab_state outcome" where
  "setup_mab_state_from_json read_config m =
     (case read_config of
        None \<Rightarrow> Exit (-1)
      | Some json \<Rightarrow>
          obind (json_algorithm json m) (\<lambda>m.
          obind (json_arm_configuration json m) (\<lambda>m.
            let m = json_int json ''norm_freq'' (\<lambda>i. i > 0) (\<lambda>i m. m\<lparr>norm_freq := nat i\<rparr>) m;
                m = json_float json ''epsilon'' (\<lambda>d. fle (f64 0) d \<and> fle d (f64 1)) (\<lambda>x m. m\<lparr>ms_epsilon := x\<rparr>) m;
                m = json_float json ''gamma'' (\<lambda>d. fle (f64 0) d \<and> fle d (f64 1)) (\<lambda>x m. m\<lparr>ms_gamma := x\<rparr>) m;
                m = json_float json ''c'' (\<lambda>d. flt (f64 0) d) (\<lambda>x m. m\<lparr>ms_c := x\<rparr>) m;
                m = json_int json ''normalisation'' (\<lambda>i. i \<ge> 0) (\<lambda>i m. m\<lparr>ms_normalise := i\<rparr>) m;
                m = json_int json ''dynamic_sd'' (\<lambda>i. i \<ge> 0) (\<lambda>i m. m\<lparr>dynamic_sd := i\<rparr>) m;
                m = json_int json ''ipc_window_size'' (\<lambda>i. i \<ge> 0) (\<lambda>i m. m\<lparr>ipc_window_size := nat i\<rparr>) m;
                m = json_int json ''sd_window_size'' (\<lambda>i. i \<ge> 0) (\<lambda>i m. m\<lparr>sd_window_size := nat i\<rparr>) m;
                m = json_float json ''sd_mean_threshold'' (\<lambda>d. fle (f64 0) d) (\<lambda>x m. m\<lparr>sd_mean_threshold := x\<rparr>) m
            in Ret m)))"

section \<open>Arms\<close>

definition set_arm_msr :: "nat \<Rightarrow> (msr_u arr \<Rightarrow> msr_u arr) \<Rightarrow> arms_t \<Rightarrow> arms_t" where
  "set_arm_msr i f a = a\<lparr>arm_msr_values := (arm_msr_values a)(i := f (arm_msr_values a i))\<rparr>"

definition create_16_arms :: "arms_t \<Rightarrow> arms_t" where
  "create_16_arms = fold (\<lambda>i. set_arm_msr i
     (\<lambda>m. msr_set_nlpoff (msr_set_llcoff (msr_set_amp_disable (msr_set_mlc_disable m
            (of_bool (bit i 0))) (of_bool (bit i 1))) (of_bool (bit i 2))) (of_bool (bit i 3)))) [0..<16]"

definition create_4_arms :: "arms_t \<Rightarrow> arms_t" where
  "create_4_arms = fold (\<lambda>i. set_arm_msr i
     (\<lambda>m. msr_set_amp_disable (msr_set_mlc_disable m (of_bool (bit i 0))) (of_bool (bit i 1)))) [0..<4]"

definition create_2_arms :: "arms_t \<Rightarrow> arms_t" where
  "create_2_arms = fold (\<lambda>i. set_arm_msr i (\<lambda>m. msr_set_mlc_disable m (int i))) [0..<2]"

definition create_5_combos_l2dd :: "arms_t \<Rightarrow> arms_t" where
  "create_5_combos_l2dd a =
     set_arm_msr 4 (\<lambda>m. msr_set_mlc_disable m 1)
       (fold (\<lambda>i. set_arm_msr i (\<lambda>m. msr_set_l2dd m ([0, 16, 64, 255] ! i))) [0..<4] a)"

definition create_6_combos_l2xq :: "arms_t \<Rightarrow> arms_t" where
  "create_6_combos_l2xq a =
     set_arm_msr 5 (\<lambda>m. msr_set_mlc_disable m 1)
       (fold (\<lambda>i. set_arm_msr i (\<lambda>m. msr_set_l2xq m ([0, 4, 8, 16, 31] ! i))) [0..<5] a)"

definition init_arm :: "nat \<Rightarrow> arms_t \<Rightarrow> arms_t" where
  "init_arm i a = (set_arm_msr i populate_msr_u a)
     \<lparr>arm_rewards := (arm_rewards a)(i := f32 0), arm_nums := (arm_nums a)(i := f32 0), arm_ipcs := (arm_ipcs a)(i := f32 1)\<rparr>"

definition create_arms :: "tuner \<Rightarrow> tuner outcome" where
  "create_arms s =
     obind (let c = arm_configuration (mstate s); a = arms s
            in if c = 0 then Ret (create_16_arms a, 16) else if c = 1 then Ret (create_4_arms a, 4)
               else if c = 2 then Ret (create_5_combos_l2dd a, 5) else if c = 3 then Ret (create_6_combos_l2xq a, 6)
               else if c = 4 then Ret (create_2_arms a, 2) else Exit (-1)) (\<lambda>(a, n).
       Ret (s\<lparr>arms := fold init_arm [0..<n] a, mstate := (mstate s)\<lparr>num_arms := n\<rparr>\<rparr>))"

section \<open>Initialisation\<close>

definition init_mab_strategies :: "mab_state \<Rightarrow> mab_state" where
  "init_mab_strategies m =
     (if ms_algorithm m = E_GREEDY then m\<lparr>next_arm_func := Some Next_arm_max, update_func := Some Update_increment\<rparr>
      else if ms_algorithm m = UCB then m\<lparr>next_arm_func := Some Next_arm_potential, update_func := Some Update_increment\<rparr>
      else if ms_algorithm m = DUCB then m\<lparr>next_arm_func := Some Next_arm_potential, update_func := Some Update_discounted\<rparr>
      else m)"

text \<open>\<open>calloc_ok\<close>: whether both buffers are allocated.\<close>

definition allocate_buffers :: "bool \<Rightarrow> mab_state \<Rightarrow> mab_state outcome" where
  "allocate_buffers calloc_ok m =
     (if \<not> calloc_ok then Exit 1
      else Ret (m\<lparr>ipc_buffer := replicate (ipc_window_size m) (FFin False 0),
                  sd_buffer := replicate (sd_window_size m) (FFin False 0),
                  ipc_index := 0, sd_index := 0, current_ipc_mean := f32 0, current_ipc_M2 := f32 0,
                  ipc_n := 0, current_sd_mean := f32 0, sd_n := 0\<rparr>))"

definition mab_init :: "cjson option \<Rightarrow> bool \<Rightarrow> nat \<Rightarrow> tuner \<Rightarrow> tuner outcome" where
  "mab_init read_config calloc_ok active_threads s =
     (let m = (mstate s)\<lparr>num_total := f32 0, ms_arm := 0, num_threads := active_threads, rr_counter := 0,
                ms_normalise := ONCE, avg_reward := f32 1, ms_iterations := 0, dynamic_sd := SD_OFF,
                norm_freq := 1000, sd_mean_threshold := f32 0,
                sd_mean_min_threshold := fconv binary32 (flit binary64 (3 / 10))\<rparr>
      in obind (setup_mab_state_from_json read_config m) (\<lambda>m.
         obind (if dynamic_sd m = SD_ON \<or> dynamic_sd m = SD_STEP then allocate_buffers calloc_ok m else Ret m) (\<lambda>m.
           create_arms (s\<lparr>mstate := init_mab_strategies m\<rparr>))))"


section \<open>The configurations of the arms\<close>

lemma fold_set_arm_msr:
  "arm_msr_values (fold (\<lambda>i. set_arm_msr i (f i)) [0..<n] a) k =
    (if k < n then f k (arm_msr_values a k) else arm_msr_values a k)"
  by (induction n) (auto simp: set_arm_msr_def)

lemma fold_init_arm:
  "arm_msr_values (fold init_arm [0..<n] a) k = (if k < n then populate_msr_u (arm_msr_values a k) else arm_msr_values a k)"
  "arm_rewards (fold init_arm [0..<n] a) k = (if k < n then f32 0 else arm_rewards a k)"
  "arm_nums (fold init_arm [0..<n] a) k = (if k < n then f32 0 else arm_nums a k)"
  "arm_ipcs (fold init_arm [0..<n] a) k = (if k < n then f32 1 else arm_ipcs a k)"
  by (induction n) (auto simp: init_arm_def set_arm_msr_def)

text \<open>The defaults as a list of writes: a write to a field that is written again later has no
  effect, and a register that the list does not mention keeps its value.\<close>

definition puts :: "(nat \<times> bitfield \<times> int) list \<Rightarrow> msr_u arr \<Rightarrow> msr_u arr" where
  "puts l m = fold (\<lambda>(k, f, v) m. put_field m k f v) l m"

lemma puts_simps [simp]: "puts [] m = m" "puts ((k, f, v) # l) m = puts l (put_field m k f v)"
  by (simp_all add: puts_def)

definition agree_outside :: "nat \<Rightarrow> bitfield \<Rightarrow> msr_u arr \<Rightarrow> msr_u arr \<Rightarrow> bool" where
  "agree_outside k f m m' \<longleftrightarrow> (\<forall>l. l \<noteq> k \<longrightarrow> m l = m' l) \<and>
     (\<forall>n. \<not> (bf_off f \<le> n \<and> n < bf_off f + bf_width f) \<longrightarrow> bit (m k) n = bit (m' k) n)"

lemma agree_put:
  "agree_outside k f (put_field m k f v) m"
  "agree_outside k f m m' \<Longrightarrow> agree_outside k f (put_field m l g v) (put_field m' l g v)"
  by (auto simp: agree_outside_def put_field_def bit_bf_set dest: bit_imp_le_length)

lemma agree_put_same:
  assumes "agree_outside k f m m'"
  shows "put_field m k f v = put_field m' k f v"
proof -
  have "bf_set f (word_of_int v) (m k) = bf_set f (word_of_int v) (m' k)"
    using assms by (intro bit_word_eqI) (auto simp: agree_outside_def bit_bf_set)
  then show ?thesis using assms by (auto simp: put_field_def agree_outside_def fun_eq_iff)
qed

lemma puts_absorb:
  "agree_outside k f m m' \<Longrightarrow> (k, f) \<in> (\<lambda>(k, f, v). (k, f)) ` set l \<Longrightarrow> puts l m = puts l m'"
proof (induction l arbitrary: m m')
  case (Cons p l)
  obtain k' f' v where p: "p = (k', f', v)" by (cases p)
  show ?case
  proof (cases "(k', f') = (k, f)")
    case True
    then show ?thesis using agree_put_same [OF Cons.prems(1), of v] by (simp add: p)
  next
    case False
    then show ?thesis
      using Cons.IH [OF agree_put(2) [OF Cons.prems(1)], of k' f' v] Cons.prems(2) by (force simp: p)
  qed
qed simp

lemma puts_keep: "k \<notin> fst ` set l \<Longrightarrow> puts l (m(k := v)) = (puts l m)(k := v)"
proof (induction l arbitrary: m)
  case (Cons p l)
  obtain k' f' u where p: "p = (k', f', u)" by (cases p)
  have "put_field (m(k := v)) k' f' u = (put_field m k' f' u)(k := v)"
    using Cons.prems by (auto simp: p put_field_def fun_upd_twist)
  then show ?case using Cons.IH [of "put_field m k' f' u"] Cons.prems by (simp add: p del: fun_upd_apply)
qed simp

definition default_puts :: "(nat \<times> bitfield \<times> int) list" where
  "default_puts =
    [(0, (bf msr1320_s ''L2_STREAM_AMP_XQ_THRESHOLD''), L2_STREAM_AMP_XQ_THRESHOLD_1320),
     (0, (bf msr1320_s ''L2_STREAM_MAX_DISTANCE''), L2_STREAM_MAX_DISTANCE_1320),
     (0, (bf msr1320_s ''L2_AMP_DISABLE_RECURSION''), L2_AMP_DISABLE_RECURSION_1320),
     (0, (bf msr1320_s ''LLC_STREAM_MAX_DISTANCE''), LLC_STREAM_MAX_DISTANCE_1320),
     (0, (bf msr1320_s ''LLC_STREAM_DISABLE''), LLC_STREAM_DISABLE_1320),
     (0, (bf msr1320_s ''LLC_STREAM_XQ_THRESHOLD''), LLC_STREAM_XQ_THRESHOLD_1320),
     (1, (bf msr1321_s ''L2_STREAM_AMP_CREATE_IL1''), L2_STREAM_AMP_CREATE_IL1_1321),
     (1, (bf msr1321_s ''L2_STREAM_DEMAND_DENSITY''), L2_STREAM_DEMAND_DENSITY_1321),
     (1, (bf msr1321_s ''L2_STREAM_DEMAND_DENSITY_OVR''), L2_STREAM_DEMAND_DENSITY_OVR_1321),
     (1, (bf msr1321_s ''L2_DISABLE_NEXT_LINE_PREFETCH''), L2_DISABLE_NEXT_LINE_PREFETCH_1321),
     (1, (bf msr1321_s ''L2_LLC_STREAM_AMP_XQ_THRESHOLD''), L2_LLC_STREAM_AMP_XQ_THRESHOLD_1321),
     (2, (bf msr1322_s ''LLC_STREAM_DEMAND_DENSITY''), LLC_STREAM_DEMAND_DENSITY_1322),
     (2, (bf msr1322_s ''LLC_STREAM_DEMAND_DENSITY_OVR''), LLC_STREAM_DEMAND_DENSITY_OVR_1322),
     (2, (bf msr1322_s ''L2_AMP_CONFIDENCE_DPT0''), L2_AMP_CONFIDENCE_DPT0_1322),
     (2, (bf msr1322_s ''L2_AMP_CONFIDENCE_DPT1''), L2_AMP_CONFIDENCE_DPT1_1322),
     (2, (bf msr1322_s ''L2_AMP_CONFIDENCE_DPT2''), L2_AMP_CONFIDENCE_DPT2_1322),
     (2, (bf msr1322_s ''L2_AMP_CONFIDENCE_DPT3''), L2_AMP_CONFIDENCE_DPT3_1322),
     (2, (bf msr1322_s ''L2_LLC_STREAM_DEMAND_DENSITY_XQ''), L2_LLC_STREAM_DEMAND_DENSITY_XQ_1322),
     (3, (bf msr1323_s ''L2_STREAM_AMP_CREATE_SWPFRFO''), L2_STREAM_AMP_CREATE_SWPFRFO_1323),
     (3, (bf msr1323_s ''L2_STREAM_AMP_CREATE_SWPFRD''), L2_STREAM_AMP_CREATE_SWPFRD_1323),
     (3, (bf msr1323_s ''L2_STREAM_AMP_CREATE_HWPFD''), L2_STREAM_AMP_CREATE_HWPFD_1323),
     (3, (bf msr1323_s ''L2_STREAM_AMP_CREATE_DRFO''), L2_STREAM_AMP_CREATE_DRFO_1323),
     (3, (bf msr1323_s ''STABILIZE_PREF_ON_SWPFRFO''), STABILIZE_PREF_ON_SWPFRFO_1323),
     (3, (bf msr1323_s ''STABILIZE_PREF_ON_SWPFRD''), STABILIZE_PREF_ON_SWPFRD_1323),
     (3, (bf msr1323_s ''STABILIZE_PREF_ON_IL1''), STABILIZE_PREF_ON_IL1_1323),
     (3, (bf msr1323_s ''STABILIZE_PREF_ON_HWPFD''), STABILIZE_PREF_ON_HWPFD_1323),
     (3, (bf msr1323_s ''STABILIZE_PREF_ON_DRFO''), STABILIZE_PREF_ON_DRFO_1323),
     (3, (bf msr1323_s ''L2_STREAM_AMP_CREATE_PFNPP''), L2_STREAM_AMP_CREATE_PFNPP_1323),
     (3, (bf msr1323_s ''L2_STREAM_AMP_CREATE_PFIPP''), L2_STREAM_AMP_CREATE_PFIPP_1323),
     (3, (bf msr1323_s ''STABILIZE_PREF_ON_PFNPP''), STABILIZE_PREF_ON_PFNPP_1323),
     (3, (bf msr1323_s ''STABILIZE_PREF_ON_PFIPP''), STABILIZE_PREF_ON_PFIPP_1323)]"

lemma populate_puts: "populate_msr_u m = puts default_puts m"
  unfolding populate_msr_u_def populate_msr1320_def populate_msr1321_def populate_msr1322_def populate_msr1323_def
    default_puts_def Let_def puts_simps ..

lemma populate_overwrites:
  "populate_msr_u (msr_set_llcoff m v) = populate_msr_u m" "populate_msr_u (msr_set_l2xq m v) = populate_msr_u m"
  "populate_msr_u (msr_set_nlpoff m v) = populate_msr_u m" "populate_msr_u (msr_set_l2dd m v) = populate_msr_u m"
  unfolding msr_set_llcoff_def msr_set_l2xq_def msr_set_nlpoff_def msr_set_l2dd_def populate_puts
  by (rule puts_absorb, rule agree_put, simp add: default_puts_def)+

lemma populate_keeps: "populate_msr_u (m(5 := v)) = (populate_msr_u m)(5 := v)"
  unfolding populate_puts by (rule puts_keep) (simp add: default_puts_def)

lemma msr_1A4_settings:
  "msr_set_mlc_disable m v = m(5 := bf_set (bf msr1A4_s ''L2_STREAM_DISABLED'') (word_of_int v) (m 5))"
  "msr_set_amp_disable m v = m(5 := bf_set (bf msr1A4_s ''L2_AMP_DISABLED'') (word_of_int v) (m 5))"
  by (simp_all add: msr_set_mlc_disable_def msr_set_amp_disable_def put_field_def)

text \<open>The setting that survives in each arm: the bits of register 0x1A4.\<close>

definition prefetch_bits :: "int \<Rightarrow> nat \<Rightarrow> u64" where
  "prefetch_bits c i = (if c \<le> 1 then [0, 1, 32, 33] ! (i mod 4) else if c = 2 then of_bool (i = 4)
     else if c = 3 then of_bool (i = 5) else of_nat i)"

lemma disable_bits:
  "bf_set (bf msr1A4_s ''L2_STREAM_DISABLED'') 0 0 = 0" "bf_set (bf msr1A4_s ''L2_STREAM_DISABLED'') 1 0 = 1"
  "bf_set (bf msr1A4_s ''L2_AMP_DISABLED'') 0 0 = 0" "bf_set (bf msr1A4_s ''L2_AMP_DISABLED'') 1 0 = 32"
  "bf_set (bf msr1A4_s ''L2_AMP_DISABLED'') 0 1 = 1" "bf_set (bf msr1A4_s ''L2_AMP_DISABLED'') 1 1 = 33"
  by (simp_all add: layout_simps bf_set_def)

lemma bits_of_index: "prefetch_bits 0 i = (if bit i 0 then 1 else 0) + (if bit i 1 then 32 else 0)"
proof -
  have "i mod 4 = (if bit i 0 then 1 else 0) + (if bit i 1 then 2 else 0)"
    unfolding bit_iff_odd by (simp; presburger)
  then show ?thesis by (cases "bit i 0"; cases "bit i 1") (simp_all add: prefetch_bits_def)
qed

lemma prefetch_bits_one: "prefetch_bits 1 i = prefetch_bits 0 i"
  by (simp add: prefetch_bits_def)

lemma populate_1A4_upd: "(populate_msr_u (\<lambda>_. 0))(5 := 0) = populate_msr_u (\<lambda>_. 0)"
proof -
  have "(\<lambda>_. 0)(5 := 0) = (\<lambda>_ :: nat. 0 :: u64)" by auto
  then show ?thesis using populate_keeps [of "\<lambda>_. 0" 0] by simp
qed

text \<open>Every arm is the default image with its prefetch bits in register 0x1A4.\<close>

definition arm_count :: "int \<Rightarrow> nat" where
  "arm_count c = (if c = 0 then 16 else if c = 1 then 4 else if c = 2 then 5 else if c = 3 then 6 else 2)"

lemma create_arms_image:
  assumes "create_arms s = Ret t" "arm_msr_values (arms s) = (\<lambda>_ _. 0)"
  shows "0 \<le> arm_configuration (mstate s)" "arm_configuration (mstate s) \<le> 4"
    "num_arms (mstate t) = arm_count (arm_configuration (mstate s))"
    "i < num_arms (mstate t) \<Longrightarrow>
      arm_msr_values (arms t) i = (populate_msr_u (\<lambda>_. 0))(5 := prefetch_bits (arm_configuration (mstate s)) i)"
proof -
  show c: "0 \<le> arm_configuration (mstate s)" "arm_configuration (mstate s) \<le> 4"
    and n: "num_arms (mstate t) = arm_count (arm_configuration (mstate s))"
    using assms by (auto simp: create_arms_def Let_def arm_count_def split: if_splits)
  assume i: "i < num_arms (mstate t)"
  consider "arm_configuration (mstate s) = 0" | "arm_configuration (mstate s) = 1" | "arm_configuration (mstate s) = 2"
    | "arm_configuration (mstate s) = 3" | "arm_configuration (mstate s) = 4" using c by linarith
  then show "arm_msr_values (arms t) i = (populate_msr_u (\<lambda>_. 0))(5 := prefetch_bits (arm_configuration (mstate s)) i)"
  proof cases
    case 1
    then show ?thesis using assms i n
      by (auto simp: create_arms_def Let_def arm_count_def fold_init_arm create_16_arms_def fold_set_arm_msr
          populate_overwrites msr_1A4_settings populate_keeps disable_bits bits_of_index)
  next
    case 2
    then show ?thesis using assms i n
      by (auto simp: create_arms_def Let_def arm_count_def fold_init_arm create_4_arms_def fold_set_arm_msr
          msr_1A4_settings populate_keeps disable_bits bits_of_index prefetch_bits_one)
  next
    case 3
    then show ?thesis using assms i n
      by (auto simp: create_arms_def Let_def arm_count_def fold_init_arm create_5_combos_l2dd_def fold_set_arm_msr
          set_arm_msr_def populate_overwrites msr_1A4_settings populate_keeps disable_bits
          prefetch_bits_def populate_1A4_upd)
  next
    case 4
    then show ?thesis using assms i n
      by (auto simp: create_arms_def Let_def arm_count_def fold_init_arm create_6_combos_l2xq_def fold_set_arm_msr
          set_arm_msr_def populate_overwrites msr_1A4_settings populate_keeps disable_bits
          prefetch_bits_def populate_1A4_upd)
  next
    case 5
    then have "i < 2" using i n by (simp add: arm_count_def)
    then consider "i = 0" | "i = 1" by linarith
    then show ?thesis using 5 assms
      by cases (auto simp: create_arms_def Let_def fold_init_arm create_2_arms_def fold_set_arm_msr msr_1A4_settings
          populate_keeps prefetch_bits_def disable_bits)
  qed
qed

lemma prefetch_bits_eq:
  assumes "0 \<le> c" "c \<le> 4" "i < arm_count c" "j < arm_count c"
  shows "prefetch_bits c i = prefetch_bits c j \<longleftrightarrow> (if c = 0 then i mod 4 = j mod 4
    else if c = 2 then (i = 4) = (j = 4) else if c = 3 then (i = 5) = (j = 5) else i = j)"
proof -
  have nth: "([0, 1, 32, 33 :: u64] ! k = [0, 1, 32, 33] ! l) = (k = l)" if "k < 4" "l < 4" for k l
    using that by (simp add: nth_eq_iff_index_eq)
  consider "c = 0" | "c = 1" | "c = 2" | "c = 3" | "c = 4" using assms by linarith
  then show ?thesis
  proof cases
    case 5
    then have "i = 0 \<or> i = 1" "j = 0 \<or> j = 1" using assms(3,4) by (auto simp: arm_count_def)
    then show ?thesis using 5 by (auto simp: prefetch_bits_def)
  qed (use assms(3,4) in \<open>simp_all add: prefetch_bits_def arm_count_def nth\<close>)
qed

text \<open>
  Claim C23: which arms really differ. \<open>create_arms\<close>, run on the zeroed table of the program's start,
  gives every arm its settings and then fills in the defaults, and the defaults overwrite all settings
  but those of register 0x1A4. The numbers of the configurations are those of the \<open>switch\<close> in
  \<open>create_arms\<close>; the README numbers the last three differently (2 for two arms, 3 for five, 4 for
  six). For configuration 0, with sixteen arms, two arms write the same registers if and only if their
  numbers agree modulo 4; the five arms of configuration 2 (demand density) and the six of
  configuration 3 (queue threshold) are all the same except the last, which disables the
  prefetcher; only configurations 1 and 4, with four and two arms, have pairwise different arms.
\<close>

theorem arms_coincide:
  assumes "create_arms s = Ret t" and "arm_msr_values (arms s) = (\<lambda>_ _. 0)"
    and "i < num_arms (mstate t)" and "j < num_arms (mstate t)" and "c = arm_configuration (mstate s)"
  shows "arm_msr_values (arms t) i = arm_msr_values (arms t) j \<longleftrightarrow>
    (if c = 0 then i mod 4 = j mod 4 else if c = 2 then (i = 4) = (j = 4) else if c = 3 then (i = 5) = (j = 5) else i = j)"
proof -
  note b = create_arms_image [OF assms(1,2)]
  have c: "0 \<le> c" "c \<le> 4" and ij: "i < arm_count c" "j < arm_count c" using b(1-3) assms(3-5) by auto
  have "arm_msr_values (arms t) i = arm_msr_values (arms t) j \<longleftrightarrow> prefetch_bits c i = prefetch_bits c j"
    unfolding b(4) [OF assms(3)] b(4) [OF assms(4)] assms(5) by (metis fun_upd_eqD)
  also have "\<dots> \<longleftrightarrow> (if c = 0 then i mod 4 = j mod 4 else if c = 2 then (i = 4) = (j = 4)
      else if c = 3 then (i = 5) = (j = 5) else i = j)"
    by (rule prefetch_bits_eq) (fact c ij)+
  finally show ?thesis .
qed

definition blank_mstate :: mab_state where
  "blank_mstate = \<lparr>ms_mode = 0, ms_algorithm = 0, num_total = f32 0, ms_arm = 0, num_arms = 0, arm_configuration = 0,
     ms_epsilon = f32 0, ms_gamma = f32 0, ms_c = f32 0, avg_reward = f32 0, ms_normalise = 0, norm_freq = 0,
     num_threads = 0, rr_counter = 0, next_arm_func = None, update_func = None, ms_iterations = 0, dynamic_sd = 0,
     ipc_buffer = [], ipc_index = 0, current_ipc_mean = f32 0, current_ipc_M2 = f32 0, ipc_n = 0, ipc_window_size = 0,
     sd_buffer = [], sd_index = 0, current_sd_mean = f32 0, sd_n = 0, sd_window_size = 0, sd_mean_threshold = f32 0,
     sd_mean_min_threshold = f32 0\<rparr>"

text \<open>The state before \<open>main\<close> runs: static storage is zero. Four cores, numbered from 0.\<close>

definition blank_tuner :: tuner where
  "blank_tuner = \<lparr>mstate = blank_mstate,
     arms = \<lparr>arm_msr_values = (\<lambda>_ _. 0), arm_rewards = (\<lambda>_. f32 0), arm_ipcs = (\<lambda>_. f32 0), arm_nums = (\<lambda>_. f32 0)\<rparr>,
     gtinfo = (\<lambda>i. \<lparr>t_core_id = int i, t_msr_dirty = False, t_msr_value = (\<lambda>_. 0), t_pmu_result = (\<lambda>_. 0),
        t_instructions_retired = 3, t_cpu_cycles = 2\<rparr>),
     u_core_first = 0, u_core_last = 3, time_intervall = f32 1\<rparr>"

theorem arms_coincide_witness:
  "\<exists>t. create_arms blank_tuner = Ret t \<and> arm_msr_values (arms t) 1 = arm_msr_values (arms t) 13 \<and>
     arm_msr_values (arms t) 1 \<noteq> arm_msr_values (arms t) 2"
proof -
  have z: "arm_msr_values (arms blank_tuner) = (\<lambda>_ _. 0)" "arm_configuration (mstate blank_tuner) = 0"
    by (simp_all add: blank_tuner_def blank_mstate_def)
  obtain t where t: "create_arms blank_tuner = Ret t" "num_arms (mstate t) = 16"
    by (simp add: create_arms_def z Let_def)
  show ?thesis
    using arms_coincide [OF t(1) z(1), of 1 13 0] arms_coincide [OF t(1) z(1), of 1 2 0] t z(2) by simp
qed

section \<open>The best arm\<close>

lemma argmax_from_mem: "argmax_from f is b v \<in> insert b (set is)"
  by (induction "is" arbitrary: b v) auto

lemma argmax_from_ge:
  "\<forall>i \<in> insert b (set is). f i \<noteq> FNaN \<Longrightarrow> j \<in> insert b (set is) \<Longrightarrow>
    \<not> flt (f (argmax_from f is b (f b))) (f j)"
proof (induction "is" arbitrary: b j)
  case (Cons i "is")
  show ?case
  proof (cases "flt (f b) (f i)")
    case True
    have "\<not> flt (f (argmax_from f is i (f i))) (f i)" using Cons.IH [of i i] Cons.prems by simp
    then have "\<not> flt (f (argmax_from f is i (f i))) (f b)"
      using True flt_trans by blast
    then show ?thesis using True Cons.IH [of i j] Cons.prems by auto
  next
    case False
    have "\<not> flt (f (argmax_from f is b (f b))) (f b)" using Cons.IH [of b b] Cons.prems by simp
    then have "\<not> flt (f (argmax_from f is b (f b))) (f i)"
      using False Cons.prems(1) not_flt_trans by (metis insertI1)
    then show ?thesis using False Cons.IH [of b j] Cons.prems by auto
  qed
qed simp

lemma argmax_from_first:
  "sorted (b # is) \<Longrightarrow> \<forall>i \<in> insert b (set is). f i \<noteq> FNaN \<Longrightarrow> j \<in> insert b (set is) \<Longrightarrow>
    j < argmax_from f is b (f b) \<Longrightarrow> flt (f j) (f (argmax_from f is b (f b)))"
proof (induction "is" arbitrary: b j)
  case (Cons i "is")
  show ?case
  proof (cases "flt (f b) (f i)")
    case True
    have ge: "\<not> flt (f (argmax_from f is i (f i))) (f i)" using argmax_from_ge [of i "is" f i] Cons.prems by simp
    have "argmax_from f is i (f i) \<in> insert i (set is)" by (rule argmax_from_mem)
    then have "flt (f b) (f (argmax_from f is i (f i)))"
      using flt_not_flt [OF True ge] Cons.prems(2) by auto
    then show ?thesis using True Cons.IH [of i j] Cons.prems by auto
  next
    case False
    have m: "argmax_from f is b (f b) \<in> insert b (set is)" by (rule argmax_from_mem)
    show ?thesis
    proof (cases "j = i \<and> i \<notin> set is")
      case j: True
      then have lt: "b < argmax_from f is b (f b)" using Cons.prems(1,4) False by auto
      then have "flt (f b) (f (argmax_from f is b (f b)))" using Cons.IH [of b b] Cons.prems by auto
      then show ?thesis using False j flt_not_flt [of "f b" "f (argmax_from f is b (f b))"]
          Cons.prems(2) m argmax_from_ge [of b "is" f b]
        by (metis (no_types, lifting) argmax_from.simps(2) flt_not_flt insertI1 insertI2 list.simps(15) not_flt_trans)
    next
      case False2: False
      then show ?thesis using False Cons.IH [of b j] Cons.prems by auto
    qed
  qed
qed simp

definition first_best :: "(nat \<Rightarrow> cfloat) \<Rightarrow> nat \<Rightarrow> nat \<Rightarrow> bool" where
  "first_best f n b \<longleftrightarrow> b < n \<and> (\<forall>j < n. \<not> flt (f b) (f j)) \<and> (\<forall>j < b. flt (f j) (f b))"

lemma argmax_first_best:
  assumes "0 < n" "\<forall>i < n. f i \<noteq> FNaN"
  shows "first_best f n (argmax_from f [1..<n] 0 (f 0))"
proof -
  have s: "insert 0 (set [1..<n]) = {..<n}" using assms(1) by auto
  have "sorted (0 # [1..<n])" by simp
  then show ?thesis
    using argmax_from_mem [of f "[1..<n]" 0 "f 0"] argmax_from_ge [of 0 "[1..<n]" f] argmax_from_first [of 0 "[1..<n]" f] assms(2)
    unfolding first_best_def s by (metis lessThan_iff order.strict_trans)
qed

lemma argmax_less: "0 < n \<Longrightarrow> argmax_from f [Suc 0..<n] 0 v < n"
  using argmax_from_mem [of f "[Suc 0..<n]" 0 v] by auto

lemma argmax_nan: "argmax_from f is 0 FNaN = 0"
  by (induction "is") auto

text \<open>
  The arm the bandit chooses. When no reward is a NaN, epsilon-greedy selection returns
  either the arm given by the second random number (if the first falls below epsilon) or the
  first arm whose reward no other exceeds; the selection by potential returns the first arm with
  the greatest potential. The index is always a valid arm.
\<close>

theorem next_arm_is_best:
  assumes "n = num_arms (mstate s)" and "0 < n" and "int n \<le> MAX_ARMS"
    and "\<forall>i < n. arm_rewards (arms s) i \<noteq> FNaN"
    and "f = exploration_factor s (fconv binary32 (clog (num_total (mstate s))))" and "\<forall>i < n. f i \<noteq> FNaN"
  shows "\<exists>b p. next_arm_max r1 r2 s = Some b \<and> next_arm_potential clog s = Some p \<and>
    (if flt (fdiv binary32 (f32 (int r1)) (f32 (int RAND_MAX))) (ms_epsilon (mstate s)) then b = r2 mod n
     else b < n \<and> (\<forall>j < n. \<not> flt (arm_rewards (arms s) b) (arm_rewards (arms s) j)) \<and>
          (\<forall>j < b. flt (arm_rewards (arms s) j) (arm_rewards (arms s) b))) \<and>
    p < n \<and> (\<forall>j < n. \<not> flt (f p) (f j)) \<and> (\<forall>j < p. flt (f j) (f p))"
proof -
  let ?m = "argmax_from (arm_rewards (arms s)) [1..<n] 0 (arm_rewards (arms s) 0)"
  let ?p = "argmax_from f [1..<n] 0 (f 0)"
  have m: "first_best (arm_rewards (arms s)) n ?m" and p: "first_best f n ?p"
    using argmax_first_best assms(2,4,6) by auto
  have "next_arm_potential clog s = Some ?p" using assms(1,3,5) by (simp add: next_arm_potential_def Let_def)
  moreover have "next_arm_max r1 r2 s =
      Some (if flt (fdiv binary32 (f32 (int r1)) (f32 (int RAND_MAX))) (ms_epsilon (mstate s)) then r2 mod n else ?m)"
    using assms(1-3) by (simp add: next_arm_max_def Let_def)
  ultimately show ?thesis using m p unfolding first_best_def by simp
qed

text \<open>Three arms of which the second has the greatest reward.\<close>

definition demo_tuner :: tuner where
  "demo_tuner = blank_tuner\<lparr>mstate := blank_mstate\<lparr>num_arms := 3, ms_arm := 2, ms_c := f32 0, num_total := f32 1,
       next_arm_func := Some Next_arm_max, update_func := Some Update_increment, norm_freq := 5\<rparr>,
     arms := (arms blank_tuner)\<lparr>arm_rewards := (\<lambda>i. FFin False (if i = 1 then 2 else 1)), arm_nums := (\<lambda>_. f32 1)\<rparr>\<rparr>"

lemma f32_values: "f32 0 = FFin False 0" "f32 1 = FFin False 1" "f32 2 = FFin False 2"
  using f_of_int_small [of 0] f_of_int_small [of 1] f_of_int_small [of 2] by simp_all

lemma fconv32_small: "n < 2 ^ 24 \<Longrightarrow> fconv binary32 (FFin False (of_nat n)) = FFin False (of_nat n)"
  using f_of_int_small [of n] by (simp add: f_of_int_def signed_def)

lemma demo_exploration: "exploration_factor demo_tuner (FFin False 0) i = FFin False (if i = 1 then 2 else 1)"
proof -
  have "fmul binary64 (f32 0) (fsqrt binary64 (fdiv binary32 (FFin False 0) (f32 1))) = FFin False 0"
    unfolding f32_values by code_simp
  moreover have "fconv binary32 (fadd binary64 (FFin False 1) (FFin False 0)) = FFin False 1"
    "fconv binary32 (fadd binary64 (FFin False 2) (FFin False 0)) = FFin False 2" by code_simp+
  ultimately show ?thesis by (simp add: exploration_factor_def demo_tuner_def)
qed

theorem next_arm_is_best_witness:
  "next_arm_max 9 9 demo_tuner = Some 1 \<and> next_arm_potential (\<lambda>_. FFin False 0) demo_tuner = Some 1"
proof -
  let ?g = "\<lambda>i :: nat. FFin False (if i = 1 then 2 else 1)"
  have c: "fconv binary32 (FFin False 0) = FFin False 0" using fconv32_small [of 0] by simp
  have f: "?g = exploration_factor demo_tuner (fconv binary32 ((\<lambda>_. FFin False 0) (num_total (mstate demo_tuner))))"
    unfolding c by (rule ext) (rule demo_exploration [symmetric])
  have eps: "\<not> flt (fdiv binary32 (f32 (int 9)) (f32 (int RAND_MAX))) (ms_epsilon (mstate demo_tuner))"
  proof -
    have "\<not> flt (fdiv binary32 (f32 9) (f32 2147483647)) (f32 0)" by code_simp
    then show ?thesis by (simp add: demo_tuner_def blank_mstate_def RAND_MAX_def)
  qed
  have d: "num_arms (mstate demo_tuner) = 3" "arm_rewards (arms demo_tuner) = (\<lambda>i. FFin False (if i = 1 then 2 else 1))"
    by (simp_all add: demo_tuner_def)
  have n: "3 = num_arms (mstate demo_tuner)" "(0 :: nat) < 3" "int 3 \<le> MAX_ARMS"
    "\<forall>i < 3. arm_rewards (arms demo_tuner) i \<noteq> FNaN" "\<forall>i < (3 :: nat). ?g i \<noteq> FNaN"
    by (simp_all add: d const_simps)
  from next_arm_is_best [OF n(1-4) f n(5), of 9 9] obtain b p
    where b: "next_arm_max 9 9 demo_tuner = Some b" "\<forall>j < (3 :: nat). \<not> flt (?g b) (?g j)"
      and p: "next_arm_potential (\<lambda>_. FFin False 0) demo_tuner = Some p" "\<forall>j < (3 :: nat). \<not> flt (?g p) (?g j)"
    using eps unfolding d by auto
  have "b = 1" using b(2) [rule_format, of 1] by (cases "b = 1") (simp_all add: signed_def)
  moreover have "p = 1" using p(2) [rule_format, of 1] by (cases "p = 1") (simp_all add: signed_def)
  ultimately show ?thesis using b p by simp
qed

text \<open>
  The random selection leaves the table. For every number of arms the program can create
  it divides the random number into one range too many: the greatest random numbers, from
  \<open>n * (RAND_MAX / n)\<close> on, select arm \<open>n\<close>, which does not exist; all others select a valid
  arm.
\<close>

theorem random_arm_out_of_range:
  assumes "n = num_arms (mstate s)" and "0 < n" and "n \<le> 16" and "r1 \<le> RAND_MAX"
  shows "\<exists>a. next_arm_random r1 s = Some a \<and> a \<le> n \<and> (a = n \<longleftrightarrow> n * (RAND_MAX div n) \<le> r1)"
proof -
  let ?q = "RAND_MAX div n"
  have "RAND_MAX div 16 \<le> ?q" using assms(2,3) by (intro div_le_mono2) auto
  then have q: "16 < ?q" by (simp add: RAND_MAX_def)
  have "RAND_MAX mod n < ?q" using mod_less_divisor [OF assms(2), of RAND_MAX] assms(3) q by linarith
  moreover have "RAND_MAX = n * ?q + RAND_MAX mod n" by simp
  ultimately have "r1 < n * ?q + ?q" using assms(4) by linarith
  then have "r1 < (n + 1) * ?q" by (simp add: add_mult_distrib)
  then have "r1 div ?q < n + 1" using q by (simp add: div_less_iff_less_mult)
  moreover have "n \<le> r1 div ?q \<longleftrightarrow> n * ?q \<le> r1" using q by (intro less_eq_div_iff_mult_less_eq) simp
  ultimately show ?thesis using assms(1,2) q by (auto simp: next_arm_random_def Let_def)
qed

theorem random_arm_out_of_range_witness: "next_arm_random 2147483647 demo_tuner = Some 3"
proof -
  have "num_arms (mstate demo_tuner) = 3" by (simp add: demo_tuner_def)
  then show ?thesis
    using random_arm_out_of_range [of 3 demo_tuner 2147483647] by (simp add: RAND_MAX_def)
qed

section \<open>Every call is defined\<close>

text \<open>\<open>tuner_base\<close>: the part of the state that no call changes, and the bounds on the rest.\<close>

definition windows_ok :: "mab_state \<Rightarrow> bool" where
  "windows_ok m \<longleftrightarrow> (dynamic_sd m = SD_ON \<or> dynamic_sd m = SD_STEP \<longrightarrow>
     length (ipc_buffer m) = ipc_window_size m \<and> ipc_index m < ipc_window_size m \<and>
     length (sd_buffer m) = sd_window_size m \<and> sd_index m < sd_window_size m)"

definition tuner_base :: "tuner \<Rightarrow> bool" where
  "tuner_base s \<longleftrightarrow> (let m = mstate s in
     0 < num_arms m \<and> num_arms m \<le> 16 \<and> ms_arm m < num_arms m \<and> 0 < norm_freq m \<and>
     int (num_threads m) \<le> MAX_THREADS \<and> u_core_last s \<le> MAX_ARMS \<and> ms_algorithm m \<noteq> RANDOM \<and>
     next_arm_func m \<in> {Some Next_arm_max, Some Next_arm_potential} \<and>
     update_func m \<in> {Some Update_increment, Some Update_discounted} \<and> windows_ok m)"

definition tuner_ok :: "tuner \<Rightarrow> bool" where
  "tuner_ok s \<longleftrightarrow> tuner_base s \<and> (ms_mode (mstate s) = ROUND_ROBIN \<longrightarrow> rr_counter (mstate s) < num_arms (mstate s))"

text \<open>What every operation keeps of \<open>mstate\<close>.\<close>

definition same_setup :: "mab_state \<Rightarrow> mab_state \<Rightarrow> bool" where
  "same_setup m m' \<longleftrightarrow> num_arms m' = num_arms m \<and> next_arm_func m' = next_arm_func m \<and> update_func m' = update_func m \<and>
     ms_algorithm m' = ms_algorithm m \<and> ms_normalise m' = ms_normalise m \<and> dynamic_sd m' = dynamic_sd m"

lemma same_setup_refl [simp]: "same_setup m m"
  by (simp add: same_setup_def)

lemma same_setup_trans: "same_setup a b \<Longrightarrow> same_setup b c \<Longrightarrow> same_setup a c"
  by (simp add: same_setup_def)

text \<open>A defined step that keeps the base and leaves the mode and the counter of the round alone.\<close>

definition steps_to :: "tuner option \<Rightarrow> tuner \<Rightarrow> bool" where
  "steps_to r s \<longleftrightarrow> (\<exists>t. r = Some t \<and> tuner_base t \<and> same_setup (mstate s) (mstate t) \<and>
     ms_mode (mstate t) = ms_mode (mstate s) \<and> rr_counter (mstate t) = rr_counter (mstate s))"

lemma steps_toI:
  "r = Some t \<Longrightarrow> tuner_base t \<Longrightarrow> same_setup (mstate s) (mstate t) \<Longrightarrow>
   ms_mode (mstate t) = ms_mode (mstate s) \<Longrightarrow> rr_counter (mstate t) = rr_counter (mstate s) \<Longrightarrow> steps_to r s"
  by (auto simp: steps_to_def)

lemma steps_toE:
  assumes "steps_to r s"
  obtains t where "r = Some t" "tuner_base t" "same_setup (mstate s) (mstate t)"
    "ms_mode (mstate t) = ms_mode (mstate s)" "rr_counter (mstate t) = rr_counter (mstate s)"
  using assms by (auto simp: steps_to_def)

lemma steps_to_refl: "tuner_base s \<Longrightarrow> steps_to (Some s) s"
  by (simp add: steps_to_def)

lemmas base_simps = tuner_base_def same_setup_def windows_ok_def Let_def upd_mstate_def upd_arms_def set_num_def
  set_reward_def set_ipc_def

lemma evaluate_arm_steps: "tuner_base s \<Longrightarrow> steps_to (evaluate_arm F s) s"
  by (cases F) (auto simp: steps_to_def evaluate_arm_def update_reward_def get_reward_def base_simps const_simps)

lemma normalise_steps: "tuner_base s \<Longrightarrow> steps_to (normalise_rewards s) s"
  by (auto simp: steps_to_def normalise_rewards_def base_simps const_simps)

lemma ipc_window_steps:
  "tuner_base s \<Longrightarrow> dynamic_sd (mstate s) = SD_ON \<or> dynamic_sd (mstate s) = SD_STEP \<Longrightarrow> steps_to (update_ipc_window v s) s"
  by (auto simp: steps_to_def update_ipc_window_def base_simps)

lemma sd_window_steps:
  "tuner_base s \<Longrightarrow> dynamic_sd (mstate s) = SD_ON \<or> dynamic_sd (mstate s) = SD_STEP \<Longrightarrow> steps_to (update_sd_window v s) s"
  by (auto simp: steps_to_def update_sd_window_def base_simps)

lemma tuner_base_interval [simp]: "tuner_base (s\<lparr>time_intervall := v\<rparr>) = tuner_base s"
  "tuner_base (s\<lparr>gtinfo := g\<rparr>) = tuner_base s"
  by (simp_all add: tuner_base_def)

lemma check_steps:
  assumes "tuner_base s"
  shows "\<exists>b t. check_dynamic_sd s = Some (b, t) \<and> steps_to (Some t) s"
proof (cases "dynamic_sd (mstate s) = SD_ON \<or> dynamic_sd (mstate s) = SD_STEP")
  case True
  obtain t where t: "update_ipc_window (measured_ipc s) s = Some t" "tuner_base t" "same_setup (mstate s) (mstate t)"
      "ms_mode (mstate t) = ms_mode (mstate s)" "rr_counter (mstate t) = rr_counter (mstate s)"
    using ipc_window_steps [OF assms True] by (rule steps_toE)
  then have "dynamic_sd (mstate t) = SD_ON \<or> dynamic_sd (mstate t) = SD_STEP" using True by (simp add: same_setup_def)
  then have "steps_to (if ipc_n (mstate t) = ipc_window_size (mstate t)
      then update_sd_window (fconv binary32 (fsqrt binary64
             (fdiv binary32 (current_ipc_M2 (mstate t)) (f32 (int (ipc_window_size (mstate t))))))) t
      else Some t) t" (is "steps_to ?r t")
    using sd_window_steps [OF t(2)] steps_to_refl [OF t(2)] by simp
  then obtain u where u: "?r = Some u" "steps_to (Some u) t" unfolding steps_to_def by blast
  then have v: "update_and_fetch_sd_mean (measured_ipc s) s = Some (current_sd_mean (mstate u), u)"
    using t(1) by (simp add: update_and_fetch_sd_mean_def Let_def)
  have "steps_to (Some u) s" using u(2) t(3-5) by (auto simp: steps_to_def same_setup_def)
  then show ?thesis using True by (auto simp: check_dynamic_sd_def v Let_def steps_to_def)
qed (use assms in \<open>auto simp: check_dynamic_sd_def steps_to_refl\<close>)

lemma next_arm_valid:
  assumes "tuner_base s" "f \<in> {Some Next_arm_max, Some Next_arm_potential, Some Next_arm_default}"
  shows "\<exists>F a. f = Some F \<and> next_arm clog r1 r2 F s = Some a \<and> a < num_arms (mstate s)"
proof -
  have n: "0 < num_arms (mstate s)" "num_arms (mstate s) \<le> 16" using assms(1) by (auto simp: tuner_base_def Let_def)
  show ?thesis using assms(2) n
    by (auto simp: next_arm_max_def next_arm_potential_def next_arm_default_def Let_def const_simps argmax_less)
qed

lemma update_selections_steps:
  assumes "tuner_base s" "F \<in> {Update_increment, Update_discounted, Update_none}"
  shows "steps_to (update_selections F s) s"
  using assms
  by (auto simp: steps_to_def update_selections_increment_def update_selections_discounted_def discount_nums_def
      update_selections_none_def arm_nums_at_def base_simps const_simps)

lemma set_msrs_steps: "tuner_base s \<Longrightarrow> steps_to (set_msrs a s) s"
  by (auto simp: steps_to_def set_msrs_def base_simps const_simps)

lemma steps_to_bind:
  assumes "steps_to r s" "\<And>t. r = Some t \<Longrightarrow> tuner_base t \<Longrightarrow> same_setup (mstate s) (mstate t) \<Longrightarrow> steps_to (f t) t"
  shows "steps_to (r \<bind> f) s"
proof -
  obtain t where t: "r = Some t" "tuner_base t" "same_setup (mstate s) (mstate t)"
      "ms_mode (mstate t) = ms_mode (mstate s)" "rr_counter (mstate t) = rr_counter (mstate s)"
    using assms(1) by (rule steps_toE)
  obtain u where u: "f t = Some u" "tuner_base u" "same_setup (mstate t) (mstate u)"
      "ms_mode (mstate u) = ms_mode (mstate t)" "rr_counter (mstate u) = rr_counter (mstate t)"
    using assms(2) [OF t(1-3)] by (rule steps_toE)
  show ?thesis using t u same_setup_trans [OF t(3) u(3)] by (simp add: steps_to_def)
qed

lemma setup_arm_steps:
  assumes "tuner_base s" "f \<in> {Some Next_arm_max, Some Next_arm_potential, Some Next_arm_default}"
    and "g \<in> {Some Update_increment, Some Update_discounted, Some Update_none}"
  shows "steps_to (setup_arm clog r1 r2 f g s) s"
proof -
  obtain F a where F: "f = Some F" "next_arm clog r1 r2 F s = Some a" "a < num_arms (mstate s)"
    using next_arm_valid [OF assms(1,2)] by blast
  obtain G where G: "g = Some G" "G \<in> {Update_increment, Update_discounted, Update_none}" using assms(3) by auto
  let ?s = "upd_mstate (\<lambda>m. m\<lparr>ms_arm := a, ms_iterations := ms_iterations m + 1\<rparr>) s"
  have b: "tuner_base ?s" using assms(1) F(3) by (simp add: base_simps)
  have "steps_to (set_msrs (ms_arm (mstate s)) ?s \<bind> update_selections G) ?s"
    using set_msrs_steps [OF b] update_selections_steps G(2) by (intro steps_to_bind) auto
  then show ?thesis using F G by (auto simp: setup_arm_def Let_def steps_to_def upd_mstate_def same_setup_def)
qed

lemma round_robin_ok:
  assumes "tuner_ok s" "ms_mode (mstate s) = ROUND_ROBIN"
  shows "\<exists>t. mab_round_robin clog r1 r2 s = Some t \<and> tuner_ok t \<and> same_setup (mstate s) (mstate t)"
proof -
  have "steps_to (if rr_counter (mstate s) \<noteq> 0 then evaluate_arm Get_reward s else Some s) s"
    using assms evaluate_arm_steps steps_to_refl by (simp add: tuner_ok_def)
  then obtain u where u: "(if rr_counter (mstate s) \<noteq> 0 then evaluate_arm Get_reward s else Some s) = Some u"
      "tuner_base u" "same_setup (mstate s) (mstate u)" "ms_mode (mstate u) = ROUND_ROBIN"
      "rr_counter (mstate u) < num_arms (mstate u)"
    using assms by (auto elim!: steps_toE simp: tuner_ok_def same_setup_def)
  let ?u = "upd_mstate (\<lambda>m. m\<lparr>ms_arm := rr_counter m, ms_iterations := ms_iterations m + 1\<rparr>) u"
  have "tuner_base ?u" using u by (simp add: base_simps)
  from set_msrs_steps [OF this, of "ms_arm (mstate u)"] obtain v where v: "set_msrs (ms_arm (mstate u)) ?u = Some v" "tuner_base v"
      "same_setup (mstate ?u) (mstate v)" "ms_mode (mstate v) = ROUND_ROBIN" "rr_counter (mstate v) = rr_counter (mstate u)"
    using u(4) by (auto elim!: steps_toE simp: upd_mstate_def)
  have a: "arm_nums_at v (ms_arm (mstate v)) \<noteq> None" using v(2) by (simp add: arm_nums_at_def base_simps const_simps)
  have "rr_counter (mstate v) < num_arms (mstate v)" using v(3,5) u(5) by (simp add: same_setup_def upd_mstate_def)
  then show ?thesis
    using u(1,3) v a by (auto simp: mab_round_robin_def setup_arm_def next_arm_rr_def update_selections_rr_def tuner_ok_def
        base_simps const_simps)
qed

lemma setup_chosen_steps:
  "tuner_base s \<Longrightarrow> steps_to (setup_arm clog r1 r2 (next_arm_func (mstate s)) (update_func (mstate s)) s) s"
  by (rule setup_arm_steps) (auto simp: tuner_base_def Let_def)

lemma periodic_due_defined: "tuner_base s \<Longrightarrow> \<exists>b. periodic_due (mstate s) = Some b"
  by (auto simp: periodic_due_def tuner_base_def Let_def)

lemma transition_ok:
  assumes "tuner_base s"
  shows "\<exists>t. mab_transition clog r1 r2 s = Some t \<and> tuner_ok t \<and> same_setup (mstate s) (mstate t) \<and> ms_mode (mstate t) = MAIN_LOOP"
proof -
  have "steps_to (do { s \<leftarrow> evaluate_arm Get_reward s;
          s \<leftarrow> (if ms_normalise (mstate s) = ONCE \<or> ms_normalise (mstate s) = PERIODIC then normalise_rewards s else Some s);
          setup_arm clog r1 r2 (next_arm_func (mstate s)) (update_func (mstate s)) s }) s"
    by (intro steps_to_bind)
      (auto intro: evaluate_arm_steps assms normalise_steps steps_to_refl setup_chosen_steps)
  then obtain t where t: "do { s \<leftarrow> evaluate_arm Get_reward s;
          s \<leftarrow> (if ms_normalise (mstate s) = ONCE \<or> ms_normalise (mstate s) = PERIODIC then normalise_rewards s else Some s);
          setup_arm clog r1 r2 (next_arm_func (mstate s)) (update_func (mstate s)) s } = Some t"
      "tuner_base t" "same_setup (mstate s) (mstate t)" by (auto elim!: steps_toE)
  have "mab_transition clog r1 r2 s = Some (upd_mstate (\<lambda>m. m\<lparr>ms_mode := MAIN_LOOP\<rparr>) t)"
    using t(1) unfolding mab_transition_def by (auto split: bind_splits)
  then show ?thesis using t(2,3) by (simp add: tuner_ok_def base_simps const_simps)
qed

lemma main_loop_steps: "tuner_base s \<Longrightarrow> steps_to (mab_main_loop clog r1 r2 s) s"
  unfolding mab_main_loop_def
  by (intro steps_to_bind) (auto intro: evaluate_arm_steps setup_chosen_steps)

lemma mab_ok:
  assumes "tuner_ok s"
  shows "\<exists>t. mab clog r1 r2 s = Some t \<and> tuner_ok t \<and> same_setup (mstate s) (mstate t)"
proof -
  have b: "tuner_base s" using assms by (simp add: tuner_ok_def)
  obtain c u where c: "check_dynamic_sd s = Some (c, u)" and u: "steps_to (Some u) s" using check_steps [OF b] by blast
  have ok: "tuner_ok u" and ub: "tuner_base u" and su: "same_setup (mstate s) (mstate u)"
    and r: "ms_algorithm (mstate u) \<noteq> RANDOM"
    using u assms by (auto simp: steps_to_def tuner_ok_def same_setup_def tuner_base_def Let_def)
  show ?thesis
  proof (cases c)
    case True
    have "steps_to (setup_arm clog r1 r2 (Some Next_arm_default) (Some Update_none) u) u"
      by (rule setup_arm_steps [OF ub]) auto
    then show ?thesis using c True ok su by (auto simp: mab_def steps_to_def tuner_ok_def same_setup_def)
  next
    case False
    obtain d where d: "periodic_due (mstate u) = Some d" using periodic_due_defined [OF ub] by blast
    have "steps_to (if d then normalise_rewards u else Some u) u" by (simp add: normalise_steps steps_to_refl ub)
    then obtain v where v: "(if d then normalise_rewards u else Some u) = Some v" "tuner_ok v" "same_setup (mstate u) (mstate v)"
      using ok by (auto elim!: steps_toE simp: tuner_ok_def same_setup_def)
    have vb: "tuner_base v" using v(2) by (simp add: tuner_ok_def)
    have "\<exists>t. (if ms_mode (mstate v) = ROUND_ROBIN then mab_round_robin clog r1 r2 v
           else if ms_mode (mstate v) = MAIN_LOOP_TRANSITION then mab_transition clog r1 r2 v
           else mab_main_loop clog r1 r2 v) = Some t \<and> tuner_ok t \<and> same_setup (mstate v) (mstate t)"
      using round_robin_ok [OF v(2), of clog r1 r2] transition_ok [OF vb, of clog r1 r2]
        main_loop_steps [OF vb, of clog r1 r2] by (auto simp: steps_to_def tuner_ok_def)
    then show ?thesis using c False r d v su by (auto simp: mab_def same_setup_def)
  qed
qed

section \<open>Runs\<close>

text \<open>A run: before each call the threads have stored new measurements in \<open>gtinfo\<close>.\<close>

fun mab_run :: "(cfloat \<Rightarrow> cfloat) \<Rightarrow> (nat \<times> nat \<times> thread_state arr) list \<Rightarrow> tuner \<Rightarrow> tuner option" where
  "mab_run clog [] s = Some s"
| "mab_run clog ((r1, r2, g) # ticks) s = do { s \<leftarrow> mab clog r1 r2 (s\<lparr>gtinfo := g\<rparr>); mab_run clog ticks s }"

lemma mab_run_ok: "tuner_ok s \<Longrightarrow> \<exists>t. mab_run clog ticks s = Some t \<and> tuner_ok t \<and> same_setup (mstate s) (mstate t)"
proof (induction ticks arbitrary: s)
  case (Cons p ticks)
  obtain r1 r2 g where p: "p = (r1, r2, g)" by (cases p)
  have "tuner_ok (s\<lparr>gtinfo := g\<rparr>)" using Cons.prems by (simp add: tuner_ok_def)
  then obtain u where u: "mab clog r1 r2 (s\<lparr>gtinfo := g\<rparr>) = Some u" "tuner_ok u" "same_setup (mstate s) (mstate u)"
    using mab_ok [of "s\<lparr>gtinfo := g\<rparr>" clog r1 r2] by auto
  then show ?case using Cons.IH [OF u(2)] p by (auto intro: same_setup_trans)
qed simp

definition configured :: "mab_state \<Rightarrow> mab_state \<Rightarrow> bool" where
  "configured m0 m \<longleftrightarrow> rr_counter m = rr_counter m0 \<and> ms_mode m = ms_mode m0 \<and> num_threads m = num_threads m0 \<and>
     ms_arm m = ms_arm m0 \<and> (0 < norm_freq m0 \<longrightarrow> 0 < norm_freq m) \<and>
     (ms_algorithm m = ms_algorithm m0 \<or> ms_algorithm m \<in> {E_GREEDY, UCB, DUCB, RANDOM})"

lemma configured_refl: "configured m m"
  by (simp add: configured_def)

lemma configured_int:
  "configured m0 m \<Longrightarrow> (\<And>i m. ok i \<Longrightarrow> configured m0 m \<Longrightarrow> configured m0 (store i m)) \<Longrightarrow> configured m0 (json_int json key ok store m)"
  by (simp add: json_int_def split: option.splits cjson_item.splits)

lemma configured_float:
  "configured m0 m \<Longrightarrow> (\<And>x m. configured m0 m \<Longrightarrow> configured m0 (store x m)) \<Longrightarrow> configured m0 (json_float json key ok store m)"
  by (simp add: json_float_def split: option.splits cjson_item.splits)

lemma setup_configured:
  assumes "setup_mab_state_from_json cfg m = Ret m'"
  shows "configured m m'"
proof -
  obtain json where cfg: "cfg = Some json" using assms by (cases cfg) (auto simp: setup_mab_state_from_json_def)
  obtain m1 where m1: "json_algorithm json m = Ret m1"
    using assms by (cases "json_algorithm json m") (auto simp: setup_mab_state_from_json_def cfg)
  obtain m2 where m2: "json_arm_configuration json m1 = Ret m2"
    using assms by (cases "json_arm_configuration json m1") (auto simp: setup_mab_state_from_json_def cfg m1)
  have "configured m m1" using m1
    by (auto simp: json_algorithm_def configured_def map_algorithm_to_enum_def
        split: option.splits cjson_item.splits if_splits)
  then have c2: "configured m m2" using m2
    by (auto simp: json_arm_configuration_def configured_def split: option.splits cjson_item.splits if_splits)
  have m': "m' = json_float json ''sd_mean_threshold'' (\<lambda>d. fle (f64 0) d) (\<lambda>x m. m\<lparr>sd_mean_threshold := x\<rparr>)
     (json_int json ''sd_window_size'' (\<lambda>i. i \<ge> 0) (\<lambda>i m. m\<lparr>sd_window_size := nat i\<rparr>)
     (json_int json ''ipc_window_size'' (\<lambda>i. i \<ge> 0) (\<lambda>i m. m\<lparr>ipc_window_size := nat i\<rparr>)
     (json_int json ''dynamic_sd'' (\<lambda>i. i \<ge> 0) (\<lambda>i m. m\<lparr>dynamic_sd := i\<rparr>)
     (json_int json ''normalisation'' (\<lambda>i. i \<ge> 0) (\<lambda>i m. m\<lparr>ms_normalise := i\<rparr>)
     (json_float json ''c'' (\<lambda>d. flt (f64 0) d) (\<lambda>x m. m\<lparr>ms_c := x\<rparr>)
     (json_float json ''gamma'' (\<lambda>d. fle (f64 0) d \<and> fle d (f64 1)) (\<lambda>x m. m\<lparr>ms_gamma := x\<rparr>)
     (json_float json ''epsilon'' (\<lambda>d. fle (f64 0) d \<and> fle d (f64 1)) (\<lambda>x m. m\<lparr>ms_epsilon := x\<rparr>)
     (json_int json ''norm_freq'' (\<lambda>i. i > 0) (\<lambda>i m. m\<lparr>norm_freq := nat i\<rparr>) m2))))))))"
    using assms by (simp add: setup_mab_state_from_json_def cfg m1 m2 Let_def)
  show ?thesis unfolding m'
    by (intro configured_int configured_float c2) (simp_all add: configured_def)
qed

lemma create_arms_mstate:
  assumes "create_arms s = Ret t"
  shows "mstate t = (mstate s)\<lparr>num_arms := num_arms (mstate t)\<rparr>" "u_core_last t = u_core_last s"
    "0 < num_arms (mstate t)" "num_arms (mstate t) \<le> 16"
  using assms by (auto simp: create_arms_def Let_def split: if_splits)

text \<open>The state that a successful initialisation leaves, when the windows are not empty.\<close>

lemma mab_init_ok:
  assumes "mab_init cfg calloc_ok n s = Ret t" and "int n \<le> MAX_THREADS" "u_core_last s \<le> MAX_ARMS"
    and "ms_mode (mstate s) = ROUND_ROBIN" "ms_algorithm (mstate s) = E_GREEDY" "ms_algorithm (mstate t) \<noteq> RANDOM"
    and "dynamic_sd (mstate t) = SD_ON \<or> dynamic_sd (mstate t) = SD_STEP \<Longrightarrow>
      0 < ipc_window_size (mstate t) \<and> 0 < sd_window_size (mstate t)"
  shows "tuner_ok t \<and> rr_counter (mstate t) = 0 \<and> ms_arm (mstate t) = 0 \<and> ms_mode (mstate t) = ROUND_ROBIN"
proof -
  let ?m = "(mstate s)\<lparr>num_total := f32 0, ms_arm := 0, num_threads := n, rr_counter := 0,
                ms_normalise := ONCE, avg_reward := f32 1, ms_iterations := 0, dynamic_sd := SD_OFF,
                norm_freq := 1000, sd_mean_threshold := f32 0,
                sd_mean_min_threshold := fconv binary32 (flit binary64 (3 / 10))\<rparr>"
  obtain m1 where m1: "setup_mab_state_from_json cfg ?m = Ret m1"
    using assms(1) by (cases "setup_mab_state_from_json cfg ?m") (auto simp: mab_init_def Let_def)
  let ?r = "if dynamic_sd m1 = SD_ON \<or> dynamic_sd m1 = SD_STEP then allocate_buffers calloc_ok m1 else Ret m1"
  obtain m2 where m2: "?r = Ret m2" and t: "create_arms (s\<lparr>mstate := init_mab_strategies m2\<rparr>) = Ret t"
    using assms(1) by (cases ?r) (auto simp: mab_init_def Let_def m1)
  note c = create_arms_mstate [OF t, simplified]
  have "configured ?m m1" using setup_configured [OF m1] .
  then have m: "rr_counter m1 = 0" "ms_mode m1 = ROUND_ROBIN" "num_threads m1 = n" "ms_arm m1 = 0" "0 < norm_freq m1"
      "ms_algorithm m1 \<in> {E_GREEDY, UCB, DUCB, RANDOM}"
    using assms(4,5) by (auto simp: configured_def)
  have m2': "rr_counter m2 = 0" "ms_mode m2 = ROUND_ROBIN" "num_threads m2 = n" "ms_arm m2 = 0" "0 < norm_freq m2"
      "ms_algorithm m2 = ms_algorithm m1" "dynamic_sd m2 = dynamic_sd m1"
      "dynamic_sd m2 = SD_ON \<or> dynamic_sd m2 = SD_STEP \<Longrightarrow> ipc_index m2 = 0 \<and> sd_index m2 = 0 \<and>
        length (ipc_buffer m2) = ipc_window_size m2 \<and> length (sd_buffer m2) = sd_window_size m2"
    using m m2 by (auto simp: allocate_buffers_def split: if_splits)
  let ?i = "init_mab_strategies m2"
  have i: "rr_counter ?i = 0" "ms_mode ?i = ROUND_ROBIN" "num_threads ?i = n" "ms_arm ?i = 0" "0 < norm_freq ?i"
      "ms_algorithm ?i = ms_algorithm m1" "windows_ok ?i \<longleftrightarrow> windows_ok m2"
      "dynamic_sd ?i = dynamic_sd m2" "ipc_window_size ?i = ipc_window_size m2" "sd_window_size ?i = sd_window_size m2"
    using m2' by (auto simp: init_mab_strategies_def windows_ok_def)
  have a: "ms_algorithm m1 \<in> {E_GREEDY, UCB, DUCB}" using assms(6) arg_cong [OF c(1), of ms_algorithm] i(6) m(6) by auto
  then have f: "next_arm_func ?i \<in> {Some Next_arm_max, Some Next_arm_potential}"
      "update_func ?i \<in> {Some Update_increment, Some Update_discounted}"
    using m2'(6) by (auto simp: init_mab_strategies_def const_simps)
  have w: "windows_ok m2" using m2'(8) assms(7) i(8-10) arg_cong [OF c(1), of dynamic_sd]
      arg_cong [OF c(1), of ipc_window_size] arg_cong [OF c(1), of sd_window_size] by (simp add: windows_ok_def)
  have mt: "mstate t = ?i\<lparr>num_arms := num_arms (mstate t)\<rparr>" using c(1) .
  have "windows_ok (mstate t)" using w i(7) by (subst mt) (simp add: windows_ok_def)
  moreover have "rr_counter (mstate t) = 0" "ms_mode (mstate t) = ROUND_ROBIN" "num_threads (mstate t) = n"
      "ms_arm (mstate t) = 0" "0 < norm_freq (mstate t)" "next_arm_func (mstate t) = next_arm_func ?i"
      "update_func (mstate t) = update_func ?i"
    using i by (subst mt, simp)+
  ultimately show ?thesis using assms(2,3,6) c(2-4) f by (simp add: tuner_ok_def tuner_base_def Let_def)
qed

text \<open>
  Claim C21: the bandit never leaves the table of arms. Start from static storage and a configuration
  that initialisation accepts with one of the three learning algorithms, not more threads than
  the thread table and not more cores than the table of arms; if the standard-deviation filter is
  on, both windows must not be empty. Then every sequence of calls, with any random numbers, any
  measurements and any \<open>log\<close>, is defined: no index leaves an array, nothing is divided by zero
  as an integer and no null pointer is called. The arm is always one of those created.
\<close>

theorem bandit_stays_in_table:
  assumes "mab_init cfg calloc_ok n s = Ret t" and "int n \<le> MAX_THREADS" "u_core_last s \<le> MAX_ARMS"
    and "ms_mode (mstate s) = ROUND_ROBIN" "ms_algorithm (mstate s) = E_GREEDY" "ms_algorithm (mstate t) \<noteq> RANDOM"
    and "dynamic_sd (mstate t) = SD_ON \<or> dynamic_sd (mstate t) = SD_STEP \<Longrightarrow>
      0 < ipc_window_size (mstate t) \<and> 0 < sd_window_size (mstate t)"
  shows "\<exists>u. mab_run clog ticks t = Some u \<and> num_arms (mstate u) = num_arms (mstate t) \<and>
    ms_arm (mstate u) < num_arms (mstate u)"
proof -
  have "tuner_ok t" using mab_init_ok [OF assms] by simp
  from mab_run_ok [OF this, of clog ticks] show ?thesis
    by (auto simp: tuner_ok_def tuner_base_def same_setup_def Let_def)
qed

text \<open>The configuration file of the repository, with fewer samples in the windows.\<close>

definition demo_config :: cjson where
  "demo_config = map_of [(''algorithm'', JString (Some ''DUCB'')), (''arm_configuration'', JNumber 1 (f64 1)),
     (''dynamic_sd'', JNumber 1 (f64 1)), (''ipc_window_size'', JNumber 3 (f64 3)), (''sd_window_size'', JNumber 2 (f64 2)),
     (''normalisation'', JNumber 3 (f64 3))]"

lemma demo_init:
  obtains t where "mab_init (Some demo_config) True 4 blank_tuner = Ret t" "ms_algorithm (mstate t) = DUCB"
    "ipc_window_size (mstate t) = 3" "sd_window_size (mstate t) = 2" "num_arms (mstate t) = 4"
  by (auto simp: mab_init_def Let_def setup_mab_state_from_json_def json_algorithm_def demo_config_def
      map_algorithm_to_enum_def json_arm_configuration_def json_int_def json_float_def allocate_buffers_def const_simps
      create_arms_def init_mab_strategies_def)

theorem bandit_stays_in_table_witness:
  "\<exists>t u. mab_init (Some demo_config) True 4 blank_tuner = Ret t \<and>
     mab_run (\<lambda>x. x) (replicate 20 (7, 7, gtinfo blank_tuner)) t = Some u \<and> ms_arm (mstate u) < 4"
proof -
  obtain t where t: "mab_init (Some demo_config) True 4 blank_tuner = Ret t" "ms_algorithm (mstate t) = DUCB"
      "ipc_window_size (mstate t) = 3" "sd_window_size (mstate t) = 2" "num_arms (mstate t) = 4"
    by (rule demo_init)
  have b: "int 4 \<le> MAX_THREADS" "u_core_last blank_tuner \<le> MAX_ARMS" "ms_mode (mstate blank_tuner) = ROUND_ROBIN"
      "ms_algorithm (mstate blank_tuner) = E_GREEDY" "ms_algorithm (mstate t) \<noteq> RANDOM"
    by (simp_all add: blank_tuner_def blank_mstate_def t(2) const_simps)
  have w: "0 < ipc_window_size (mstate t) \<and> 0 < sd_window_size (mstate t)" by (simp add: t)
  obtain u where "mab_run (\<lambda>x. x) (replicate 20 (7, 7, gtinfo blank_tuner)) t = Some u"
      "num_arms (mstate u) = num_arms (mstate t)" "ms_arm (mstate u) < num_arms (mstate u)"
    using bandit_stays_in_table [OF t(1) b w, of "\<lambda>x. x" "replicate 20 (7, 7, gtinfo blank_tuner)"] by blast
  then show ?thesis using t by auto
qed

section \<open>The first round\<close>

text \<open>No sleep mode and no periodic normalisation: every interval is evaluated and what is measured
  is recorded as it is.\<close>

definition plain :: "mab_state \<Rightarrow> bool" where
  "plain m \<longleftrightarrow> dynamic_sd m \<noteq> SD_ON \<and> ms_normalise m \<noteq> PERIODIC"

lemma plain_setup: "same_setup m m' \<Longrightarrow> plain m' = plain m"
  by (simp add: same_setup_def plain_def)

text \<open>Only with \<open>SD_ON\<close> does the deviation filter suspend the bandit; otherwise it touches the
  windows and the interval alone.\<close>

lemma check_keeps_arms: "check_dynamic_sd s = Some (b, t) \<Longrightarrow> arms t = arms s"
  by (auto simp: check_dynamic_sd_def update_and_fetch_sd_mean_def update_ipc_window_def update_sd_window_def
      upd_mstate_def Let_def split: if_splits bind_splits)

lemma setup_arm_effect:
  assumes "setup_arm clog r1 r2 f g s = Some t"
  shows "arm_rewards (arms t) = arm_rewards (arms s) \<and> arm_ipcs (arms t) = arm_ipcs (arms s)"
    "\<exists>F. f = Some F \<and> next_arm clog r1 r2 F s = Some (ms_arm (mstate t))"
proof -
  obtain F a u G where d: "f = Some F" "next_arm clog r1 r2 F s = Some a" "g = Some G"
      "set_msrs (ms_arm (mstate s)) (upd_mstate (\<lambda>m. m\<lparr>ms_arm := a, ms_iterations := ms_iterations m + 1\<rparr>) s) = Some u"
      "update_selections G u = Some t"
    using assms by (auto simp: setup_arm_def Let_def split: bind_splits)
  have u: "arms u = arms s" "ms_arm (mstate u) = a"
    using d(4) by (auto simp: set_msrs_def upd_mstate_def split: if_splits)
  have "arm_rewards (arms t) = arm_rewards (arms u) \<and> arm_ipcs (arms t) = arm_ipcs (arms u) \<and> ms_arm (mstate t) = ms_arm (mstate u)"
    using d(5) by (cases G) (auto simp: update_selections_rr_def update_selections_increment_def discount_nums_def
        update_selections_discounted_def update_selections_none_def base_simps split: bind_splits if_splits)
  then show "arm_rewards (arms t) = arm_rewards (arms s) \<and> arm_ipcs (arms t) = arm_ipcs (arms s)"
    "\<exists>F. f = Some F \<and> next_arm clog r1 r2 F s = Some (ms_arm (mstate t))" using u d by auto
qed

lemma check_awake:
  assumes "tuner_base s" and "dynamic_sd (mstate s) \<noteq> SD_ON"
  shows "\<exists>u. check_dynamic_sd s = Some (False, u) \<and> steps_to (Some u) s \<and> arms u = arms s \<and>
    u_core_last u = u_core_last s \<and> ms_arm (mstate u) = ms_arm (mstate s) \<and> measured_ipc u = measured_ipc s"
proof -
  obtain b u where u: "check_dynamic_sd s = Some (b, u)" "steps_to (Some u) s" using check_steps [OF assms(1)] by blast
  have "\<not> b \<and> u_core_last u = u_core_last s \<and> ms_arm (mstate u) = ms_arm (mstate s) \<and> gtinfo u = gtinfo s"
    using u(1) assms(2)
    by (auto simp: check_dynamic_sd_def update_and_fetch_sd_mean_def update_ipc_window_def update_sd_window_def
        upd_mstate_def Let_def split: if_splits bind_splits)
  then show ?thesis using u check_keeps_arms [OF u(1)] by (auto simp: measured_ipc_def)
qed













section \<open>An interval without cycles\<close>

text \<open>The state in which the bandit is stuck on arm 0.\<close>

definition poisoned :: "tuner \<Rightarrow> bool" where
  "poisoned s \<longleftrightarrow> tuner_ok s \<and> ms_mode (mstate s) = MAIN_LOOP \<and> next_arm_func (mstate s) = Some Next_arm_potential \<and>
     arm_rewards (arms s) 0 = FNaN"

lemma potential_nan: "arm_rewards (arms s) 0 = FNaN \<Longrightarrow> next_arm_potential clog s = Some a \<Longrightarrow> a = 0"
  by (auto simp: next_arm_potential_def Let_def exploration_factor_def argmax_nan split: if_splits)

lemma normalise_nan:
  "normalise_rewards s = Some t \<Longrightarrow> arm_rewards (arms s) 0 = FNaN \<Longrightarrow> arm_rewards (arms t) 0 = FNaN"
  by (auto simp: normalise_rewards_def base_simps split: if_splits)

lemma evaluate_nan:
  assumes "evaluate_arm Update_reward s = Some t"
    and "arm_rewards (arms s) 0 = FNaN \<or> ms_arm (mstate s) = 0 \<and> measured_ipc s = FNaN"
  shows "arm_rewards (arms t) 0 = FNaN"
  using assms by (auto simp: evaluate_arm_def update_reward_def get_reward_def base_simps split: if_splits bind_splits)

lemma main_loop_nan:
  assumes "mab_main_loop clog r1 r2 s = Some t" "tuner_base s" "next_arm_func (mstate s) = Some Next_arm_potential"
    and "arm_rewards (arms s) 0 = FNaN \<or> ms_arm (mstate s) = 0 \<and> measured_ipc s = FNaN"
  shows "arm_rewards (arms t) 0 = FNaN \<and> ms_arm (mstate t) = 0"
proof -
  obtain u where u: "evaluate_arm Update_reward s = Some u"
      "setup_arm clog r1 r2 (next_arm_func (mstate u)) (update_func (mstate u)) u = Some t"
    using assms(1) by (auto simp: mab_main_loop_def split: bind_splits)
  have n: "arm_rewards (arms u) 0 = FNaN" using evaluate_nan [OF u(1) assms(4)] .
  have "next_arm_func (mstate u) = Some Next_arm_potential"
    using evaluate_arm_steps [OF assms(2), of Update_reward] u(1) assms(3) by (auto simp: steps_to_def same_setup_def)
  then show ?thesis using setup_arm_effect [OF u(2)] n potential_nan [OF n] by auto
qed

lemma poisoned_step:
  assumes "poisoned s"
  shows "\<exists>t. mab clog r1 r2 s = Some t \<and> poisoned t \<and> ms_arm (mstate t) = 0"
proof -
  have s: "tuner_ok s" "tuner_base s" "ms_mode (mstate s) = MAIN_LOOP"
      "next_arm_func (mstate s) = Some Next_arm_potential" "arm_rewards (arms s) 0 = FNaN"
    using assms by (auto simp: poisoned_def tuner_ok_def)
  obtain t where t: "mab clog r1 r2 s = Some t" "tuner_ok t" "same_setup (mstate s) (mstate t)"
    using mab_ok [OF s(1)] by blast
  obtain b u where u: "check_dynamic_sd s = Some (b, u)" "steps_to (Some u) s" using check_steps [OF s(2)] by blast
  have un: "arm_rewards (arms u) 0 = FNaN" "next_arm_func (mstate u) = Some Next_arm_potential" "tuner_base u"
      "ms_mode (mstate u) = MAIN_LOOP" "ms_algorithm (mstate u) \<noteq> RANDOM"
    using check_keeps_arms [OF u(1)] u(2) s by (auto simp: steps_to_def same_setup_def tuner_base_def Let_def)
  have "arm_rewards (arms t) 0 = FNaN \<and> ms_arm (mstate t) = 0 \<and> ms_mode (mstate t) = MAIN_LOOP"
  proof (cases b)
    case True
    then have e: "setup_arm clog r1 r2 (Some Next_arm_default) (Some Update_none) u = Some t"
      using t(1) u(1) by (simp add: mab_def)
    have "steps_to (setup_arm clog r1 r2 (Some Next_arm_default) (Some Update_none) u) u"
      by (rule setup_arm_steps [OF un(3)]) auto
    then show ?thesis
      using setup_arm_effect [OF e] un e by (auto simp: next_arm_default_def steps_to_def)
  next
    case False
    obtain d where d: "periodic_due (mstate u) = Some d" using periodic_due_defined [OF un(3)] by blast
    have "steps_to (if d then normalise_rewards u else Some u) u" by (simp add: normalise_steps steps_to_refl un(3))
    then obtain v where v: "(if d then normalise_rewards u else Some u) = Some v" "tuner_base v"
        "same_setup (mstate u) (mstate v)" "ms_mode (mstate v) = ms_mode (mstate u)" by (rule steps_toE)
    have vn: "arm_rewards (arms v) 0 = FNaN" using v(1) un(1) normalise_nan by (cases d) auto
    have f: "next_arm_func (mstate v) = Some Next_arm_potential" using v(3) un(2) by (simp add: same_setup_def)
    have e: "mab_main_loop clog r1 r2 v = Some t"
      using t(1) u(1) False un(4,5) d v(1,4) by (simp add: mab_def const_simps)
    show ?thesis using main_loop_nan [OF e v(2) f] vn main_loop_steps [OF v(2), of clog r1 r2] e v(4) un(4)
      by (auto simp: steps_to_def)
  qed
  then show ?thesis using t s(4) by (auto simp: poisoned_def same_setup_def)
qed

lemma poisoned_gtinfo: "poisoned (s\<lparr>gtinfo := g\<rparr>) = poisoned s"
  by (simp add: poisoned_def tuner_ok_def)

lemma poisoned_run:
  "poisoned s \<Longrightarrow> ms_arm (mstate s) = 0 \<Longrightarrow>
    \<exists>t. mab_run clog ticks s = Some t \<and> poisoned t \<and> ms_arm (mstate t) = 0"
proof (induction ticks arbitrary: s)
  case (Cons p ticks)
  obtain r1 r2 g where p: "p = (r1, r2, g)" by (cases p)
  obtain u where u: "mab clog r1 r2 (s\<lparr>gtinfo := g\<rparr>) = Some u" "poisoned u" "ms_arm (mstate u) = 0"
    using poisoned_step [of "s\<lparr>gtinfo := g\<rparr>" clog r1 r2] Cons.prems(1) poisoned_gtinfo by auto
  then show ?case using Cons.IH [OF u(2,3)] p by simp
qed simp

lemma idle_ipc: "t_instructions_retired (gtinfo s 1) = 0 \<Longrightarrow> t_cpu_cycles (gtinfo s 1) = 0 \<Longrightarrow> measured_ipc s = FNaN"
  by (simp add: measured_ipc_def f_of_int_def fround_def round_mag_def Let_def not_le)

text \<open>
  Claim C24: one idle interval freezes the bandit on arm 0. Let the bandit be in its main loop with
  the selection by potential (UCB or DUCB), with arm 0 running and without the sleep mode of the
  deviation filter (\<open>SD_ON\<close>); the rewards may be normalised never, once or periodically. If the
  second thread reports neither instructions nor cycles for one interval, the reward of arm 0 becomes a
  NaN, and from then on, whatever is measured later, every call selects arm 0 and the reward stays
  a NaN: no other arm is ever tried again. With a single active core the second entry of the
  thread table is never written, so every interval is of this kind. (A NaN reward of another arm
  only keeps that arm from being selected, and the epsilon-greedy selection still draws arms at
  random.)
\<close>

theorem idle_interval_freezes_bandit:
  assumes "tuner_ok s" and "ms_mode (mstate s) = MAIN_LOOP" and "next_arm_func (mstate s) = Some Next_arm_potential"
    and "dynamic_sd (mstate s) \<noteq> SD_ON" and "ms_arm (mstate s) = 0"
    and "t_instructions_retired (g 1) = 0" and "t_cpu_cycles (g 1) = 0"
  shows "\<exists>t. mab_run clog ((r1, r2, g) # later) s = Some t \<and> ms_arm (mstate t) = 0 \<and> arm_rewards (arms t) 0 = FNaN"
proof -
  let ?s = "s\<lparr>gtinfo := g\<rparr>"
  have ok: "tuner_ok ?s" "tuner_base ?s" using assms(1) by (simp_all add: tuner_ok_def)
  have idle: "measured_ipc ?s = FNaN" using assms(6,7) by (intro idle_ipc) simp_all
  obtain t where t: "mab clog r1 r2 ?s = Some t" "tuner_ok t" "same_setup (mstate ?s) (mstate t)"
    using mab_ok [OF ok(1)] by blast
  obtain u where u: "check_dynamic_sd ?s = Some (False, u)" "steps_to (Some u) ?s" "ms_arm (mstate u) = 0" "measured_ipc u = FNaN"
    using check_awake [OF ok(2)] assms(4,5) idle by auto
  have us: "tuner_base u" "ms_mode (mstate u) = MAIN_LOOP" "next_arm_func (mstate u) = Some Next_arm_potential"
      "ms_algorithm (mstate u) \<noteq> RANDOM"
    using u(2) ok(2) assms(2,3) by (auto simp: steps_to_def same_setup_def tuner_base_def Let_def)
  obtain d where d: "periodic_due (mstate u) = Some d" using periodic_due_defined [OF us(1)] by blast
  have "steps_to (if d then normalise_rewards u else Some u) u" by (simp add: normalise_steps steps_to_refl us(1))
  then obtain v where v: "(if d then normalise_rewards u else Some u) = Some v" "tuner_base v"
      "same_setup (mstate u) (mstate v)" "ms_mode (mstate v) = ms_mode (mstate u)" by (rule steps_toE)
  have vn: "ms_arm (mstate v) = 0 \<and> measured_ipc v = FNaN" "next_arm_func (mstate v) = Some Next_arm_potential"
    using v(1,3) u(3,4) us(3) by (auto simp: normalise_rewards_def measured_ipc_def base_simps split: if_splits)
  have m: "mab_main_loop clog r1 r2 v = Some t"
    using t(1) u(1) us(2,4) d v(1,4) by (simp add: mab_def const_simps)
  have "arm_rewards (arms t) 0 = FNaN \<and> ms_arm (mstate t) = 0" using main_loop_nan [OF m v(2) vn(2)] vn(1) by simp
  moreover have "ms_mode (mstate t) = MAIN_LOOP"
    using main_loop_steps [OF v(2), of clog r1 r2] m v(4) us(2) by (auto simp: steps_to_def)
  ultimately have "poisoned t" "ms_arm (mstate t) = 0" using t(2,3) assms(3) by (auto simp: poisoned_def same_setup_def)
  from poisoned_run [OF this, of clog later] show ?thesis using t(1) by (auto simp: poisoned_def)
qed

theorem idle_interval_freezes_bandit_witness:
  "\<exists>t. mab_run (\<lambda>x. x) ((0, 0, \<lambda>i. (gtinfo blank_tuner i)\<lparr>t_instructions_retired := 0, t_cpu_cycles := 0\<rparr>)
          # replicate 9 (0, 0, gtinfo blank_tuner))
       (upd_mstate (\<lambda>m. m\<lparr>ms_mode := MAIN_LOOP, next_arm_func := Some Next_arm_potential, ms_arm := 0\<rparr>) demo_tuner) = Some t \<and>
     ms_arm (mstate t) = 0 \<and> arm_rewards (arms t) 0 = FNaN"
  by (rule idle_interval_freezes_bandit)
    (simp_all add: tuner_ok_def tuner_base_def windows_ok_def plain_def demo_tuner_def blank_tuner_def blank_mstate_def
      upd_mstate_def const_simps Let_def)

end
