(* ===== verification/User_Pmu.thy ===== *)
theory User_Pmu
  imports Msr Ddr_Types
begin

text \<open>
  \<open>pmu_core.c\<close> and \<open>pmu_ddr.c\<close>: the performance counters of the user-space program. The PMU of
  a core is programmed either through its registers (theory \<open>Msr\<close>) or through perf events; the
  memory controllers are found on the PCI bus and their counters are read through \<open>/dev/mem\<close>.

  Parameters: the perf system calls (\<open>perf_os\<close>), the PCI library as the list of devices with
  their configuration registers, and \<open>/dev/mem\<close> (\<open>mem_os\<close>): the descriptor or a negative
  number, the address at which a physical range is mapped, \<open>MAP_FAILED\<close> on failure, and the value
  at an address. Reading through a null pointer or \<open>MAP_FAILED\<close> is undefined. \<open>open_events\<close> and
  \<open>mapped_ranges\<close> record what is open and what is mapped.
\<close>

section \<open>Perf events\<close>

definition PMU_CORE_EVENT_COUNT :: nat where [const_simps]: "PMU_CORE_EVENT_COUNT = 7"
definition MAX_EVENTS :: nat where [const_simps]: "MAX_EVENTS = 8"

record perf_os =
  perf_open :: "nat \<Rightarrow> int"
  perf_enable_ok :: "nat \<Rightarrow> bool"
  perf_read_ok :: "nat \<Rightarrow> bool"
  perf_value :: "nat \<Rightarrow> u64"

record perf_event_attr =
  pe_type :: nat
  pe_disabled :: bool
  pe_config :: u64

definition event_configs :: "u64 list" where
  "event_configs = [0x81d0, 0x02d1, 0x04d1, 0x80d1, 0x00f4, 0x00c0, 0x00c2]"

definition perf_configure_events :: "perf_event_attr arr \<Rightarrow> perf_event_attr arr \<times> nat" where
  "perf_configure_events event_attrs =
     ((\<lambda>i. if i < PMU_CORE_EVENT_COUNT
           then \<lparr>pe_type = 4, pe_disabled = True, pe_config = event_configs ! i\<rparr> else event_attrs i),
      PMU_CORE_EVENT_COUNT)"

text \<open>The cleanup loops of \<open>perf_init\<close>: close the first \<open>n\<close> descriptors.\<close>

fun close_events :: "nat \<Rightarrow> int arr \<Rightarrow> int set \<Rightarrow> int arr \<times> int set" where
  "close_events 0 fds open_events = (fds, open_events)"
| "close_events (Suc j) fds open_events =
     (let (fds, open_events) = close_events j fds open_events
      in if fds j \<noteq> -1 then (fds(j := -1), open_events - {fds j}) else (fds, open_events))"

fun perf_open_from :: "perf_os \<Rightarrow> nat \<Rightarrow> nat \<Rightarrow> int arr \<Rightarrow> int set \<Rightarrow> (int \<times> int arr \<times> int set) option" where
  "perf_open_from os 0 i fds open_events = Some (0, fds, open_events)"
| "perf_open_from os (Suc n) i fds open_events =
     (if i \<ge> MAX_EVENTS then None
      else let fds = fds(i := perf_open os i)
           in if fds i = -1 then let (fds, open_events) = close_events i fds open_events in Some (-1, fds, open_events)
              else let open_events = insert (fds i) open_events
                   in if \<not> perf_enable_ok os i
                      then let (fds, open_events) = close_events (i + 1) fds open_events in Some (-1, fds, open_events)
                      else perf_open_from os n (i + 1) fds open_events)"

definition perf_init :: "perf_os \<Rightarrow> nat \<Rightarrow> int \<Rightarrow> int arr \<Rightarrow> int set \<Rightarrow> (int \<times> int arr \<times> int set) option" where
  "perf_init os num_events core_id fds open_events =
     (if core_id < 0 then Some (-1, fds, open_events) else perf_open_from os num_events 0 fds open_events)"

fun perf_read_from :: "perf_os \<Rightarrow> nat \<Rightarrow> nat \<Rightarrow> u64 arr \<Rightarrow> (int \<times> u64 arr) option" where
  "perf_read_from os 0 i counts = Some (0, counts)"
| "perf_read_from os (Suc n) i counts =
     (if i \<ge> MAX_EVENTS then None
      else if \<not> perf_read_ok os i then Some (-1, counts)
      else perf_read_from os n (i + 1) (counts(i := perf_value os i)))"

definition perf_read :: "perf_os \<Rightarrow> nat \<Rightarrow> u64 arr \<Rightarrow> (int \<times> u64 arr) option" where
  "perf_read os num_events counts = perf_read_from os num_events 0 counts"

definition perf_deinit :: "nat \<Rightarrow> int arr \<Rightarrow> int set \<Rightarrow> int set option" where
  "perf_deinit num_events fds open_events =
     (if num_events > MAX_EVENTS then None
      else Some (fold (\<lambda>i l. if fds i \<noteq> -1 then l - {fds i} else l) [0..<num_events] open_events))"

section \<open>Raw counters\<close>

definition pmu_core_clear :: "msr_os \<Rightarrow> int \<Rightarrow> msr_sys \<Rightarrow> (int \<times> msr_sys) outcome" where
  "pmu_core_clear os msr_file s =
     obind (msr_corepmu_setup os msr_file PMU_COUNTERS (\<lambda>_. 0) s) (\<lambda>(_, s).
       Ret (pwrite_all os msr_file (map (\<lambda>i. (PMU_PMC0 + i, 0)) [0..<nat PMU_COUNTERS]) s))"

definition core_events :: "u64 arr" where
  "core_events = (\<lambda>i. ([0x4381d0, 0x4302d1, 0x4304d1, 0x4380d1, 0x4300f4, 0, 0] :: u64 list) ! i)"

definition pmu_core_config :: "msr_os \<Rightarrow> int \<Rightarrow> msr_sys \<Rightarrow> (int \<times> msr_sys) outcome" where
  "pmu_core_config os msr_file s =
     obind (pmu_core_clear os msr_file s) (\<lambda>(_, s).
     obind (msr_corepmu_setup os msr_file (int PMU_CORE_EVENT_COUNT) core_events s) (\<lambda>(_, s). Ret (0, s)))"

definition pmu_core_read ::
    "msr_os \<Rightarrow> int \<Rightarrow> int \<Rightarrow> u64 arr \<Rightarrow> u64 \<Rightarrow> u64 \<Rightarrow> msr_sys \<Rightarrow> (int \<times> u64 arr \<times> u64 \<times> u64) outcome" where
  "pmu_core_read os tunealg msr_file res inst_retired cpu_cycles s =
     obind (msr_corepmu_read os tunealg msr_file (int PMU_CORE_EVENT_COUNT) res inst_retired cpu_cycles s)
       (\<lambda>(_, res, inst, cycles). Ret (0, res, inst, cycles))"

section \<open>Memory controllers\<close>

definition MAP_FAILED :: u64 where [const_simps]: "MAP_FAILED = - 1"

record mem_os =
  mem_open :: int
  mem_map :: "u64 \<Rightarrow> u64"
  mem_read :: "u64 \<Rightarrow> u64"

record pci_dev =
  vendor_id :: u16
  device_id :: u16
  pci_read_long :: "nat \<Rightarrow> u32"

record upmu =
  u_interface_type :: int
  u_num_controllers :: int
  u_ddr :: ddr_s
  mapped_ranges :: "u64 list"

text \<open>The two reading functions, with the offset of the counter; \<open>rd\<close> tells which of the two
  tables of last values is used.\<close>

definition u_last :: "bool \<Rightarrow> ddr_s \<Rightarrow> u64 arr" where
  "u_last rd d = (if rd then rd_last_update d else wr_last_update d)"

definition u_set_last :: "bool \<Rightarrow> nat \<Rightarrow> u64 \<Rightarrow> ddr_s \<Rightarrow> ddr_s" where
  "u_set_last rd i v d = (if rd then d\<lparr>rd_last_update := (rd_last_update d)(i := v)\<rparr>
     else d\<lparr>wr_last_update := (wr_last_update d)(i := v)\<rparr>)"

definition u_scan :: "mem_os \<Rightarrow> bool \<Rightarrow> u64 \<Rightarrow> upmu \<Rightarrow> (upmu \<times> u64) option" where
  "u_scan os rd off s =
     for_range 0 (u_num_controllers s)
       (\<lambda>i (s, total).
          do { p \<leftarrow> aget MAX_NUM_DDR_CONTROLLERS (ddr_mmap (u_ddr s)) i;
               old \<leftarrow> aget MAX_NUM_DDR_CONTROLLERS (u_last rd (u_ddr s)) i;
               if p = 0 \<or> p = MAP_FAILED then None
               else Some (s\<lparr>u_ddr := u_set_last rd (nat i) (mem_read os (p + off)) (u_ddr s)\<rparr>,
                          total + (mem_read os (p + off) - old)) })
       (s, 0)"

definition pmu_ddr_client :: "mem_os \<Rightarrow> int \<Rightarrow> upmu \<Rightarrow> (u64 \<times> upmu) option" where
  "pmu_ddr_client os type s =
     do { (s, total) \<leftarrow> (if type = DDR_PMU_RD then u_scan os True CLIENT_DDR_RD_BW s
                        else if type = DDR_PMU_WR then u_scan os False CLIENT_DDR_WR_BW s
                        else Some (s, 0));
          Some (total * 64, s) }"

definition pmu_ddr_grr_srf :: "mem_os \<Rightarrow> int \<Rightarrow> upmu \<Rightarrow> (u64 \<times> upmu) option" where
  "pmu_ddr_grr_srf os type s =
     do { (s, total) \<leftarrow> (if type = DDR_PMU_RD then u_scan os True GRR_SRF_FREE_RUN_CNTR_READ s
                        else if type = DDR_PMU_WR then u_scan os False GRR_SRF_FREE_RUN_CNTR_WRITE s
                        else Some (s, 0));
          Some (total * 64, s) }"

definition pmu_ddr :: "mem_os \<Rightarrow> int \<Rightarrow> upmu \<Rightarrow> (u64 \<times> upmu) option" where
  "pmu_ddr os type s =
     (if u_interface_type s = DDR_CLIENT then pmu_ddr_client os type s
      else if u_interface_type s = DDR_GRR_SRF then pmu_ddr_grr_srf os type s
      else Some (- 1, s))"

text \<open>Mapping the controllers one after the other: an index that fails is stored as
  \<open>MAP_FAILED\<close>, and nothing is undone.\<close>

fun u_map_all :: "mem_os \<Rightarrow> (nat \<times> u64) list \<Rightarrow> upmu \<Rightarrow> (bool \<times> upmu) option" where
  "u_map_all os [] s = Some (True, s)"
| "u_map_all os ((i, addr) # l) s =
     (if int i \<ge> MAX_NUM_DDR_CONTROLLERS then None
      else let p = mem_map os addr; s = s\<lparr>u_ddr := (u_ddr s)\<lparr>ddr_mmap := (ddr_mmap (u_ddr s))(i := p)\<rparr>\<rparr>
           in if p = MAP_FAILED then Some (False, s)
              else u_map_all os l (s\<lparr>mapped_ranges := p # mapped_ranges s\<rparr>))"

definition u_init_with :: "mem_os \<Rightarrow> (nat \<times> u64) list \<Rightarrow> upmu \<Rightarrow> (int \<times> upmu) option" where
  "u_init_with os l s =
     (if mem_open os < 0 then Some (-1, s)
      else do { (ok, s) \<leftarrow> u_map_all os l (s\<lparr>u_ddr := (u_ddr s)\<lparr>mem_file := mem_open os\<rparr>\<rparr>);
                if \<not> ok then Some (-1, s)
                else do { (_, s) \<leftarrow> pmu_ddr os DDR_PMU_RD s;
                          (_, s) \<leftarrow> pmu_ddr os DDR_PMU_WR s;
                          Some (0, s) } })"

definition pmu_ddr_init_grr_srf :: "mem_os \<Rightarrow> u64 \<Rightarrow> upmu \<Rightarrow> (int \<times> upmu) option" where
  "pmu_ddr_init_grr_srf os ddr_bar s =
     u_init_with os (map (\<lambda>i. (i, ddr_bar + GRR_SRF_MC_ADDRESS (int i))) [0..<nat (u_num_controllers s)]) s"

definition pmu_ddr_init_client :: "mem_os \<Rightarrow> u64 \<Rightarrow> upmu \<Rightarrow> (int \<times> upmu) option" where
  "pmu_ddr_init_client os ddr_bar s =
     u_init_with os [(0, ddr_bar + CLIENT_DDR0_OFFSET), (1, ddr_bar + CLIENT_DDR1_OFFSET)] s"

text \<open>One step of the search: the base address, the interface type and the number of controllers
  found so far.\<close>

definition pci_step :: "pci_dev \<Rightarrow> u64 \<times> int \<times> int \<Rightarrow> u64 \<times> int \<times> int" where
  "pci_step dev = (\<lambda>(ddr_bar, type, n).
     if vendor_id dev \<noteq> 0x8086 then (ddr_bar, type, n)
     else if device_id dev = 0xa700 \<or> device_id dev = 0x7d05
     then (ucast (pci_read_long dev 0x48) AND 0xfffffff0, DDR_CLIENT, n + 1)
     else if device_id dev = 0x3251
     then (push_bit 23 (ucast (pci_read_long dev 0xD0) AND 0x1FFFFFF) OR push_bit 12 (ucast (pci_read_long dev 0xD4) AND 0x7FF),
           DDR_GRR_SRF, n)
     else if device_id dev = 0x324a then (ddr_bar, type, n + 1)
     else (ddr_bar, type, n))"

definition pmu_ddr_init :: "mem_os \<Rightarrow> pci_dev list \<Rightarrow> bool \<Rightarrow> upmu \<Rightarrow> (int \<times> upmu) option" where
  "pmu_ddr_init os devs kernel_mode s =
     (case fold pci_step devs (0, u_interface_type s, u_num_controllers s) of (ddr_bar, type, n) \<Rightarrow>
      let s = s\<lparr>u_interface_type := type, u_num_controllers := n,
                u_ddr := (u_ddr s)\<lparr>ddr_interface_type := type, bar_address := ddr_bar, ddr_num_controllers := n\<rparr>\<rparr>
      in if kernel_mode then Some (type, s)
         else do { (ret, s) \<leftarrow> (if type = DDR_CLIENT then pmu_ddr_init_client os ddr_bar s
                              else if type = DDR_GRR_SRF then pmu_ddr_init_grr_srf os ddr_bar s
                              else Some (0, s));
                   let s = (if ret < 0 then s\<lparr>u_interface_type := DDR_NONE\<rparr> else s);
                   Some (u_interface_type s, s) })"


section \<open>Opening and closing perf events\<close>

lemma close_events_eq:
  "close_events n fds l = ((\<lambda>j. if j < n then -1 else fds j), l - fds ` {j. j < n \<and> fds j \<noteq> -1})"
  by (induction n) (auto simp: Let_def less_Suc_eq fun_eq_iff)

lemma opened_image: "\<forall>j < k. fs j = p j \<and> p j \<noteq> -1 \<Longrightarrow> fs ` {j. j < k \<and> fs j \<noteq> (-1 :: int)} = p ` {..<k}"
  by (rule image_cong) auto

lemma perf_open_success:
  assumes "\<forall>j \<in> {i..<i + n}. perf_open os j \<noteq> -1 \<and> perf_enable_ok os j" "\<forall>j < i. fds j = perf_open os j"
    and "i + n \<le> MAX_EVENTS"
  shows "\<exists>fds'. perf_open_from os n i fds l = Some (0, fds', l \<union> perf_open os ` {i..<i + n}) \<and> (\<forall>j < i + n. fds' j = perf_open os j)"
  using assms
proof (induction n arbitrary: i fds l)
  case (Suc n)
  define fs where "fs = fds(i := perf_open os i)"
  have fs: "fs i = perf_open os i" "\<forall>j < Suc i. fs j = perf_open os j" using Suc.prems(2) by (auto simp: fs_def less_Suc_eq)
  then obtain f where f: "perf_open_from os n (Suc i) fs (insert (perf_open os i) l) =
      Some (0, f, insert (perf_open os i) l \<union> perf_open os ` {Suc i..<Suc i + n})" "\<forall>j < Suc i + n. f j = perf_open os j"
    using Suc.IH [of "Suc i" fs "insert (perf_open os i) l"] Suc.prems(1,3) by auto
  have "{i..<i + Suc n} = insert i {Suc i..<Suc i + n}" by auto
  then show ?case using f fs(1) Suc.prems(1,3) by (simp add: fs_def [symmetric] Let_def)
qed auto

lemma perf_open_failure:
  assumes "\<exists>j \<in> {i..<i + n}. perf_open os j = -1 \<or> \<not> perf_enable_ok os j" "\<forall>j < i. fds j = perf_open os j \<and> perf_open os j \<noteq> -1"
    and "i + n \<le> MAX_EVENTS" "l = rest \<union> perf_open os ` {..<i}" "rest \<inter> range (perf_open os) = {}"
  shows "\<exists>fds'. perf_open_from os n i fds l = Some (-1, fds', rest)"
  using assms
proof (induction n arbitrary: i fds l)
  case (Suc n)
  define fs where "fs = fds(i := perf_open os i)"
  have fs: "fs i = perf_open os i" "\<forall>j < i. fs j = perf_open os j \<and> perf_open os j \<noteq> -1"
    using Suc.prems(2) by (auto simp: fs_def)
  have i: "\<not> MAX_EVENTS \<le> i" using Suc.prems(3) by simp
  have l: "insert (perf_open os i) l = rest \<union> perf_open os ` {..<Suc i}" using Suc.prems(4) by (auto simp: less_Suc_eq)
  show ?case
  proof (cases "perf_open os i = -1")
    case True
    have "l - fs ` {j. j < i \<and> fs j \<noteq> -1} = rest" unfolding opened_image [OF fs(2)] using Suc.prems(4,5) by auto
    then show ?thesis using True i fs(1) unfolding perf_open_from.simps fs_def [symmetric] Let_def by (simp add: close_events_eq)
  next
    case False
    then have fs': "\<forall>j < Suc i. fs j = perf_open os j \<and> perf_open os j \<noteq> -1" using fs by (auto simp: less_Suc_eq)
    show ?thesis
    proof (cases "perf_enable_ok os i")
      case e: False
      have "insert (perf_open os i) l - fs ` {j. j < Suc i \<and> fs j \<noteq> -1} = rest"
        unfolding opened_image [OF fs'] l using Suc.prems(5) by auto
      then show ?thesis using False e i fs(1) by (simp add: fs_def [symmetric] close_events_eq Let_def)
    next
      case True
      obtain j where "j \<in> {i..<i + Suc n}" "perf_open os j = -1 \<or> \<not> perf_enable_ok os j" using Suc.prems(1) by blast
      then have "\<exists>j \<in> {Suc i..<Suc i + n}. perf_open os j = -1 \<or> \<not> perf_enable_ok os j"
        using False True by (intro bexI [of _ j]) (auto simp: le_less Suc_le_eq)
      then obtain f where "perf_open_from os n (Suc i) fs (insert (perf_open os i) l) = Some (-1, f, rest)"
        using Suc.IH [of "Suc i" fs "insert (perf_open os i) l"] Suc.prems(3,5) fs' l by auto
      then show ?thesis using False True i fs(1) by (simp add: fs_def [symmetric] Let_def)
    qed
  qed
qed simp

lemma fold_close: "fold (\<lambda>i l. if fds i \<noteq> -1 then l - {fds i} else l) [0..<n] l = l - fds ` {j. j < n \<and> fds j \<noteq> (-1 :: int)}"
  by (induction n) (auto simp: less_Suc_eq)

text \<open>
  Claim C25: perf events are opened all or not at all. With fresh descriptors for at most eight
  events, \<open>perf_init\<close> succeeds exactly when every event can be opened and enabled; then
  \<open>perf_deinit\<close> closes exactly what was opened. When any event fails, nothing that \<open>perf_init\<close>
  opened stays open.
\<close>

theorem perf_init_all_or_nothing:
  assumes "0 \<le> core_id" and "n \<le> MAX_EVENTS" and "l \<inter> range (perf_open os) = {}"
  shows "\<exists>fds'. if \<forall>j < n. perf_open os j \<noteq> -1 \<and> perf_enable_ok os j
    then perf_init os n core_id fds l = Some (0, fds', l \<union> perf_open os ` {..<n}) \<and>
         perf_deinit n fds' (l \<union> perf_open os ` {..<n}) = Some l
    else perf_init os n core_id fds l = Some (-1, fds', l)"
proof (cases "\<forall>j < n. perf_open os j \<noteq> -1 \<and> perf_enable_ok os j")
  case True
  then obtain f where f: "perf_open_from os n 0 fds l = Some (0, f, l \<union> perf_open os ` {..<n})" "\<forall>j < n. f j = perf_open os j"
    using perf_open_success [of 0 n os fds l] assms(2) by (auto simp: atLeast0LessThan)
  have "f ` {j. j < n \<and> f j \<noteq> -1} = perf_open os ` {..<n}" using f(2) True by (auto simp: image_iff)
  then have "perf_deinit n f (l \<union> perf_open os ` {..<n}) = Some l"
    using assms(2,3) by (auto simp: perf_deinit_def fold_close)
  then show ?thesis using f(1) assms(1) True by (auto simp: perf_init_def)
next
  case False
  then obtain f where "perf_open_from os n 0 fds l = Some (-1, f, l)"
  proof -
    have "\<exists>j \<in> {0..<0 + n}. perf_open os j = -1 \<or> \<not> perf_enable_ok os j" using False by force
    then show ?thesis using perf_open_failure [of 0 n os fds l l] assms that by auto
  qed
  then show ?thesis unfolding if_not_P [OF False] using assms(1) by (auto simp: perf_init_def)
qed

theorem perf_init_all_or_nothing_witness:
  "\<exists>fds'. perf_init \<lparr>perf_open = (\<lambda>i. int i + 9), perf_enable_ok = (\<lambda>i. i \<noteq> 6), perf_read_ok = (\<lambda>_. True),
      perf_value = (\<lambda>_. 0)\<rparr> 7 3 (\<lambda>_. 0) {0, 1, 2} = Some (-1, fds', {0, 1, 2})"
proof -
  let ?os = "\<lparr>perf_open = (\<lambda>i. int i + 9), perf_enable_ok = (\<lambda>i. i \<noteq> 6), perf_read_ok = (\<lambda>_. True),
      perf_value = (\<lambda>_. 0)\<rparr>"
  have f: "\<not> (\<forall>j < 7. perf_open ?os j \<noteq> -1 \<and> perf_enable_ok ?os j)" by auto
  have r: "{0, 1, 2} \<inter> range (perf_open ?os) = {}" by auto
  show ?thesis
    using perf_init_all_or_nothing [of 3 7 "{0, 1, 2}" ?os "\<lambda>_. 0", OF _ _ r] unfolding if_not_P [OF f] by (simp add: const_simps)
qed

section \<open>A system without known controllers\<close>

definition known_device :: "pci_dev \<Rightarrow> bool" where
  "known_device dev \<longleftrightarrow> vendor_id dev = 0x8086 \<and> device_id dev \<in> {0xa700, 0x7d05, 0x3251}"

lemma no_known_device: "\<forall>dev \<in> set devs. \<not> known_device dev \<Longrightarrow> fst (snd (fold pci_step devs (b, t, n))) = t"
  by (induction devs arbitrary: b t n) (auto simp: known_device_def pci_step_def)

definition boot_upmu :: upmu where
  "boot_upmu = \<lparr>u_interface_type = 0, u_num_controllers = 0, u_ddr = zero_ddr, mapped_ranges = []\<rparr>"

text \<open>
  A missing memory controller is not reported. Static storage starts the interface type
  at 0, not at \<open>DDR_NONE\<close>, so when the PCI bus holds none of the known controllers
  \<open>pmu_ddr_init\<close> returns 0: the caller, which compares with \<open>DDR_NONE\<close>, does not fall back to RDT
  monitoring, and every later reading returns the error value \<open>2^64 - 1\<close> as a bandwidth.
\<close>

theorem no_controller_not_reported:
  assumes "\<forall>dev \<in> set devs. \<not> known_device dev"
  shows "\<exists>s. pmu_ddr_init os devs kernel_mode boot_upmu = Some (0, s) \<and> 0 \<noteq> DDR_NONE \<and>
    (\<forall>type. pmu_ddr os type s = Some (- 1, s))"
proof -
  obtain b n where f: "fold pci_step devs (0, 0, 0) = (b, 0, n)"
    using no_known_device [OF assms, of 0 0 0] by (metis prod.collapse)
  then show ?thesis by (cases kernel_mode) (simp_all add: pmu_ddr_init_def boot_upmu_def pmu_ddr_def Let_def const_simps)
qed

theorem no_controller_not_reported_witness:
  "\<exists>s. pmu_ddr_init \<lparr>mem_open = 3, mem_map = id, mem_read = id\<rparr>
      [\<lparr>vendor_id = 0x8086, device_id = 0x1234, pci_read_long = (\<lambda>_. 0)\<rparr>] False boot_upmu = Some (0, s)"
  using no_controller_not_reported [of "[\<lparr>vendor_id = 0x8086, device_id = 0x1234, pci_read_long = (\<lambda>_. 0)\<rparr>]"
      "\<lparr>mem_open = 3, mem_map = id, mem_read = id\<rparr>" False]
  by (auto simp: known_device_def)

end
