(* ===== verification/User_Primitive.thy ===== *)
theory User_Primitive
  imports User_Mab User_Pmu Rdt_Mbm
begin

text \<open>
  \<open>tuners/primitive.c\<close>: the heuristic tuner of the user-space program. From the memory bandwidth
  since the last call it computes the share of the target bandwidth in use, and from that share how
  far the queue thresholds (algorithm 0) or the prefetch distances (algorithm 1) of every core move.

  \<open>prim\<close> adds to the tuner state the counters it reads, the static variable \<open>time_old\<close> and
  the options \<open>aggr\<close>, \<open>ddr_bw_target\<close> and \<open>rdt_enabled\<close>. \<open>penv\<close> holds the environment of one
  call: the memory the controllers are mapped to, the MSR device and what the hardware does to
  the RDT counters during the two readings, and the clock in milliseconds. The hit rates of the cores
  are computed for the log only and are not modelled, except for the arrays they are kept in: with
  algorithm 1 the log line reads sixteen entries of an array with one entry per active core.
\<close>

record prim = tuner +
  p_pmu :: upmu
  p_rdt :: rdt_state
  p_rdt_enabled :: bool
  p_time_old :: u64
  p_aggr :: cfloat
  p_ddr_bw_target :: int

record penv =
  pe_mem :: mem_os
  pe_msr :: msr_os
  pe_hw1 :: "nat \<Rightarrow> nat \<Rightarrow> msr_sys \<Rightarrow> msr_sys"
  pe_hw2 :: "nat \<Rightarrow> nat \<Rightarrow> msr_sys \<Rightarrow> msr_sys"
  pe_time_ms :: u64

definition ACTIVE_THREADS :: "'a tuner_scheme \<Rightarrow> int" where
  "ACTIVE_THREADS s = u_core_last s - u_core_first s + 1"

definition of_option :: "'a option \<Rightarrow> 'a outcome" where
  "of_option x = (case x of None \<Rightarrow> Undef | Some v \<Rightarrow> Ret v)"

definition grab_bandwidth :: "penv \<Rightarrow> prim \<Rightarrow> (u64 \<times> u64 \<times> prim) outcome" where
  "grab_bandwidth e s =
     (if \<not> p_rdt_enabled s
      then obind (of_option (pmu_ddr (pe_mem e) DDR_PMU_RD (p_pmu s))) (\<lambda>(rd, p).
           obind (of_option (pmu_ddr (pe_mem e) DDR_PMU_WR p)) (\<lambda>(wr, p). Ret (rd, wr, s\<lparr>p_pmu := p\<rparr>)))
      else obind (rdt_mbm_bw_get (pe_msr e) (pe_hw1 e) (p_rdt s)) (\<lambda>(rd, r).
           obind (rdt_mbm_bw_get (pe_msr e) (pe_hw2 e) r) (\<lambda>(wr, r). Ret (rd, wr, s\<lparr>p_rdt := r\<rparr>))))"

text \<open>The share of the target bandwidth used since the last call.\<close>

definition bw_percent :: "u64 \<Rightarrow> u64 \<Rightarrow> int \<Rightarrow> cfloat" where
  "bw_percent bw delta_ms target =
     (let time_delta = fconv binary32 (fdiv binary64 (f_of_int binary64 (uint delta_ms)) (f_of_int binary64 1000));
          percent = fdiv binary32 (fdiv binary32 (f32 (uint bw)) (f32 (1024 * 1024))) (f32 target)
      in fdiv binary32 percent time_delta)"

section \<open>The two ladders\<close>

definition xq_factor :: "cfloat \<Rightarrow> int option" where
  "xq_factor p =
     (if flt p (flit binary64 (10 / 100)) then None
      else if flt p (flit binary64 (20 / 100)) then Some (-8)
      else if flt p (flit binary64 (30 / 100)) then Some (-4)
      else if flt p (flit binary64 (40 / 100)) then Some (-2)
      else if flt p (flit binary64 (50 / 100)) then Some (-1)
      else if flt p (flit binary64 (60 / 100)) then Some (-1)
      else if flt p (flit binary64 (70 / 100)) then Some (-1)
      else if flt p (flit binary64 (80 / 100)) then Some (-1)
      else if flt p (flit binary64 (90 / 100)) then Some 1
      else if flt p (flit binary64 (93 / 100)) then Some 2
      else if flt p (flit binary64 (96 / 100)) then Some 4
      else Some 8)"

definition maxdist_factor :: "cfloat \<Rightarrow> int option" where
  "maxdist_factor p =
     (if flt p (flit binary64 (10 / 100)) then None
      else if flt p (flit binary64 (20 / 100)) then Some 8
      else if flt p (flit binary64 (30 / 100)) then Some 4
      else if flt p (flit binary64 (40 / 100)) then Some 2
      else if flt p (flit binary64 (50 / 100)) then Some 1
      else if flt p (flit binary64 (60 / 100)) then Some 1
      else if flt p (flit binary64 (70 / 100)) then Some 1
      else if flt p (flit binary64 (80 / 100)) then Some 1
      else if flt p (flit binary64 (90 / 100)) then Some (-1)
      else if flt p (flit binary64 (93 / 100)) then Some (-2)
      else if flt p (flit binary64 (96 / 100)) then Some (-4)
      else Some (-8))"

text \<open>Adding the scaled factor: \<open>lround\<close> gives a \<open>long\<close>, the sum is converted back to \<open>int\<close>.\<close>

definition moved :: "cfloat \<Rightarrow> int option \<Rightarrow> int \<Rightarrow> int option" where
  "moved aggr factor v =
     (case factor of
        None \<Rightarrow> Some v
      | Some k \<Rightarrow> do { d \<leftarrow> flround (fmul binary32 (f32 k) aggr);
                      if - (2 ^ 63) \<le> v + d \<and> v + d < 2 ^ 63 then Some (int32 (v + d)) else None })"

definition clamped :: "int \<Rightarrow> int \<Rightarrow> int" where
  "clamped hi v = (let v = (if v \<le> 0 then 1 else v) in if v > hi then hi else v)"

text \<open>One setting of one core: read, move, clamp, and store it if it changed.\<close>

definition retune ::
    "(msr_u arr \<Rightarrow> int) \<Rightarrow> (msr_u arr \<Rightarrow> int \<Rightarrow> msr_u arr) \<Rightarrow> int \<Rightarrow> cfloat \<Rightarrow> int option \<Rightarrow> thread_state \<Rightarrow> thread_state option" where
  "retune getter setter hi aggr factor t =
     do { v \<leftarrow> moved aggr factor (getter (t_msr_value t));
          let v = clamped hi v;
          Some (if getter (t_msr_value t) \<noteq> v
                then t\<lparr>t_msr_value := setter (t_msr_value t) v, t_msr_dirty := True\<rparr> else t) }"

definition alg0_core :: "cfloat \<Rightarrow> cfloat \<Rightarrow> thread_state \<Rightarrow> thread_state option" where
  "alg0_core aggr p t =
     do { t \<leftarrow> retune msr_get_l2xq msr_set_l2xq L2XQ_MAX aggr (xq_factor p) t;
          retune msr_get_l3xq msr_set_l3xq L3XQ_MAX aggr (xq_factor p) t }"

definition alg1_core :: "cfloat \<Rightarrow> cfloat \<Rightarrow> thread_state \<Rightarrow> thread_state option" where
  "alg1_core aggr p t =
     do { t \<leftarrow> retune msr_get_l2maxdist msr_set_l2maxdist L2MAXDIST_MAX aggr (maxdist_factor p) t;
          retune msr_get_l3maxdist msr_set_l3maxdist L3MAXDIST_MAX aggr (maxdist_factor p) t }"

definition all_cores :: "(thread_state \<Rightarrow> thread_state option) \<Rightarrow> 'a tuner_scheme \<Rightarrow> 'a tuner_scheme option" where
  "all_cores f s =
     for_range 0 (ACTIVE_THREADS s)
       (\<lambda>i s. do { t \<leftarrow> aget MAX_THREADS (gtinfo s) i;
                   t \<leftarrow> f t;
                   Some (s\<lparr>gtinfo := (gtinfo s)(nat i := t)\<rparr>) }) s"

section \<open>One call\<close>

definition basicalg :: "penv \<Rightarrow> int \<Rightarrow> prim \<Rightarrow> prim outcome" where
  "basicalg e tunealg s =
     obind (grab_bandwidth e s) (\<lambda>(rd, wr, s).
     if p_time_old s = 0 then Ret (s\<lparr>p_time_old := pe_time_ms e\<rparr>)
     else let p = bw_percent rd (pe_time_ms e - p_time_old s) (p_ddr_bw_target s);
              s = s\<lparr>p_time_old := pe_time_ms e\<rparr>
          in if ACTIVE_THREADS s \<le> 0 \<or> ACTIVE_THREADS s > MAX_THREADS then Undef
             else if tunealg = 0 then of_option (all_cores (alg0_core (p_aggr s) p) s)
             else if tunealg = 1
             then if ACTIVE_THREADS s < 16 then Undef else of_option (all_cores (alg1_core (p_aggr s) p) s)
             else Ret s)"


section \<open>Settings stay in range\<close>

text \<open>Two settings of a register image that do not overlap, each with the greatest value the tuner
  gives it.\<close>

locale tuned_pair = field_pair geta puta "\<lambda>v. v mod na" getb putb "\<lambda>v. v mod nb"
  for geta :: "msr_u arr \<Rightarrow> int" and puta and na :: int and getb :: "msr_u arr \<Rightarrow> int" and putb and nb :: int +
  fixes ha hb :: int
  assumes bounds: "1 \<le> ha" "ha < na" "1 \<le> hb" "hb < nb"
begin

lemma clamped_fits: "clamped ha x mod na = clamped ha x" "clamped hb x mod nb = clamped hb x"
  using bounds by (auto simp: clamped_def Let_def)

lemma retune_both:
  assumes "moved g f (geta (t_msr_value t)) = Some x" and "moved g f (getb (t_msr_value t)) = Some y"
  shows "\<exists>t'. do { t \<leftarrow> retune geta puta ha g f t; retune getb putb hb g f t } = Some t' \<and>
    t_msr_value t' = putb (puta (t_msr_value t) (clamped ha x)) (clamped hb y) \<and>
    geta (t_msr_value t') = clamped ha x \<and> getb (t_msr_value t') = clamped hb y \<and>
    (t_msr_dirty t' \<longleftrightarrow> t_msr_dirty t \<or> geta (t_msr_value t) \<noteq> clamped ha x \<or> getb (t_msr_value t) \<noteq> clamped hb y)"
proof -
  let ?m = "t_msr_value t"
  let ?t = "if geta ?m \<noteq> clamped ha x then t\<lparr>t_msr_value := puta ?m (clamped ha x), t_msr_dirty := True\<rparr> else t"
  have t: "retune geta puta ha g f t = Some ?t" using assms(1) by (simp add: retune_def Let_def)
  have m: "t_msr_value ?t = puta ?m (clamped ha x)"
    using a.put_same [of "clamped ha x" ?m] clamped_fits(1) by auto
  then have b: "getb (t_msr_value ?t) = getb ?m" by (simp add: frame_b)
  let ?u = "if getb ?m \<noteq> clamped hb y
    then ?t\<lparr>t_msr_value := putb (t_msr_value ?t) (clamped hb y), t_msr_dirty := True\<rparr> else ?t"
  have u: "retune getb putb hb g f ?t = Some ?u" unfolding retune_def b using assms(2) by (simp add: Let_def)
  have "t_msr_value ?u = putb (puta ?m (clamped ha x)) (clamped hb y)"
    using b.put_same [of "clamped hb y" "t_msr_value ?t"] clamped_fits(2) b m by auto
  moreover have "t_msr_dirty ?u \<longleftrightarrow> t_msr_dirty t \<or> geta ?m \<noteq> clamped ha x \<or> getb ?m \<noteq> clamped hb y" by simp
  ultimately show ?thesis using t u both_written clamped_fits by (auto simp del: Product_Type.split_paired_All)
qed

end

interpretation xq_tuned: tuned_pair msr_get_l2xq msr_set_l2xq 32 msr_get_l3xq msr_set_l3xq 32 L2XQ_MAX L3XQ_MAX
  by unfold_locales (simp_all add: const_simps)

interpretation dist_tuned: tuned_pair msr_get_l2maxdist msr_set_l2maxdist 32 msr_get_l3maxdist msr_set_l3maxdist 64
    L2MAXDIST_MAX L3MAXDIST_MAX
  by unfold_locales (simp_all add: const_simps)

lemma clamped_range: "1 \<le> hi \<Longrightarrow> 1 \<le> clamped hi v \<and> clamped hi v \<le> hi"
  by (auto simp: clamped_def Let_def)

lemma factor_values:
  "xq_factor p = Some k \<Longrightarrow> k \<in> {-8, -4, -2, -1, 1, 2, 4, 8}"
  "maxdist_factor p = Some k \<Longrightarrow> k \<in> {-8, -4, -2, -1, 1, 2, 4, 8}"
  by (auto simp: xq_factor_def maxdist_factor_def split: if_splits)

lemma f32_factor:
  assumes "k \<in> {-8, -4, -2, -1, 1, 2, 4, 8}"
  shows "\<exists>s. f32 k = FFin s (of_int \<bar>k\<bar>)"
proof (cases "0 < k")
  case True
  then show ?thesis using f_of_int_small [of "nat k"] assms by auto
next
  case False
  then show ?thesis using f_of_int_neg [of "nat (- k)"] assms by auto
qed

text \<open>With a factor of at most 5 a setting moves by at most 40.\<close>

lemma moved_defined:
  assumes "g = FFin s m" "0 \<le> m" "m \<le> 5" "\<And>k. f = Some k \<Longrightarrow> k \<in> {-8, -4, -2, -1, 1, 2, 4, 8}" "0 \<le> v" "v < 64"
  shows "\<exists>d. moved g f v = Some (v + d) \<and> \<bar>d\<bar> \<le> 40"
proof (cases f)
  case None
  then show ?thesis by (simp add: moved_def)
next
  case (Some k)
  obtain s' where k: "f32 k = FFin s' (of_int \<bar>k\<bar>)" using f32_factor assms(4) [OF Some] by blast
  have "\<bar>k\<bar> \<le> 8" using assms(4) [OF Some] by auto
  then have "of_int \<bar>k\<bar> * m \<le> 8 * 5" using assms(2,3) by (intro mult_mono) (simp_all flip: of_int_abs)
  then obtain d where "flround (fmul binary32 (f32 k) g) = Some d" "\<bar>d\<bar> \<le> 40"
    using flround_small [of m "of_int \<bar>k\<bar>" 40 s' s] assms(1,2) k by auto
  moreover from this(2) have "- 40 \<le> v + d" "v + d < 104" using assms(5,6) by (simp_all add: abs_le_iff)
  ultimately show ?thesis using Some int32_id [of "v + d"] by (simp add: moved_def)
qed

lemma all_cores_effect:
  assumes "0 \<le> ACTIVE_THREADS s" "ACTIVE_THREADS s \<le> MAX_THREADS"
    and "\<And>i. int i < ACTIVE_THREADS s \<Longrightarrow> f (gtinfo s i) = Some (h i)"
  shows "all_cores f s = Some (s\<lparr>gtinfo := (\<lambda>i. if int i < ACTIVE_THREADS s then h i else gtinfo s i)\<rparr>)"
proof -
  let ?I = "\<lambda>j t. t = s\<lparr>gtinfo := (\<lambda>i. if int i < j then h i else gtinfo s i)\<rparr>"
  have "\<exists>t. all_cores f s = Some t \<and> ?I (ACTIVE_THREADS s) t"
    unfolding all_cores_def
  proof (rule for_range_rule [where I = ?I])
    show "s = s\<lparr>gtinfo := (\<lambda>i. if int i < 0 then h i else gtinfo s i)\<rparr>" by simp
    show "0 \<le> ACTIVE_THREADS s" by (rule assms)
    fix j t
    assume j: "0 \<le> j" "j < ACTIVE_THREADS s" and t: "?I j t"
    have "f (gtinfo s (nat j)) = Some (h (nat j))" using assms(3) [of "nat j"] j by simp
    then show "\<exists>t'. (do { u \<leftarrow> aget MAX_THREADS (gtinfo t) j; u \<leftarrow> f u; Some (t\<lparr>gtinfo := (gtinfo t)(nat j := u)\<rparr>) }) = Some t' \<and>
        ?I (j + 1) t'"
      using j t assms(2) by (auto simp: fun_eq_iff)
  qed
  then show ?thesis by blast
qed

lemma mod_id_bounds: "v mod n = v \<Longrightarrow> 0 < n \<Longrightarrow> n \<le> 64 \<Longrightarrow> 0 \<le> v \<and> v < (64 :: int)"
  by (metis order_less_le_trans pos_mod_bound pos_mod_sign)

lemma xq_bounds: "0 \<le> msr_get_l2xq m \<and> msr_get_l2xq m < 64" "0 \<le> msr_get_l3xq m \<and> msr_get_l3xq m < 64"
  by (rule mod_id_bounds, rule l2xq.norm_get l3xq.norm_get, simp, simp)+

lemma dist_bounds: "0 \<le> msr_get_l2maxdist m \<and> msr_get_l2maxdist m < 64" "0 \<le> msr_get_l3maxdist m \<and> msr_get_l3maxdist m < 64"
  by (rule mod_id_bounds, rule l2maxdist.norm_get l3maxdist.norm_get, simp, simp)+

lemma moved_xq: "g = FFin s m \<Longrightarrow> 0 \<le> m \<Longrightarrow> m \<le> 5 \<Longrightarrow> 0 \<le> v \<and> v < 64 \<Longrightarrow> \<exists>x. moved g (xq_factor p) v = Some x"
  using moved_defined [of g s m "xq_factor p" v] factor_values(1) [of p] by (metis (no_types, lifting))

lemma moved_dist: "g = FFin s m \<Longrightarrow> 0 \<le> m \<Longrightarrow> m \<le> 5 \<Longrightarrow> 0 \<le> v \<and> v < 64 \<Longrightarrow> \<exists>x. moved g (maxdist_factor p) v = Some x"
  using moved_defined [of g s m "maxdist_factor p" v] factor_values(2) [of p] by (metis (no_types, lifting))

text \<open>What the tuner makes of one core.\<close>

definition retuned ::
    "(msr_u arr \<Rightarrow> int) \<Rightarrow> (msr_u arr \<Rightarrow> int \<Rightarrow> msr_u arr) \<Rightarrow> int \<Rightarrow> (msr_u arr \<Rightarrow> int) \<Rightarrow> (msr_u arr \<Rightarrow> int \<Rightarrow> msr_u arr) \<Rightarrow> int \<Rightarrow>
     cfloat \<Rightarrow> int option \<Rightarrow> thread_state \<Rightarrow> thread_state \<Rightarrow> bool" where
  "retuned geta puta ha getb putb hb g f t t' \<longleftrightarrow> (\<exists>x y.
     moved g f (geta (t_msr_value t)) = Some x \<and> moved g f (getb (t_msr_value t)) = Some y \<and>
     t_msr_value t' = putb (puta (t_msr_value t) (clamped ha x)) (clamped hb y) \<and>
     1 \<le> geta (t_msr_value t') \<and> geta (t_msr_value t') \<le> ha \<and> 1 \<le> getb (t_msr_value t') \<and> getb (t_msr_value t') \<le> hb \<and>
     (t_msr_dirty t' \<longleftrightarrow> t_msr_dirty t \<or> geta (t_msr_value t') \<noteq> geta (t_msr_value t) \<or>
        getb (t_msr_value t') \<noteq> getb (t_msr_value t)))"

lemma alg0_core_retunes:
  assumes "g = FFin s m" "0 \<le> m" "m \<le> 5"
  shows "\<exists>t'. alg0_core g p t = Some t' \<and>
    retuned msr_get_l2xq msr_set_l2xq L2XQ_MAX msr_get_l3xq msr_set_l3xq L3XQ_MAX g (xq_factor p) t t'"
proof -
  obtain x y where xy: "moved g (xq_factor p) (msr_get_l2xq (t_msr_value t)) = Some x"
      "moved g (xq_factor p) (msr_get_l3xq (t_msr_value t)) = Some y"
    using moved_xq [OF assms xq_bounds(1)] moved_xq [OF assms xq_bounds(2)] by meson
  then obtain t' where t': "alg0_core g p t = Some t'"
    "t_msr_value t' = msr_set_l3xq (msr_set_l2xq (t_msr_value t) (clamped L2XQ_MAX x)) (clamped L3XQ_MAX y)"
    "msr_get_l2xq (t_msr_value t') = clamped L2XQ_MAX x" "msr_get_l3xq (t_msr_value t') = clamped L3XQ_MAX y"
    "t_msr_dirty t' \<longleftrightarrow> t_msr_dirty t \<or> msr_get_l2xq (t_msr_value t) \<noteq> clamped L2XQ_MAX x \<or>
      msr_get_l3xq (t_msr_value t) \<noteq> clamped L3XQ_MAX y"
    using xq_tuned.retune_both [OF xy] unfolding alg0_core_def by blast
  then show ?thesis
    using xy clamped_range [of L2XQ_MAX x] clamped_range [of L3XQ_MAX y] xq_tuned.bounds
    unfolding retuned_def by (intro exI [of _ t'] conjI exI [of _ x] exI [of _ y]) auto
qed

lemma alg1_core_retunes:
  assumes "g = FFin s m" "0 \<le> m" "m \<le> 5"
  shows "\<exists>t'. alg1_core g p t = Some t' \<and>
    retuned msr_get_l2maxdist msr_set_l2maxdist L2MAXDIST_MAX msr_get_l3maxdist msr_set_l3maxdist L3MAXDIST_MAX g (maxdist_factor p) t t'"
proof -
  obtain x y where xy: "moved g (maxdist_factor p) (msr_get_l2maxdist (t_msr_value t)) = Some x"
      "moved g (maxdist_factor p) (msr_get_l3maxdist (t_msr_value t)) = Some y"
    using moved_dist [OF assms dist_bounds(1)] moved_dist [OF assms dist_bounds(2)] by meson
  then obtain t' where t': "alg1_core g p t = Some t'"
    "t_msr_value t' = msr_set_l3maxdist (msr_set_l2maxdist (t_msr_value t) (clamped L2MAXDIST_MAX x)) (clamped L3MAXDIST_MAX y)"
    "msr_get_l2maxdist (t_msr_value t') = clamped L2MAXDIST_MAX x" "msr_get_l3maxdist (t_msr_value t') = clamped L3MAXDIST_MAX y"
    "t_msr_dirty t' \<longleftrightarrow> t_msr_dirty t \<or> msr_get_l2maxdist (t_msr_value t) \<noteq> clamped L2MAXDIST_MAX x \<or>
      msr_get_l3maxdist (t_msr_value t) \<noteq> clamped L3MAXDIST_MAX y"
    using dist_tuned.retune_both [OF xy] unfolding alg1_core_def by blast
  then show ?thesis
    using xy clamped_range [of L2MAXDIST_MAX x] clamped_range [of L3MAXDIST_MAX y] dist_tuned.bounds
    unfolding retuned_def by (intro exI [of _ t'] conjI exI [of _ x] exI [of _ y]) auto
qed

lemma all_cores_retune:
  assumes "0 < ACTIVE_THREADS s" "ACTIVE_THREADS s \<le> MAX_THREADS" "\<And>t. \<exists>t'. f t = Some t' \<and> R t t'"
  shows "\<exists>u. all_cores f s = Some u \<and> (\<forall>i. int i < ACTIVE_THREADS s \<longrightarrow> R (gtinfo s i) (gtinfo u i)) \<and>
    (\<forall>i. ACTIVE_THREADS s \<le> int i \<longrightarrow> gtinfo u i = gtinfo s i) \<and> p_time_old u = p_time_old s"
proof -
  obtain h where h: "\<And>t. f t = Some (h t) \<and> R t (h t)" using assms(3) by metis
  then have "all_cores f s = Some (s\<lparr>gtinfo := (\<lambda>i. if int i < ACTIVE_THREADS s then h (gtinfo s i) else gtinfo s i)\<rparr>)"
    using assms(1,2) by (intro all_cores_effect) auto
  then show ?thesis using h by auto
qed

text \<open>A call after the first, with an algorithm that moves settings.\<close>

lemma basicalg_decides:
  assumes "grab_bandwidth e s = Ret (rd, wr, u)" and "p_time_old u \<noteq> 0"
    and "0 < ACTIVE_THREADS u" and "ACTIVE_THREADS u \<le> MAX_THREADS" and "alg = 0 \<or> alg = 1 \<and> 16 \<le> ACTIVE_THREADS u"
    and "p_aggr u = FFin sg m" and "0 \<le> m" and "m \<le> 5"
    and "p = bw_percent rd (pe_time_ms e - p_time_old u) (p_ddr_bw_target u)"
  shows "\<exists>t. basicalg e alg s = Ret t \<and>
    (\<forall>i. int i < ACTIVE_THREADS u \<longrightarrow>
      (if alg = 0
       then retuned msr_get_l2xq msr_set_l2xq 31 msr_get_l3xq msr_set_l3xq 31 (p_aggr u) (xq_factor p) (gtinfo u i) (gtinfo t i)
       else retuned msr_get_l2maxdist msr_set_l2maxdist 31 msr_get_l3maxdist msr_set_l3maxdist 63 (p_aggr u)
              (maxdist_factor p) (gtinfo u i) (gtinfo t i))) \<and>
    (\<forall>i. ACTIVE_THREADS u \<le> int i \<longrightarrow> gtinfo t i = gtinfo u i) \<and> p_time_old t = pe_time_ms e"
proof -
  let ?u = "u\<lparr>p_time_old := pe_time_ms e\<rparr>"
  have u: "ACTIVE_THREADS ?u = ACTIVE_THREADS u" "gtinfo ?u = gtinfo u" "p_aggr ?u = p_aggr u" by (simp_all add: ACTIVE_THREADS_def)
  have n: "0 < ACTIVE_THREADS ?u" "ACTIVE_THREADS ?u \<le> MAX_THREADS" using assms(3,4) u by simp_all
  show ?thesis
  proof (cases "alg = 0")
    case True
    from all_cores_retune [of ?u "alg0_core (p_aggr u) p"
        "retuned msr_get_l2xq msr_set_l2xq L2XQ_MAX msr_get_l3xq msr_set_l3xq L3XQ_MAX (p_aggr u) (xq_factor p)",
        OF n alg0_core_retunes [OF assms(6-8)]] obtain t
      where t: "all_cores (alg0_core (p_aggr u) p) ?u = Some t"
        "\<forall>i. int i < ACTIVE_THREADS u \<longrightarrow>
          retuned msr_get_l2xq msr_set_l2xq L2XQ_MAX msr_get_l3xq msr_set_l3xq L3XQ_MAX (p_aggr u) (xq_factor p) (gtinfo u i) (gtinfo t i)"
        "\<forall>i. ACTIVE_THREADS u \<le> int i \<longrightarrow> gtinfo t i = gtinfo u i" "p_time_old t = pe_time_ms e"
      unfolding u by auto
    then have "basicalg e alg s = Ret t"
      using assms(1-4,9) True u by (simp add: basicalg_def Let_def of_option_def)
    then show ?thesis using t True by (simp add: const_simps)
  next
    case False
    then have a: "alg = 1" "16 \<le> ACTIVE_THREADS u" using assms(5) by auto
    from all_cores_retune [of ?u "alg1_core (p_aggr u) p" "retuned msr_get_l2maxdist msr_set_l2maxdist L2MAXDIST_MAX
        msr_get_l3maxdist msr_set_l3maxdist L3MAXDIST_MAX (p_aggr u) (maxdist_factor p)",
        OF n alg1_core_retunes [OF assms(6-8)]] obtain t
      where t: "all_cores (alg1_core (p_aggr u) p) ?u = Some t"
        "\<forall>i. int i < ACTIVE_THREADS u \<longrightarrow> retuned msr_get_l2maxdist msr_set_l2maxdist L2MAXDIST_MAX
           msr_get_l3maxdist msr_set_l3maxdist L3MAXDIST_MAX (p_aggr u) (maxdist_factor p) (gtinfo u i) (gtinfo t i)"
        "\<forall>i. ACTIVE_THREADS u \<le> int i \<longrightarrow> gtinfo t i = gtinfo u i" "p_time_old t = pe_time_ms e"
      unfolding u by auto
    then have "basicalg e alg s = Ret t"
      using assms(1-4,9) a u by (simp add: basicalg_def Let_def of_option_def)
    then show ?thesis using t a by (simp add: const_simps)
  qed
qed

text \<open>
  Algorithm 1 needs sixteen cores. Its log line reads sixteen entries of an array that
  has one entry per active core, so with fewer active cores every call after the first reads
  outside the array, whatever the log level.
\<close>

theorem alg1_needs_sixteen_cores:
  assumes "grab_bandwidth e s = Ret (rd, wr, u)" and "p_time_old u \<noteq> 0" and "ACTIVE_THREADS u < 16"
  shows "basicalg e 1 s = Undef"
  using assms by (simp add: basicalg_def Let_def ACTIVE_THREADS_def)

text \<open>
  Claim C26: one call of the heuristic tuner, for every algorithm number. Let both bandwidths be read,
  let the aggressiveness be a number from 0 to 5 and let 1 to \<open>MAX_THREADS\<close> cores be active. The
  first call, recognised by no time having been saved, selects nothing: it only saves the time. Every
  later call saves the time too and changes no inactive core. With algorithm 0 it returns; it moves the
  two queue thresholds of every active core by the amount its ladder gives for the share \<open>p\<close> of
  the target bandwidth in use since the saved time, keeps them between 1 and their greatest values and
  marks exactly the cores whose settings changed as dirty. With algorithm 1 and at least sixteen active
  cores the same holds of the two prefetch distances; with fewer active cores its trace line reads
  outside an array and the call is undefined. Any other algorithm number leaves every core alone.
\<close>

theorem basicalg_retunes:
  assumes "grab_bandwidth e s = Ret (rd, wr, u)"
    and "0 < ACTIVE_THREADS u" and "ACTIVE_THREADS u \<le> MAX_THREADS"
    and "p_aggr u = FFin sg m" and "0 \<le> m" and "m \<le> 5"
    and "p = bw_percent rd (pe_time_ms e - p_time_old u) (p_ddr_bw_target u)"
  shows "if p_time_old u = 0 then basicalg e alg s = Ret (u\<lparr>p_time_old := pe_time_ms e\<rparr>)
    else if alg = 1 \<and> ACTIVE_THREADS u < 16 then basicalg e alg s = Undef
    else \<exists>t. basicalg e alg s = Ret t \<and>
      (\<forall>i. int i < ACTIVE_THREADS u \<longrightarrow>
        (if alg = 0
         then retuned msr_get_l2xq msr_set_l2xq 31 msr_get_l3xq msr_set_l3xq 31 (p_aggr u) (xq_factor p) (gtinfo u i) (gtinfo t i)
         else if alg = 1
         then retuned msr_get_l2maxdist msr_set_l2maxdist 31 msr_get_l3maxdist msr_set_l3maxdist 63 (p_aggr u)
                (maxdist_factor p) (gtinfo u i) (gtinfo t i)
         else gtinfo t i = gtinfo u i)) \<and>
      (\<forall>i. ACTIVE_THREADS u \<le> int i \<longrightarrow> gtinfo t i = gtinfo u i) \<and> p_time_old t = pe_time_ms e"
proof (cases "p_time_old u = 0")
  case True
  then show ?thesis using assms(1) by (simp add: basicalg_def)
next
  case time: False
  consider "alg = 0 \<or> alg = 1 \<and> 16 \<le> ACTIVE_THREADS u" | "alg = 1" "ACTIVE_THREADS u < 16" | "alg \<noteq> 0" "alg \<noteq> 1" by linarith
  then show ?thesis
  proof cases
    case 1
    from basicalg_decides [OF assms(1) time assms(2,3) this assms(4-7)] time 1 show ?thesis by auto
  next
    case 2
    then show ?thesis using time alg1_needs_sixteen_cores [OF assms(1) time] by simp
  next
    case 3
    then have "basicalg e alg s = Ret (u\<lparr>p_time_old := pe_time_ms e\<rparr>)"
      using assms(1-3) time by (simp add: basicalg_def Let_def ACTIVE_THREADS_def)
    then show ?thesis using time 3 by simp
  qed
qed

text \<open>A system with two controllers, whose counters have advanced since the last call.\<close>

definition demo_prim :: prim where
  "demo_prim = tuner.extend blank_tuner
     \<lparr>p_pmu = \<lparr>u_interface_type = DDR_CLIENT, u_num_controllers = 2, u_ddr = zero_ddr\<lparr>ddr_mmap := (\<lambda>_. 0x100000)\<rparr>, mapped_ranges = []\<rparr>,
      p_rdt = rdt_demo, p_rdt_enabled = False, p_time_old = 1000, p_aggr = FFin False 1, p_ddr_bw_target = 10000\<rparr>"

definition demo_penv :: penv where
  "demo_penv = \<lparr>pe_mem = \<lparr>mem_open = 3, mem_map = id, mem_read = (\<lambda>_. 1000)\<rparr>, pe_msr = rdt_os, pe_hw1 = (\<lambda>_ _ s. s),
     pe_hw2 = (\<lambda>_ _ s. s), pe_time_ms = 2000\<rparr>"

lemma demo_grab:
  obtains u where "grab_bandwidth demo_penv demo_prim = Ret (128000, 128000, u)" "p_time_old u = 1000" "ACTIVE_THREADS u = 4"
    "p_aggr u = FFin False 1"
proof -
  have p: "\<exists>q. pmu_ddr (pe_mem demo_penv) ty r = Some (128000, q) \<and> u_interface_type q = DDR_CLIENT \<and> u_num_controllers q = 2 \<and>
      ddr_mmap (u_ddr q) = (\<lambda>_. 0x100000) \<and> wr_last_update (u_ddr q) = wr_last_update (u_ddr r)"
    if "ty = DDR_PMU_RD \<and> rd_last_update (u_ddr r) = (\<lambda>_. 0)" "u_interface_type r = DDR_CLIENT" "u_num_controllers r = 2"
      "ddr_mmap (u_ddr r) = (\<lambda>_. 0x100000)" for ty r
    using that by (simp add: pmu_ddr_def pmu_ddr_client_def u_scan_def for_range_step u_last_def u_set_last_def demo_penv_def const_simps)
  have w: "\<exists>q. pmu_ddr (pe_mem demo_penv) DDR_PMU_WR r = Some (128000, q)"
    if "wr_last_update (u_ddr r) = (\<lambda>_. 0)" "u_interface_type r = DDR_CLIENT" "u_num_controllers r = 2"
      "ddr_mmap (u_ddr r) = (\<lambda>_. 0x100000)" for r
    using that by (simp add: pmu_ddr_def pmu_ddr_client_def u_scan_def for_range_step u_last_def u_set_last_def demo_penv_def const_simps)
  obtain q where q: "pmu_ddr (pe_mem demo_penv) DDR_PMU_RD (p_pmu demo_prim) = Some (128000, q)" "u_interface_type q = DDR_CLIENT"
      "u_num_controllers q = 2" "ddr_mmap (u_ddr q) = (\<lambda>_. 0x100000)" "wr_last_update (u_ddr q) = (\<lambda>_. 0)"
    using p [of DDR_PMU_RD "p_pmu demo_prim"] by (auto simp: demo_prim_def tuner.defs zero_ddr_def)
  obtain v where v: "pmu_ddr (pe_mem demo_penv) DDR_PMU_WR q = Some (128000, v)" using w [OF q(5,2,3,4)] by blast
  show ?thesis
    using that [of "demo_prim\<lparr>p_pmu := v\<rparr>"] q(1) v
    by (simp add: grab_bandwidth_def of_option_def demo_prim_def tuner.defs ACTIVE_THREADS_def blank_tuner_def)
qed

theorem basicalg_retunes_witness:
  "\<exists>t. basicalg demo_penv 0 demo_prim = Ret t \<and> 1 \<le> msr_get_l2xq (t_msr_value (gtinfo t 2))"
proof -
  obtain u where u: "grab_bandwidth demo_penv demo_prim = Ret (128000, 128000, u)" "p_time_old u = 1000" "ACTIVE_THREADS u = 4"
      "p_aggr u = FFin False 1" by (rule demo_grab)
  have h: "0 < ACTIVE_THREADS u" "ACTIVE_THREADS u \<le> MAX_THREADS" and old: "p_time_old u \<noteq> 0"
    using u by (simp_all add: const_simps)
  have m: "(0 :: rat) \<le> 1" "(1 :: rat) \<le> 5" by simp_all
  from basicalg_retunes [OF u(1) h u(4) m refl, of 0] obtain t where t: "basicalg demo_penv 0 demo_prim = Ret t"
    and r: "\<And>i. int i < ACTIVE_THREADS u \<Longrightarrow> retuned msr_get_l2xq msr_set_l2xq 31 msr_get_l3xq msr_set_l3xq 31 (p_aggr u)
        (xq_factor (bw_percent 128000 (pe_time_ms demo_penv - p_time_old u) (p_ddr_bw_target u))) (gtinfo u i) (gtinfo t i)"
    unfolding if_not_P [OF old] by auto
  have "int 2 < ACTIVE_THREADS u" using u(3) by simp
  from r [OF this] t show ?thesis unfolding retuned_def by blast
qed

theorem alg1_needs_sixteen_cores_witness: "basicalg demo_penv 1 demo_prim = Undef"
proof -
  obtain u where u: "grab_bandwidth demo_penv demo_prim = Ret (128000, 128000, u)" "p_time_old u = 1000" "ACTIVE_THREADS u = 4"
    by (rule demo_grab)
  show ?thesis by (rule alg1_needs_sixteen_cores [OF u(1)]) (simp_all add: u)
qed

end
