(* ===== verification/User_Threads.thy ===== *)
theory User_Threads
  imports User_Primitive
begin

text \<open>
  The threads of \<open>main.c\<close>: one per active core, all running \<open>thread_start\<close>. Thread 0 is the
  master; it waits until \<open>syncflag\<close> has been increased \<open>ACTIVE_THREADS\<close> times, calculates the new
  settings and resets the flag. The first thread of every module of four cores waits for the
  reset and writes the settings of its core to the registers; the other threads run free.

  The model has two layers. The control layer, \<open>cstep\<close>, is the interleaving of the threads: each
  step is one access of one thread to a shared flag (\<open>thread_step\<close>) or the interrupt signal, with the
  program point of every thread and the flags as its state and an \<open>action\<close> as its label. The data layer, \<open>perform\<close>, is what an action
  does to the tuner, the registers and the local variables of the thread; \<open>dstep\<close> is the
  product, in which the hardware and other programs may change any register but the prefetch
  registers between two actions. A calculation is one action.

  Parameters: the environment of an action (\<open>tenv\<close>): the MSR device, the perf events, the
  environment of the tuner, the logarithm and the random numbers. The bandwidth that a thread
  measures in the start-up test is arbitrary.

  The two \<open>exit(-1)\<close> of the start-up test are not steps of the model: the memory of the test is
  taken to be allocated (\<open>ddrmembw_init\<close> does not fail), and a master that finds a target of 0
  at \<open>PBwDone\<close> stays there, while the other threads, which the exit would end, may go on.
  The model thus has every run of the program up to such an exit, and more.
\<close>

section \<open>Control\<close>

definition DDR_BW_NOT_SET :: int where [const_simps]: "DDR_BW_NOT_SET = -1"
definition DDR_BW_AUTOTEST :: int where [const_simps]: "DDR_BW_AUTOTEST = -2"

datatype pc =
    PStart | PBwInit | PBwArrive | PBwWait | PBwMeasure | PBwLeave | PBwDrain | PBwDone
  | PSetup | PTop | PReport | PWait | PCompute | PRelease | PApply | PFinished

datatype action =
    Silent | Init nat | Sample nat | Report nat | Calculate int | Release | Apply nat | Close nat | Interrupt

record ctl =
  pc_of :: "nat \<Rightarrow> pc"
  syncflag :: int
  ddrbwflag :: int
  bw_target :: int
  quitflag :: bool

definition goto :: "nat \<Rightarrow> pc \<Rightarrow> ctl \<Rightarrow> ctl" where
  "goto i p c = c\<lparr>pc_of := (pc_of c)(i := p)\<rparr>"

definition CORE_IN_MODULE :: "nat \<Rightarrow> nat" where "CORE_IN_MODULE i = i mod 4"

text \<open>What thread \<open>i\<close> does next: a wait is \<open>None\<close> while its condition does not hold, \<open>v\<close> is the
  bandwidth measured by \<open>ddrmembw_measurement\<close>. Thread 0 is the master.\<close>

definition thread_step :: "int \<Rightarrow> int \<Rightarrow> nat \<Rightarrow> ctl \<Rightarrow> (action \<times> ctl) option" where
  "thread_step N v i c =
     (case pc_of c i of
        PStart \<Rightarrow> Some (Silent, goto i (if bw_target c = DDR_BW_AUTOTEST then if i = 0 then PBwInit else PBwArrive else PSetup) c)
      | PBwInit \<Rightarrow> if i = 0 then Some (Silent, goto 0 PBwArrive (c\<lparr>bw_target := 0\<rparr>)) else None
      | PBwArrive \<Rightarrow> Some (Silent, goto i PBwWait (c\<lparr>ddrbwflag := int32 (ddrbwflag c + 1)\<rparr>))
      | PBwWait \<Rightarrow> if N \<le> ddrbwflag c then Some (Silent, goto i PBwMeasure c) else None
      | PBwMeasure \<Rightarrow> Some (Silent, goto i PBwLeave (c\<lparr>bw_target := int32 (bw_target c + v)\<rparr>))
      | PBwLeave \<Rightarrow> Some (Silent, goto i PBwDrain (c\<lparr>ddrbwflag := int32 (ddrbwflag c - 1)\<rparr>))
      | PBwDrain \<Rightarrow> if ddrbwflag c = 0 then Some (Silent, goto i (if i = 0 then PBwDone else PSetup) c) else None
      | PBwDone \<Rightarrow> if i = 0 \<and> bw_target c \<noteq> 0 then Some (Silent, goto 0 PSetup c) else None
      | PSetup \<Rightarrow> Some (Init i, goto i PTop c)
      | PTop \<Rightarrow> if quitflag c then Some (Close i, goto i PFinished c) else Some (Sample i, goto i PReport c)
      | PReport \<Rightarrow> Some (Report i, goto i (if CORE_IN_MODULE i = 0 then PWait else PApply)
                                      (c\<lparr>syncflag := int32 (syncflag c + 1)\<rparr>))
      | PWait \<Rightarrow> if i = 0 then if N \<le> syncflag c then Some (Silent, goto 0 PCompute c) else None
                else if syncflag c = 0 then Some (Silent, goto i PApply c) else None
      | PCompute \<Rightarrow> if i = 0 then Some (Calculate (bw_target c), goto 0 PRelease c) else None
      | PRelease \<Rightarrow> if i = 0 then Some (Release, goto 0 PApply (c\<lparr>syncflag := 0\<rparr>)) else None
      | PApply \<Rightarrow> Some (Apply i, goto i PTop c)
      | PFinished \<Rightarrow> None)"

inductive cstep :: "int \<Rightarrow> ctl \<Rightarrow> action \<Rightarrow> ctl \<Rightarrow> bool" for N where
  thread: "int i < N \<Longrightarrow> thread_step N v i c = Some (a, d) \<Longrightarrow> cstep N c a d"
| interrupt: "cstep N c Interrupt (c\<lparr>quitflag := True\<rparr>)"

text \<open>Runs, with the actions taken, the latest first.\<close>

inductive crun :: "int \<Rightarrow> ctl \<Rightarrow> action list \<Rightarrow> ctl \<Rightarrow> bool" for N c where
  crun_none: "crun N c [] c"
| crun_step: "crun N c tr d \<Longrightarrow> cstep N d a e \<Longrightarrow> crun N c (a # tr) e"

definition boot_ctl :: "int \<Rightarrow> ctl" where
  "boot_ctl target = \<lparr>pc_of = (\<lambda>_. PStart), syncflag = 0, ddrbwflag = 0, bw_target = target, quitflag = False\<rparr>"

section \<open>Data\<close>

record tlocal =
  l_msr_file :: int
  l_pmu_new :: "u64 arr"
  l_instructions_new :: u64
  l_cpu_cycles_new :: u64
  l_event_fds :: "int arr"

record tdata =
  d_prim :: prim
  d_locals :: "nat \<Rightarrow> tlocal"
  d_open_events :: "int set"

record toptions =
  o_tunealg :: int
  o_pmu_perf :: bool
  o_num_events :: nat

record tenv =
  te_os :: msr_os
  te_perf :: perf_os
  te_penv :: penv
  te_log :: "cfloat \<Rightarrow> cfloat"
  te_r1 :: nat
  te_r2 :: nat

definition PERF_INDEX_EVENT_CYCLES :: nat where [const_simps]: "PERF_INDEX_EVENT_CYCLES = 5"
definition PERF_INDEX_EVENT_INSTRUCTIONS :: nat where [const_simps]: "PERF_INDEX_EVENT_INSTRUCTIONS = 6"

definition d_msr :: "tdata \<Rightarrow> msr_sys" where "d_msr d = rdt_sys (p_rdt (d_prim d))"

definition set_msr :: "msr_sys \<Rightarrow> tdata \<Rightarrow> tdata" where
  "set_msr m d = d\<lparr>d_prim := (d_prim d)\<lparr>p_rdt := (p_rdt (d_prim d))\<lparr>rdt_sys := m\<rparr>\<rparr>\<rparr>"

definition set_thread :: "nat \<Rightarrow> thread_state \<Rightarrow> tdata \<Rightarrow> tdata" where
  "set_thread i t d = d\<lparr>d_prim := (d_prim d)\<lparr>gtinfo := (gtinfo (d_prim d))(i := t)\<rparr>\<rparr>"

definition set_local :: "nat \<Rightarrow> tlocal \<Rightarrow> tdata \<Rightarrow> tdata" where
  "set_local i l d = d\<lparr>d_locals := (d_locals d)(i := l)\<rparr>"

definition calculate_settings :: "tenv \<Rightarrow> int \<Rightarrow> prim \<Rightarrow> prim outcome" where
  "calculate_settings e tunealg s =
     (if tunealg = 0 \<or> tunealg = 1 then basicalg (te_penv e) tunealg s
      else if tunealg = MAB_ALG
      then obind (of_option (mab (te_log e) (te_r1 e) (te_r2 e) (tuner.truncate s))) (\<lambda>t. Ret (tuner.extend t (tuner.more s)))
      else Ret s)"

definition thread_setup :: "tenv \<Rightarrow> toptions \<Rightarrow> nat \<Rightarrow> tdata \<Rightarrow> tdata outcome" where
  "thread_setup e opt i d =
     (let os = te_os e; t = gtinfo (d_prim d) i; l = d_locals d i in
      obind (msr_init os (t_core_id t) (t_msr_value t) (d_msr d)) (\<lambda>(msr_file, msr, m).
        let (_, m) = msr_hwpf_write os msr_file msr m;
            (_, m) = msr_enable_fixed os msr_file m;
            d = set_thread i (t\<lparr>t_msr_value := msr\<rparr>) d;
            l = l\<lparr>l_msr_file := msr_file\<rparr> in
        if \<not> o_pmu_perf opt
        then obind (pmu_core_config os msr_file m) (\<lambda>(_, m). Ret (set_local i l (set_msr m d)))
        else obind (of_option (perf_init (te_perf e) (o_num_events opt) (t_core_id t) (l_event_fds l) (d_open_events d)))
               (\<lambda>(_, fds, open_events).
                 Ret ((set_local i (l\<lparr>l_event_fds := fds\<rparr>) (set_msr m d))\<lparr>d_open_events := open_events\<rparr>))))"

definition thread_sample :: "tenv \<Rightarrow> toptions \<Rightarrow> nat \<Rightarrow> tdata \<Rightarrow> tdata outcome" where
  "thread_sample e opt i d =
     (let l = d_locals d i; t = gtinfo (d_prim d) i in
      obind (if \<not> o_pmu_perf opt
             then obind (pmu_core_read (te_os e) (o_tunealg opt) (l_msr_file l) (l_pmu_new l) (l_instructions_new l)
                           (l_cpu_cycles_new l) (d_msr d)) (\<lambda>(_, new, inst, cycles). Ret (new, inst, cycles))
             else obind (of_option (perf_read (te_perf e) (o_num_events opt) (l_pmu_new l))) (\<lambda>(_, new).
                    Ret (new, new PERF_INDEX_EVENT_INSTRUCTIONS, new PERF_INDEX_EVENT_CYCLES)))
        (\<lambda>(new, inst, cycles).
          let t = (if o_tunealg opt \<noteq> MAB_ALG
                   then t\<lparr>t_pmu_result := (\<lambda>k. if int k < PMU_COUNTERS then new k - l_pmu_new l k else t_pmu_result t k)\<rparr>
                   else t\<lparr>t_instructions_retired := inst - l_instructions_new l,
                          t_cpu_cycles := cycles - l_cpu_cycles_new l\<rparr>)
          in Ret (set_local i (l\<lparr>l_pmu_new := new, l_instructions_new := inst, l_cpu_cycles_new := cycles\<rparr>)
                    (set_thread i t d))))"

definition thread_apply :: "tenv \<Rightarrow> toptions \<Rightarrow> nat \<Rightarrow> tdata \<Rightarrow> tdata outcome" where
  "thread_apply e opt i d =
     (let t = gtinfo (d_prim d) i; arm = ms_arm (mstate (d_prim d)) in
      if CORE_IN_MODULE i = 0 \<and> t_msr_dirty t
      then if o_tunealg opt = MAB_ALG \<and> int arm \<ge> MAX_ARMS then Undef
           else let values = (if o_tunealg opt = MAB_ALG then arm_msr_values (arms (d_prim d)) arm else t_msr_value t);
                    (_, m) = msr_hwpf_write (te_os e) (l_msr_file (d_locals d i)) values (d_msr d)
                in Ret (set_msr m (set_thread i (t\<lparr>t_msr_dirty := False\<rparr>) d))
      else Ret d)"

definition thread_close :: "toptions \<Rightarrow> nat \<Rightarrow> tdata \<Rightarrow> tdata outcome" where
  "thread_close opt i d =
     (if o_pmu_perf opt
      then obind (of_option (perf_deinit (o_num_events opt) (l_event_fds (d_locals d i)) (d_open_events d)))
             (\<lambda>l. Ret (d\<lparr>d_open_events := l\<rparr>))
      else Ret d)"

text \<open>The freed buffers are null pointers, here the empty list: every access is out of range.\<close>

definition sigintHandler :: "tenv \<Rightarrow> toptions \<Rightarrow> tdata \<Rightarrow> tdata outcome" where
  "sigintHandler e opt d =
     (let s = d_prim d;
          s = (if o_tunealg opt = MAB_ALG \<and> (dynamic_sd (mstate s) = SD_ON \<or> dynamic_sd (mstate s) = SD_STEP)
               then s\<lparr>mstate := (mstate s)\<lparr>ipc_buffer := [], sd_buffer := []\<rparr>\<rparr> else s)
      in if p_rdt_enabled s
         then obind (rdt_mbm_reset (te_os e) (p_rdt s)) (\<lambda>(_, r). Ret (d\<lparr>d_prim := s\<lparr>p_rdt := r\<rparr>\<rparr>))
         else Ret (d\<lparr>d_prim := s\<rparr>))"

text \<open>An access to \<open>gtinfo\<close> outside its 1024 entries is undefined.\<close>

definition perform :: "tenv \<Rightarrow> toptions \<Rightarrow> action \<Rightarrow> tdata \<Rightarrow> tdata outcome" where
  "perform e opt a d =
     (case a of
        Init i \<Rightarrow> if int i \<ge> MAX_THREADS then Undef else thread_setup e opt i d
      | Sample i \<Rightarrow> if int i \<ge> MAX_THREADS then Undef else thread_sample e opt i d
      | Apply i \<Rightarrow> if int i \<ge> MAX_THREADS then Undef else thread_apply e opt i d
      | Calculate target \<Rightarrow>
          obind (calculate_settings e (o_tunealg opt) ((d_prim d)\<lparr>p_ddr_bw_target := target\<rparr>)) (\<lambda>s. Ret (d\<lparr>d_prim := s\<rparr>))
      | Close i \<Rightarrow> thread_close opt i d
      | Interrupt \<Rightarrow> sigintHandler e opt d
      | _ \<Rightarrow> Ret d)"

inductive dstep :: "tenv set \<Rightarrow> toptions \<Rightarrow> int \<Rightarrow> ctl \<times> tdata \<Rightarrow> ctl \<times> tdata \<Rightarrow> bool" for E opt N where
  act: "cstep N c a c' \<Longrightarrow> e \<in> E \<Longrightarrow> perform e opt a d = Ret d' \<Longrightarrow> dstep E opt N (c, d) (c', d')"
| hardware: "msr_file_id m = msr_file_id (d_msr d) \<Longrightarrow> \<forall>k. \<forall>a \<in> hwpf_registers. regs m k a = regs (d_msr d) k a \<Longrightarrow>
    dstep E opt N (c, d) (c, set_msr m d)"


section \<open>Scheduling\<close>

text \<open>A schedule names the thread that moves, with the bandwidth it measures, or the interrupt.\<close>

datatype move = Thread nat int | Signal

fun exec :: "int \<Rightarrow> move list \<Rightarrow> ctl \<Rightarrow> (action list \<times> ctl) option" where
  "exec N [] c = Some ([], c)"
| "exec N (Thread i v # ms) c =
     (if int i \<ge> N then None
      else do { (a, c) \<leftarrow> thread_step N v i c; (tr, c) \<leftarrow> exec N ms c; Some (tr @ [a], c) })"
| "exec N (Signal # ms) c = do { (tr, c) \<leftarrow> exec N ms (c\<lparr>quitflag := True\<rparr>); Some (tr @ [Interrupt], c) }"

lemma crun_trans: "crun N d tr' e \<Longrightarrow> crun N c tr d \<Longrightarrow> crun N c (tr' @ tr) e"
  by (induction rule: crun.induct) (auto intro: crun.intros)

lemma crun_single: "cstep N c a d \<Longrightarrow> crun N c [a] d"
  by (metis crun_none crun_step)

lemma exec_crun: "exec N ms c = Some (tr, d) \<Longrightarrow> crun N c tr d"
proof (induction N ms c arbitrary: tr d rule: exec.induct)
  case (2 N i v ms c)
  then obtain a c' tr' where s: "int i < N" "thread_step N v i c = Some (a, c')" "exec N ms c' = Some (tr', d)" "tr = tr' @ [a]"
    by (auto split: if_splits bind_splits)
  then have "crun N c' tr' d" using 2 by auto
  then show ?case using crun_trans [OF _ crun_single [OF thread [OF s(1,2)]]] s(4) by simp
next
  case (3 N ms c)
  then obtain tr' where s: "exec N ms (c\<lparr>quitflag := True\<rparr>) = Some (tr', d)" "tr = tr' @ [Interrupt]"
    by (auto split: bind_splits)
  then have "crun N (c\<lparr>quitflag := True\<rparr>) tr' d" using 3 by auto
  then show ?case using crun_trans [OF _ crun_single [OF interrupt]] s(2) by simp
qed (auto intro: crun.intros)

section \<open>The main loop\<close>

lemma goto_simps [simp]:
  "pc_of (goto i p c) = (pc_of c)(i := p)" "syncflag (goto i p c) = syncflag c" "ddrbwflag (goto i p c) = ddrbwflag c"
  "bw_target (goto i p c) = bw_target c" "quitflag (goto i p c) = quitflag c"
  by (simp_all add: goto_def)

lemma int32_bounds: "- (2 ^ 31) \<le> int32 i" "int32 i < 2 ^ 31"
  using sint_range_size [of "word_of_int i :: u32"] by (simp_all add: int32_def word_size)

text \<open>Without the start-up test the master, the free thread 1 and the flag stay in the main loop;
  a master that is alone reports once per round.\<close>

definition loop_point :: "nat \<Rightarrow> pc \<Rightarrow> bool" where
  "loop_point i p \<longleftrightarrow> (case p of PStart \<Rightarrow> True | PSetup \<Rightarrow> True | PTop \<Rightarrow> True | PReport \<Rightarrow> True
     | PWait \<Rightarrow> CORE_IN_MODULE i = 0 | PCompute \<Rightarrow> i = 0 | PRelease \<Rightarrow> i = 0 | PApply \<Rightarrow> True | PFinished \<Rightarrow> True | _ \<Rightarrow> False)"

definition alone :: "int \<Rightarrow> ctl \<Rightarrow> bool" where
  "alone N c \<longleftrightarrow> (N = 1 \<longrightarrow> syncflag c = (if pc_of c 0 = PWait \<or> pc_of c 0 = PCompute \<or> pc_of c 0 = PRelease then 1 else 0))"

definition loop_inv :: "int \<Rightarrow> ctl \<Rightarrow> bool" where
  "loop_inv N c \<longleftrightarrow> bw_target c \<noteq> DDR_BW_AUTOTEST \<and> - (2 ^ 31) \<le> syncflag c \<and> syncflag c < 2 ^ 31 \<and>
     (\<forall>i. loop_point i (pc_of c i)) \<and> (\<forall>i. pc_of c i = PFinished \<longrightarrow> quitflag c) \<and> alone N c"

lemma loop_inv_boot: "target \<noteq> DDR_BW_AUTOTEST \<Longrightarrow> loop_inv N (boot_ctl target)"
  by (simp add: loop_inv_def boot_ctl_def loop_point_def alone_def)

lemma loop_move:
  assumes "thread_step N v i c = Some (a, d)" and "loop_point i (pc_of c i)" and "bw_target c \<noteq> DDR_BW_AUTOTEST"
  shows "bw_target d = bw_target c \<and> quitflag d = quitflag c \<and> loop_point i (pc_of d i) \<and> (\<forall>j. j \<noteq> i \<longrightarrow> pc_of d j = pc_of c j) \<and>
    (pc_of d i = PFinished \<longrightarrow> quitflag c) \<and> syncflag d \<in> {syncflag c, 0, int32 (syncflag c + 1)}"
  using assms unfolding thread_step_def loop_point_def
  by (cases "pc_of c i") (auto simp: CORE_IN_MODULE_def split: if_splits)

lemma alone_move:
  assumes "thread_step N v 0 c = Some (a, d)" and "loop_point 0 (pc_of c 0)" and "alone N c" and "bw_target c \<noteq> DDR_BW_AUTOTEST"
  shows "alone N d"
  using assms unfolding thread_step_def loop_point_def alone_def
  by (cases "pc_of c 0") (auto simp: CORE_IN_MODULE_def int32_id split: if_splits)

lemma loop_inv_thread:
  assumes "loop_inv N c" and "thread_step N v i c = Some (a, d)" and "int i < N"
  shows "loop_inv N d"
proof -
  note m = loop_move [OF assms(2)]
  have "alone N d"
  proof (cases "N = 1")
    case True
    then have "i = 0" using assms(3) by simp
    then show ?thesis using assms alone_move by (simp add: loop_inv_def)
  qed (simp add: alone_def)
  moreover have "- (2 ^ 31) \<le> syncflag d \<and> syncflag d < 2 ^ 31"
    using m assms(1) int32_bounds by (auto simp: loop_inv_def)
  moreover have "loop_point j (pc_of d j) \<and> (pc_of d j = PFinished \<longrightarrow> quitflag d)" for j
    using m assms(1) by (cases "j = i") (auto simp: loop_inv_def)
  moreover have "bw_target d \<noteq> DDR_BW_AUTOTEST" using m assms(1) by (auto simp: loop_inv_def)
  ultimately show ?thesis by (simp add: loop_inv_def)
qed

lemma loop_inv_step:
  assumes "cstep N c a d" and "loop_inv N c"
  shows "loop_inv N d"
  using assms
proof (cases rule: cstep.cases)
  case interrupt
  then show ?thesis using assms(2) by (simp add: loop_inv_def alone_def)
qed (metis loop_inv_thread)

lemma loop_inv_run: "crun N c tr d \<Longrightarrow> loop_inv N c \<Longrightarrow> loop_inv N d"
  by (induction rule: crun.induct) (auto intro: loop_inv_step)

text \<open>Thread 1 is never at a wait: it can always report once more.\<close>

lemma free_thread_reports:
  assumes "loop_inv N c" and "\<not> quitflag c" and "2 \<le> N" and "syncflag c < 2 ^ 31 - 1"
  shows "\<exists>tr d. crun N c tr d \<and> syncflag d = syncflag c + 1 \<and> pc_of d 0 = pc_of c 0 \<and> quitflag d = quitflag c"
proof -
  have p: "loop_point 1 (pc_of c 1)" "pc_of c 1 \<noteq> PFinished" "bw_target c \<noteq> DDR_BW_AUTOTEST" "- (2 ^ 31) \<le> syncflag c"
    using assms(1,2) by (auto simp: loop_inv_def)
  have i: "int32 (syncflag c + 1) = syncflag c + 1" using assms(4) p(4) by (simp add: int32_id)
  have "\<exists>k tr d. exec N (replicate k (Thread 1 0)) c = Some (tr, d) \<and> syncflag d = syncflag c + 1 \<and> pc_of d 0 = pc_of c 0 \<and>
      quitflag d = quitflag c"
    using p i assms(2,3)
  proof (cases "pc_of c 1")
    case PStart
    then show ?thesis using p(3) i assms(2,3)
      by (intro exI [of _ "Suc (Suc (Suc (Suc 0)))"]) (simp add: thread_step_def CORE_IN_MODULE_def)
  next
    case PSetup
    then show ?thesis using i assms(2,3) by (intro exI [of _ "Suc (Suc (Suc 0))"]) (simp add: thread_step_def CORE_IN_MODULE_def)
  next
    case PTop
    then show ?thesis using i assms(2,3) by (intro exI [of _ "Suc (Suc 0)"]) (simp add: thread_step_def CORE_IN_MODULE_def)
  next
    case PReport
    then show ?thesis using i assms(2,3) by (intro exI [of _ "Suc 0"]) (simp add: thread_step_def CORE_IN_MODULE_def)
  next
    case PApply
    then show ?thesis using i assms(2,3) by (intro exI [of _ "Suc (Suc (Suc 0))"]) (simp add: thread_step_def CORE_IN_MODULE_def)
  qed (simp_all add: loop_point_def CORE_IN_MODULE_def)
  then show ?thesis by (meson exec_crun)
qed

lemma waiting_master_computes:
  assumes "loop_inv N c" and "\<not> quitflag c" and "2 \<le> N" and "N < 2 ^ 31" and "pc_of c 0 = PWait"
  shows "\<exists>tr d. crun N c tr d \<and> pc_of d 0 = PCompute"
  using assms
proof (induction "nat (N - syncflag c)" arbitrary: c rule: less_induct)
  case less
  show ?case
  proof (cases "N \<le> syncflag c")
    case True
    then have "thread_step N 0 0 c = Some (Silent, goto 0 PCompute c)" using less.prems(5) by (simp add: thread_step_def)
    then show ?thesis using thread [of 0 N 0 c] less.prems(3) by (fastforce intro: crun_single)
  next
    case False
    then have "syncflag c < 2 ^ 31 - 1" using less.prems(4) by simp
    from free_thread_reports [OF less.prems(1-3) this] obtain tr d
      where d: "crun N c tr d" "syncflag d = syncflag c + 1" "pc_of d 0 = PWait" "\<not> quitflag d" using less.prems(2,5) by auto
    then obtain tr' e where "crun N d tr' e" "pc_of e 0 = PCompute"
      using less.hyps [of d] False less.prems(3,4) loop_inv_run [OF d(1) less.prems(1)] by auto
    then show ?thesis using crun_trans d(1) by blast
  qed
qed

lemma master_comes_to_wait:
  assumes "loop_inv N c" and "\<not> quitflag c" and "1 \<le> N"
  shows "\<exists>tr d. crun N c tr d \<and> (pc_of d 0 = PWait \<or> pc_of d 0 = PCompute) \<and> quitflag d = quitflag c"
proof -
  have p: "loop_point 0 (pc_of c 0)" "pc_of c 0 \<noteq> PFinished" "bw_target c \<noteq> DDR_BW_AUTOTEST"
    using assms(1,2) by (auto simp: loop_inv_def)
  have "\<exists>k tr d. exec N (replicate k (Thread 0 0)) c = Some (tr, d) \<and> (pc_of d 0 = PWait \<or> pc_of d 0 = PCompute) \<and>
      quitflag d = quitflag c"
    using p assms(2,3)
  proof (cases "pc_of c 0")
    case PStart
    then show ?thesis using p(3) assms(2,3)
      by (intro exI [of _ "Suc (Suc (Suc (Suc 0)))"]) (simp add: thread_step_def CORE_IN_MODULE_def)
  next
    case PSetup
    then show ?thesis using assms(2,3) by (intro exI [of _ "Suc (Suc (Suc 0))"]) (simp add: thread_step_def CORE_IN_MODULE_def)
  next
    case PTop
    then show ?thesis using assms(2,3) by (intro exI [of _ "Suc (Suc 0)"]) (simp add: thread_step_def CORE_IN_MODULE_def)
  next
    case PReport
    then show ?thesis using assms(2,3) by (intro exI [of _ "Suc 0"]) (simp add: thread_step_def CORE_IN_MODULE_def)
  next
    case PRelease
    then show ?thesis using assms(2,3)
      by (intro exI [of _ "Suc (Suc (Suc (Suc 0)))"]) (simp add: thread_step_def CORE_IN_MODULE_def)
  next
    case PApply
    then show ?thesis using assms(2,3) by (intro exI [of _ "Suc (Suc (Suc 0))"]) (simp add: thread_step_def CORE_IN_MODULE_def)
  qed (auto simp: loop_point_def intro!: exI [of _ 0])
  then show ?thesis by (meson exec_crun)
qed

text \<open>
  Claim C27: the barrier of the main loop cannot get stuck. As long as the program has not been
  interrupted, from every state the threads can reach without the start-up test, the master can
  still reach its calculation, for every number of threads from 1 on; an overflow of the flag by
  the free threads does not change this.
\<close>

theorem calculation_always_reachable:
  assumes "crun N (boot_ctl target) tr c" and "target \<noteq> DDR_BW_AUTOTEST" and "1 \<le> N" and "N < 2 ^ 31" and "\<not> quitflag c"
  shows "\<exists>tr' d. crun N c tr' d \<and> pc_of d 0 = PCompute"
proof -
  have inv: "loop_inv N c" using loop_inv_run [OF assms(1) loop_inv_boot [OF assms(2)]] .
  obtain tr1 d where d: "crun N c tr1 d" "pc_of d 0 = PWait \<or> pc_of d 0 = PCompute" "\<not> quitflag d"
    using master_comes_to_wait [OF inv assms(5,3)] assms(5) by auto
  have invd: "loop_inv N d" using loop_inv_run [OF d(1) inv] .
  have "\<exists>tr2 e. crun N d tr2 e \<and> pc_of e 0 = PCompute"
  proof (cases "pc_of d 0 = PCompute")
    case True
    then show ?thesis using crun_none by blast
  next
    case w: False
    show ?thesis
    proof (cases "2 \<le> N")
      case True
      then show ?thesis using waiting_master_computes [OF invd d(3) _ assms(4)] d(2) w by blast
    next
      case False
      then have "N = 1" using assms(3) by simp
      then have "thread_step N 0 0 d = Some (Silent, goto 0 PCompute d)"
        using invd d(2) w by (simp add: thread_step_def loop_inv_def alone_def)
      then show ?thesis using thread [of 0 N 0 d] \<open>N = 1\<close> by (fastforce intro: crun_single)
    qed
  qed
  then show ?thesis using crun_trans d(1) by blast
qed

lemma demo_run: "exec 8 [Thread 0 0, Thread 4 0, Thread 0 0, Thread 4 0, Thread 4 0, Thread 4 0, Thread 0 0, Thread 0 0] (boot_ctl 20000) =
    Some ([Report 0, Sample 0, Report 4, Sample 4, Init 4, Init 0, Silent, Silent],
      (boot_ctl 20000)\<lparr>pc_of := (\<lambda>_. PStart)(0 := PWait, 4 := PWait), syncflag := 2\<rparr>)"
  by (simp add: boot_ctl_def thread_step_def CORE_IN_MODULE_def const_simps goto_def int32_id fun_upd_twist)

theorem calculation_always_reachable_witness:
  "\<exists>tr' d. crun 8 ((boot_ctl 20000)\<lparr>pc_of := (\<lambda>_. PStart)(0 := PWait, 4 := PWait), syncflag := 2\<rparr>) tr' d \<and> pc_of d 0 = PCompute"
  by (rule calculation_always_reachable [OF exec_crun [OF demo_run]]) (simp_all add: const_simps boot_ctl_def)

section \<open>What the barrier counts\<close>

text \<open>The reports since the last release, latest first.\<close>

definition is_report :: "action \<Rightarrow> bool" where "is_report a = (case a of Report _ \<Rightarrow> True | _ \<Rightarrow> False)"

definition reports :: "action list \<Rightarrow> action list" where
  "reports tr = filter is_report (takeWhile (\<lambda>a. a \<noteq> Release) tr)"

lemma reports_simps [simp]:
  "reports [] = []" "reports (Release # tr) = []" "reports (Report i # tr) = Report i # reports tr"
  "a \<noteq> Release \<Longrightarrow> \<not> is_report a \<Longrightarrow> reports (a # tr) = reports tr"
  by (auto simp: reports_def is_report_def split: action.splits)

lemma int32_Suc: "int32 (int32 i + 1) = int32 (i + 1)" "int32 (1 + int32 i) = int32 (1 + i)"
  by (simp_all add: int32_def)

lemma flag_move:
  assumes "thread_step N v i c = Some (a, d)"
  shows "if a = Release then syncflag d = 0 \<and> pc_of d 0 = PApply
    else if is_report a then syncflag d = int32 (syncflag c + 1) \<and> a = Report i \<and> (i = 0 \<longrightarrow> pc_of d 0 = PWait) \<and>
      (i \<noteq> 0 \<longrightarrow> pc_of d 0 = pc_of c 0)
    else syncflag d = syncflag c \<and> (pc_of d 0 = PWait \<longrightarrow> pc_of c 0 = PWait) \<and>
      (pc_of d 0 = PRelease \<longrightarrow> pc_of c 0 \<in> {PCompute, PRelease}) \<and>
      (pc_of d 0 = PCompute \<longrightarrow> pc_of c 0 = PCompute \<or> pc_of c 0 = PWait \<and> N \<le> syncflag c)"
  using assms unfolding thread_step_def is_report_def
  by (cases "pc_of c i") (auto simp: CORE_IN_MODULE_def split: if_splits)

lemma flag_counts_reports:
  assumes "crun N (boot_ctl target) tr c"
  shows "syncflag c = int32 (int (length (reports tr)))"
  using assms
proof (induction rule: crun.induct)
  case crun_none
  then show ?case by (simp add: boot_ctl_def int32_id)
next
  case (crun_step tr d a e)
  from crun_step.hyps(2) show ?case
  proof (cases rule: cstep.cases)
    case (thread i v)
    then show ?thesis using flag_move [OF thread(2)] crun_step.IH
      by (auto simp: int32_Suc add.commute int32_id split: if_splits)
  next
    case interrupt
    then show ?thesis using crun_step.IH by (simp add: is_report_def)
  qed
qed

definition master_past :: "ctl \<Rightarrow> bool" where
  "master_past c \<longleftrightarrow> pc_of c 0 = PCompute \<or> pc_of c 0 = PRelease"

definition counted :: "int \<Rightarrow> action list \<Rightarrow> ctl \<Rightarrow> bool" where
  "counted N tr c \<longleftrightarrow> (pc_of c 0 = PWait \<or> master_past c \<longrightarrow> Report 0 \<in> set (reports tr)) \<and>
     (master_past c \<and> int (length (reports tr)) < 2 ^ 31 \<longrightarrow> N \<le> int (length (reports tr)))"

lemma counted_move:
  assumes "thread_step N v i c = Some (a, d)" and "counted N tr c" and "syncflag c = int32 (int (length (reports tr)))"
  shows "counted N (a # tr) d"
proof (cases "a = Release \<or> is_report a")
  case True
  then show ?thesis using flag_move [OF assms(1)] assms(2)
    by (cases "i = 0") (auto simp: counted_def master_past_def split: if_splits)
next
  case False
  then show ?thesis using flag_move [OF assms(1)] assms(2,3) int32_id [of "int (length (reports tr))"]
    by (auto simp: counted_def master_past_def)
qed

lemma run_counted:
  assumes "crun N (boot_ctl target) tr c"
  shows "counted N tr c"
  using assms
proof (induction rule: crun.induct)
  case crun_none
  then show ?case by (simp add: counted_def boot_ctl_def master_past_def)
next
  case (crun_step tr d a e)
  from crun_step.hyps(2) show ?case
  proof (cases rule: cstep.cases)
    case (thread i v)
    then show ?thesis using counted_move crun_step.IH flag_counts_reports [OF crun_step.hyps(1)] by blast
  next
    case interrupt
    then show ?thesis using crun_step.IH by (simp add: counted_def master_past_def is_report_def)
  qed
qed

text \<open>
  Claim C28: what the barrier guarantees. Whatever the interleaving, when the master is about to
  calculate, at least as many reports as there are threads have been made since it last released
  the flag, its own among them (as long as the flag has not wrapped around). These need not be the
  reports of different threads.
\<close>

theorem decision_counts_reports:
  assumes "crun N (boot_ctl target) tr c" and "pc_of c 0 = PCompute" and "int (length (reports tr)) < 2 ^ 31"
  shows "N \<le> int (length (reports tr)) \<and> Report 0 \<in> set (reports tr)"
  using run_counted [OF assms(1)] assms(2,3) by (simp add: counted_def master_past_def)

text \<open>Three threads: thread 1 reports twice, and the master calculates before thread 2 has sampled
  its counters for the first time.\<close>

lemma early_decision:
  "exec 3 [Thread 0 0, Thread 0 0, Thread 0 0, Thread 0 0, Thread 1 0, Thread 1 0, Thread 1 0, Thread 1 0, Thread 1 0,
           Thread 1 0, Thread 1 0, Thread 0 0] (boot_ctl 20000) =
    Some ([Silent, Report 1, Sample 1, Apply 1, Report 1, Sample 1, Init 1, Silent, Report 0, Sample 0, Init 0, Silent],
      (boot_ctl 20000)\<lparr>pc_of := (\<lambda>_. PStart)(0 := PCompute, 1 := PApply), syncflag := 3\<rparr>)"
  by (simp add: boot_ctl_def thread_step_def CORE_IN_MODULE_def const_simps goto_def int32_id fun_upd_twist)

theorem decision_counts_reports_witness:
  "\<exists>tr c. crun 3 (boot_ctl 20000) tr c \<and> pc_of c 0 = PCompute \<and> (3 :: int) \<le> int (length (reports tr)) \<and> Sample 2 \<notin> set tr"
proof -
  note r = exec_crun [OF early_decision]
  have h: "(3 :: int) \<le> int (length (reports [Silent, Report 1, Sample 1, Apply 1, Report 1, Sample 1, Init 1, Silent, Report 0,
      Sample 0, Init 0, Silent]))"
    using decision_counts_reports [OF r] by (simp add: is_report_def)
  show ?thesis by (intro exI conjI, rule r) (use h in \<open>simp_all add: boot_ctl_def\<close>)
qed

section \<open>Two ways to hang\<close>

lemma crun_stable:
  assumes "crun N c tr d" and "P c" and "\<And>c i v a d. P c \<Longrightarrow> int i < N \<Longrightarrow> thread_step N v i c = Some (a, d) \<Longrightarrow> P d"
    and "\<And>c. P c \<Longrightarrow> P (c\<lparr>quitflag := True\<rparr>)"
  shows "P d"
  using assms(1,2)
proof (induction rule: crun.induct)
  case (crun_step tr d a e)
  from crun_step.hyps(2) show ?case
    by (cases rule: cstep.cases) (use assms(3,4) crun_step in auto)
qed

definition leaving :: "pc \<Rightarrow> bool" where "leaving p \<longleftrightarrow> p = PStart \<or> p = PSetup \<or> p = PTop \<or> p = PFinished"

definition abandoned :: "int \<Rightarrow> ctl \<Rightarrow> bool" where
  "abandoned N c \<longleftrightarrow> pc_of c 0 = PWait \<and> syncflag c < N \<and> quitflag c \<and> bw_target c \<noteq> DDR_BW_AUTOTEST \<and>
     (\<forall>i. i \<noteq> 0 \<longrightarrow> leaving (pc_of c i))"

lemma abandoned_move:
  assumes "abandoned N c" and "thread_step N v i c = Some (a, d)"
  shows "abandoned N d"
proof -
  have "leaving (pc_of d i) \<and> syncflag d = syncflag c \<and> quitflag d \<and> bw_target d = bw_target c \<and>
      (\<forall>j. j \<noteq> i \<longrightarrow> pc_of d j = pc_of c j)" if "i \<noteq> 0" "leaving (pc_of c i)"
    using that assms by (cases "pc_of c i") (auto simp: abandoned_def thread_step_def leaving_def)
  then show ?thesis using assms by (cases "i = 0") (auto simp: abandoned_def thread_step_def)
qed

text \<open>
  Claim C29: the interrupt can hang the program. With two or more threads there is a run in which
  the master has reported and waits when the signal arrives while the others are at the top of
  their loop: they leave, and the master, which \<open>main\<close> joins, waits forever, because it does not
  look at \<open>quitflag\<close> while it waits.
\<close>

theorem interrupt_can_hang:
  assumes "2 \<le> N" and "target \<noteq> DDR_BW_AUTOTEST"
  shows "\<exists>tr c. crun N (boot_ctl target) tr c \<and> quitflag c \<and> (\<forall>tr' d. crun N c tr' d \<longrightarrow> pc_of d 0 = PWait)"
proof -
  let ?c = "(boot_ctl target)\<lparr>pc_of := (\<lambda>_. PStart)(0 := PWait), syncflag := 1, quitflag := True\<rparr>"
  have r: "exec N [Thread 0 0, Thread 0 0, Thread 0 0, Thread 0 0, Signal] (boot_ctl target) =
      Some ([Interrupt, Report 0, Sample 0, Init 0, Silent], ?c)"
    using assms by (simp add: boot_ctl_def thread_step_def CORE_IN_MODULE_def goto_def int32_id)
  have "abandoned N ?c" using assms by (simp add: abandoned_def boot_ctl_def leaving_def)
  then have h: "abandoned N d" if "crun N ?c tr d" for tr d
    by (rule crun_stable [where P = "abandoned N", OF that]) (erule (1) abandoned_move, simp add: abandoned_def)
  show ?thesis by (intro exI conjI, rule exec_crun [OF r]) (use h in \<open>auto simp: abandoned_def\<close>)
qed

theorem interrupt_can_hang_witness:
  "\<exists>tr c. crun 4 (boot_ctl 20000) tr c \<and> quitflag c \<and> (\<forall>tr' d. crun 4 c tr' d \<longrightarrow> pc_of d 0 = PWait)"
  by (rule interrupt_can_hang) (simp_all add: const_simps)

definition skipped :: "int \<Rightarrow> ctl \<Rightarrow> bool" where
  "skipped N c \<longleftrightarrow> pc_of c 0 = PBwWait \<and> ddrbwflag c < N \<and> bw_target c \<noteq> DDR_BW_AUTOTEST \<and>
     (\<forall>i. i \<noteq> 0 \<longrightarrow> loop_point i (pc_of c i))"

lemma skipped_move:
  assumes "skipped N c" and "thread_step N v i c = Some (a, d)"
  shows "skipped N d"
proof (cases "i = 0")
  case True
  then show ?thesis using assms by (auto simp: skipped_def thread_step_def)
next
  case False
  then have p: "loop_point i (pc_of c i)" "bw_target c \<noteq> DDR_BW_AUTOTEST" using assms(1) by (auto simp: skipped_def)
  have "ddrbwflag d = ddrbwflag c"
    using assms(2) p False by (cases "pc_of c i") (auto simp: thread_step_def loop_point_def split: if_splits)
  then show ?thesis using loop_move [OF assms(2) p] assms(1) False by (auto simp: skipped_def)
qed

text \<open>
  Claim C30: the start-up bandwidth test can hang the program. With two or more threads there is a
  run in which the master resets \<open>ddr_bw_target\<close> before the others have looked at it: they skip the
  test, and the master waits for them forever.
\<close>

theorem bandwidth_test_can_hang:
  assumes "2 \<le> N"
  shows "\<exists>tr c. crun N (boot_ctl DDR_BW_AUTOTEST) tr c \<and> (\<forall>tr' d. crun N c tr' d \<longrightarrow> pc_of d 0 = PBwWait)"
proof -
  let ?c = "(boot_ctl 0)\<lparr>pc_of := (\<lambda>_. PStart)(0 := PBwWait), ddrbwflag := 1\<rparr>"
  have r: "exec N [Thread 0 0, Thread 0 0, Thread 0 0] (boot_ctl DDR_BW_AUTOTEST) = Some ([Silent, Silent, Silent], ?c)"
    using assms by (simp add: boot_ctl_def thread_step_def goto_def int32_id)
  have "skipped N ?c" using assms by (simp add: skipped_def boot_ctl_def const_simps loop_point_def)
  then have h: "skipped N d" if "crun N ?c tr d" for tr d
    by (rule crun_stable [where P = "skipped N", OF that]) (erule (1) skipped_move, simp add: skipped_def)
  show ?thesis by (intro exI conjI, rule exec_crun [OF r]) (use h in \<open>auto simp: skipped_def\<close>)
qed

theorem bandwidth_test_can_hang_witness:
  "\<exists>tr c. crun 4 (boot_ctl DDR_BW_AUTOTEST) tr c \<and> (\<forall>tr' d. crun 4 c tr' d \<longrightarrow> pc_of d 0 = PBwWait)"
  by (rule bandwidth_test_can_hang) simp

section \<open>Registers\<close>

text \<open>The tuners change neither the core a thread belongs to nor the registers.\<close>

definition core_ids :: "'a tuner_scheme \<Rightarrow> int arr" where "core_ids s = (\<lambda>i. t_core_id (gtinfo s i))"

lemma core_ids_simps [simp]:
  "core_ids (upd_mstate f s) = core_ids s" "core_ids (upd_arms g s) = core_ids s" "core_ids (set_num i v s) = core_ids s"
  "core_ids (set_reward i v s) = core_ids s" "core_ids (set_ipc i v s) = core_ids s" "core_ids (discount_nums s) = core_ids s"
  "core_ids (s\<lparr>time_intervall := x\<rparr>) = core_ids s"
  by (simp_all add: core_ids_def upd_mstate_def upd_arms_def set_num_def set_reward_def set_ipc_def discount_nums_def)

lemma setup_arm_core_ids:
  assumes "setup_arm clog r1 r2 n u s = Some t"
  shows "core_ids t = core_ids s"
proof -
  obtain q arm v x where x: "set_msrs (ms_arm (mstate s)) (upd_mstate (\<lambda>m. m\<lparr>ms_arm := arm, ms_iterations := ms_iterations m + 1\<rparr>) s) = Some x"
      "u = Some v" "update_selections v x = Some t"
    using assms by (auto simp: setup_arm_def Let_def split: bind_splits)
  have "core_ids x = core_ids (upd_mstate (\<lambda>m. m\<lparr>ms_arm := arm, ms_iterations := ms_iterations m + 1\<rparr>) s)"
    using x(1) by (auto simp: set_msrs_def core_ids_def fun_eq_iff split: if_splits)
  moreover have "core_ids t = core_ids x"
    using x(3) by (cases v) (auto simp: update_selections_rr_def update_selections_increment_def
        update_selections_discounted_def update_selections_none_def Let_def split: bind_splits if_splits)
  ultimately show ?thesis by simp
qed

lemma reward_core_ids: "get_reward a s = Some (v, t) \<Longrightarrow> core_ids t = core_ids s"
  by (auto simp: get_reward_def Let_def split: if_splits)

lemma evaluate_arm_core_ids: "evaluate_arm f s = Some t \<Longrightarrow> core_ids t = core_ids s"
  by (cases f) (auto simp: evaluate_arm_def update_reward_def Let_def split: bind_splits dest: reward_core_ids)

lemma normalise_core_ids: "normalise_rewards s = Some t \<Longrightarrow> core_ids t = core_ids s"
  by (auto simp: normalise_rewards_def Let_def split: if_splits)

lemma check_core_ids: "check_dynamic_sd s = Some (b, t) \<Longrightarrow> core_ids t = core_ids s"
  by (auto simp: check_dynamic_sd_def update_and_fetch_sd_mean_def update_ipc_window_def update_sd_window_def Let_def
      split: bind_splits if_splits)

lemma mab_core_ids:
  assumes "mab clog r1 r2 s = Some t"
  shows "core_ids t = core_ids s"
proof -
  have phases: "core_ids y = core_ids x"
    if "mab_round_robin clog r1 r2 x = Some y \<or> mab_transition clog r1 r2 x = Some y \<or> mab_main_loop clog r1 r2 x = Some y" for x y
    using that by (auto simp: mab_round_robin_def mab_transition_def mab_main_loop_def split: bind_splits if_splits
        dest!: setup_arm_core_ids evaluate_arm_core_ids normalise_core_ids)
  show ?thesis using assms
    by (auto simp: mab_def split: bind_splits if_splits
        dest!: check_core_ids setup_arm_core_ids normalise_core_ids phases [OF disjI1] phases [OF disjI2 [OF disjI1]] phases [OF disjI2 [OF disjI2]])
qed

lemma for_from_keeps:
  "for_from n i f s = Some t \<Longrightarrow> (\<And>i x y. f i x = Some y \<Longrightarrow> g y = g x) \<Longrightarrow> g t = g s"
proof (induction n arbitrary: i s)
  case (Suc n)
  then obtain u where u: "f i s = Some u" "for_from n (i + 1) f u = Some t" by (auto split: bind_splits)
  have "g t = g u" using Suc.IH [OF u(2) Suc.prems(2)] .
  then show ?case using Suc.prems(2) [OF u(1)] by simp
qed simp

lemma retune_core_id: "retune getter setter hi aggr factor t = Some u \<Longrightarrow> t_core_id u = t_core_id t"
  by (auto simp: retune_def Let_def split: bind_splits if_splits)

definition tuner_frame :: "prim \<Rightarrow> int arr \<times> rdt_state \<times> bool" where
  "tuner_frame s = (core_ids s, p_rdt s, p_rdt_enabled s)"

lemma all_cores_frame:
  assumes "all_cores f (s :: prim) = Some t" and "\<And>x y. f x = Some y \<Longrightarrow> t_core_id y = t_core_id x"
  shows "tuner_frame t = tuner_frame s"
proof -
  have "tuner_frame y = tuner_frame x"
    if h: "do { t \<leftarrow> aget MAX_THREADS (gtinfo x) i; t \<leftarrow> f t; Some (x\<lparr>gtinfo := (gtinfo x)(nat i := t)\<rparr>) } = Some y" for i x y
  proof -
    obtain u where u: "f (gtinfo x (nat i)) = Some u" "y = x\<lparr>gtinfo := (gtinfo x)(nat i := u)\<rparr>"
      using h by (auto simp: aget_def split: bind_splits if_splits)
    then show ?thesis using assms(2) [OF u(1)] by (auto simp: tuner_frame_def core_ids_def fun_eq_iff)
  qed
  with assms(1) show ?thesis unfolding all_cores_def for_range_def by (rule for_from_keeps)
qed

lemma basicalg_frame:
  assumes "basicalg e alg s = Ret t" and "\<not> p_rdt_enabled s"
  shows "tuner_frame t = tuner_frame s"
proof -
  have cores: "tuner_frame y = tuner_frame x" if "all_cores (alg0_core g p) x = Some y \<or> all_cores (alg1_core g p) x = Some y"
    for x y :: prim and g p
    using that by (auto simp: alg0_core_def alg1_core_def split: bind_splits elim!: all_cores_frame dest!: retune_core_id)
  have ret: "of_option z = Ret y \<longleftrightarrow> z = Some y" for z and y :: prim by (simp add: of_option_def split: option.splits)
  obtain rd wr u where g: "grab_bandwidth e s = Ret (rd, wr, u)" using assms(1)
    by (cases "grab_bandwidth e s") (auto simp: basicalg_def)
  have "tuner_frame u = tuner_frame s"
    using g assms(2) by (auto simp: grab_bandwidth_def of_option_def tuner_frame_def core_ids_def split: option.splits)
  moreover have "tuner_frame (u\<lparr>p_time_old := x\<rparr>) = tuner_frame u" for x by (simp add: tuner_frame_def core_ids_def)
  ultimately show ?thesis
    using assms(1) cores g by (auto simp: basicalg_def Let_def ret split: if_splits dest!: cores [OF disjI1] cores [OF disjI2])
qed

lemma calculate_frame:
  assumes "calculate_settings e alg s = Ret t" and "\<not> p_rdt_enabled s"
  shows "tuner_frame t = tuner_frame s"
proof (cases "alg = MAB_ALG")
  case True
  then obtain u where u: "mab (te_log e) (te_r1 e) (te_r2 e) (tuner.truncate s) = Some u" "t = tuner.extend u (tuner.more s)"
    using assms(1) by (auto simp: calculate_settings_def const_simps of_option_def split: option.splits)
  have "core_ids u = core_ids (tuner.truncate s)" using mab_core_ids [OF u(1)] .
  then show ?thesis using u(2) by (cases s) (simp add: tuner_frame_def core_ids_def tuner.defs)
next
  case False
  then show ?thesis using assms basicalg_frame by (auto simp: calculate_settings_def split: if_splits)
qed

lemma obind_eq_Ret: "obind m k = Ret y \<longleftrightarrow> (\<exists>x. m = Ret x \<and> k x = Ret y)"
  by (cases m) auto

lemma pwrite_all_same:
  "pwrite_all os fd ws s = (r, s') \<Longrightarrow> \<forall>(a, v) \<in> set ws. regs s (os_fd_core os fd) a = v \<Longrightarrow> regs s' = regs s"
proof (induction os fd ws s rule: pwrite_all.induct)
  case (2 os fd a v ws s)
  show ?case
  proof (cases "pwrite8 os s fd a v")
    case (Some u)
    then have "regs u = regs s" using 2(3) by (auto simp: pwrite8_def fun_upd_idem split: if_splits)
    then show ?thesis using 2(1) [OF Some] 2(2,3) Some by simp
  qed (use 2 in simp)
qed simp

lemma pread_all_hwpf_eval:
  assumes "pread_all os fd (map (\<lambda>i. (i, HWPF_MSR_BASE + i)) [0..<HWPF_MSR_FIELDS - 1]) s m = Ret m'"
    and "pread_all os fd [(HWPF_MSR_FIELDS - 1, HWPF_MSR_0X1A4)] s' m' = Ret m''" and "regs s' = regs s"
  shows "\<forall>(a, v) \<in> set (hwpf_writes m''). regs s (os_fd_core os fd) a = v"
  using assms by (auto simp: hwpf_writes_eval const_simps upt_5 pread8_def split: if_splits)

lemma msr_init_effect:
  assumes "msr_init os core msr s = Ret (fd, m, s')"
  shows "0 \<le> core \<and> regs s' = regs s \<and> (let fid = msr_file_id s (nat core) in fd = (if fid \<noteq> 0 then fid else os_open os core)) \<and>
    (msr_file_id s (nat core) = 0 \<longrightarrow> 0 \<le> fd) \<and> msr_file_id s' = (msr_file_id s)(nat core := fd) \<and>
    (\<forall>(a, v) \<in> set (hwpf_writes m). regs s (os_fd_core os fd) a = v)"
proof -
  let ?open = "if msr_file_id s (nat core) \<noteq> 0 then Ret (msr_file_id s (nat core)) else msr_open os core"
  have r: "0 \<le> core" "core < MAX_NUM_CORES" using assms by (auto simp: msr_init_def aget_def split: if_splits)
  then have "\<exists>m1. ?open = Ret fd \<and> pread_all os fd (map (\<lambda>i. (i, HWPF_MSR_BASE + i)) [0..<HWPF_MSR_FIELDS - 1]) s msr = Ret m1 \<and>
      s' = s\<lparr>msr_file_id := (msr_file_id s)(nat core := fd)\<rparr> \<and>
      pread_all os fd [(HWPF_MSR_FIELDS - 1, HWPF_MSR_0X1A4)] s' m1 = Ret m"
    using assms by (auto simp: msr_init_def aget_def Let_def obind_eq_Ret simp del: pread_all.simps)
  then obtain m1 where c: "?open = Ret fd" "pread_all os fd (map (\<lambda>i. (i, HWPF_MSR_BASE + i)) [0..<HWPF_MSR_FIELDS - 1]) s msr = Ret m1"
      "s' = s\<lparr>msr_file_id := (msr_file_id s)(nat core := fd)\<rparr>"
      "pread_all os fd [(HWPF_MSR_FIELDS - 1, HWPF_MSR_0X1A4)] s' m1 = Ret m" by blast
  then show ?thesis using pread_all_hwpf_eval [OF c(2,4)] r(1) by (auto simp: msr_open_def Let_def split: if_splits)
qed

text \<open>A list of writes to other registers leaves the prefetch registers alone.\<close>

definition same_prefetch :: "msr_sys \<Rightarrow> msr_sys \<Rightarrow> bool" where
  "same_prefetch m m' \<longleftrightarrow> msr_file_id m' = msr_file_id m \<and> (\<forall>k. \<forall>a \<in> hwpf_registers. regs m' k a = regs m k a)"

lemma same_prefetch_refl: "same_prefetch m m"
  by (simp add: same_prefetch_def)

lemma same_prefetch_trans: "same_prefetch m m' \<Longrightarrow> same_prefetch m' m'' \<Longrightarrow> same_prefetch m m''"
  by (simp add: same_prefetch_def)

lemma writes_elsewhere:
  assumes "pwrite_all os fd ws m = (r, m')" and "fst ` set ws \<inter> hwpf_registers = {}"
  shows "same_prefetch m m'"
  unfolding same_prefetch_def
proof (intro conjI allI ballI)
  show "msr_file_id m' = msr_file_id m" using pwrite_all_file_id [OF assms(1)] .
  fix k a assume "a \<in> hwpf_registers"
  then show "regs m' k a = regs m k a" using pwrite_all_frame [OF assms(1)] assms(2) by blast
qed

lemma enable_fixed_elsewhere: "msr_enable_fixed os fd m = (r, m') \<Longrightarrow> same_prefetch m m'"
  unfolding msr_enable_fixed_def by (erule writes_elsewhere) (simp add: const_simps hwpf_registers_def)

lemma corepmu_setup_elsewhere:
  assumes "msr_corepmu_setup os fd n ev m = Ret (r, m')"
  shows "same_prefetch m m'"
proof -
  have "n \<le> 7" "pwrite_all os fd (map (\<lambda>i. (PMU_PERFEVTSEL0 + i, ev i)) [0..<nat n]) m = (r, m')"
    using assms by (auto simp: msr_corepmu_setup_def const_simps split: if_splits)
  then show ?thesis by (intro writes_elsewhere) (auto simp: const_simps hwpf_registers_def)
qed

lemma core_config_elsewhere:
  assumes "pmu_core_config os fd m = Ret (r, m')"
  shows "same_prefetch m m'"
proof -
  obtain r1 m1 r2 m2 r3 where c: "msr_corepmu_setup os fd PMU_COUNTERS (\<lambda>_. 0) m = Ret (r1, m1)"
      "pwrite_all os fd (map (\<lambda>i. (PMU_PMC0 + i, 0)) [0..<nat PMU_COUNTERS]) m1 = (r2, m2)"
      "msr_corepmu_setup os fd (int PMU_CORE_EVENT_COUNT) core_events m2 = Ret (r3, m')"
    using assms by (auto simp: pmu_core_config_def pmu_core_clear_def obind_eq_Ret split: prod.splits)
  have "same_prefetch m1 m2" by (rule writes_elsewhere [OF c(2)]) (auto simp: const_simps hwpf_registers_def)
  then show ?thesis
    using corepmu_setup_elsewhere [OF c(1)] corepmu_setup_elsewhere [OF c(3)] same_prefetch_trans by blast
qed

lemma prefetch_rewritten:
  assumes "msr_init os core msr s = Ret (fd, m, s')" and "msr_hwpf_write os fd m s' = (r, s'')"
  shows "regs s'' = regs s \<and> msr_file_id s'' = msr_file_id s'"
  using msr_init_effect [OF assms(1)] pwrite_all_same [of os fd "hwpf_writes m" s' r s''] pwrite_all_file_id [of os fd "hwpf_writes m" s' r s'']
    assms(2) by (simp add: msr_hwpf_write_def)

lemma d_simps [simp]:
  "d_msr (set_msr m d) = m" "d_msr (set_thread i t d) = d_msr d" "d_msr (set_local i l d) = d_msr d"
  "d_msr (d\<lparr>d_open_events := x\<rparr>) = d_msr d"
  "d_locals (set_msr m d) = d_locals d" "d_locals (set_thread i t d) = d_locals d" "d_locals (set_local i l d) = (d_locals d)(i := l)"
  "p_rdt_enabled (d_prim (set_msr m d)) = p_rdt_enabled (d_prim d)" "p_rdt_enabled (d_prim (set_thread i t d)) = p_rdt_enabled (d_prim d)"
  "d_prim (set_local i l d) = d_prim d" "core_ids (d_prim (set_msr m d)) = core_ids (d_prim d)"
  "core_ids (d_prim (set_thread i t d)) = (core_ids (d_prim d))(i := t_core_id t)"
  by (auto simp: d_msr_def set_msr_def set_thread_def set_local_def core_ids_def fun_eq_iff)

lemma core_ids_idem: "(core_ids s)(i := t_core_id (gtinfo s i)) = core_ids s"
  by (simp add: core_ids_def fun_upd_idem)

text \<open>Setting up thread \<open>i\<close>: the prefetch registers are read and written back, the descriptor of its
  core is remembered, and nothing else of interest changes.\<close>

lemma setup_effect:
  assumes "thread_setup e opt i d = Ret d'"
  shows "\<exists>core fd. core = core_ids (d_prim d) i \<and> 0 \<le> core \<and>
    (let fid = msr_file_id (d_msr d) (nat core) in fd = (if fid \<noteq> 0 then fid else os_open (te_os e) core) \<and> (fid = 0 \<longrightarrow> 0 \<le> fd)) \<and>
    msr_file_id (d_msr d') = (msr_file_id (d_msr d))(nat core := fd) \<and>
    (\<forall>k. \<forall>a \<in> hwpf_registers. regs (d_msr d') k a = regs (d_msr d) k a) \<and>
    (\<forall>j. l_msr_file (d_locals d' j) = (if j = i then fd else l_msr_file (d_locals d j))) \<and>
    core_ids (d_prim d') = core_ids (d_prim d) \<and> p_rdt_enabled (d_prim d') = p_rdt_enabled (d_prim d)"
proof -
  let ?t = "gtinfo (d_prim d) i" and ?os = "te_os e"
  obtain fd msr m0 where i: "msr_init ?os (t_core_id ?t) (t_msr_value ?t) (d_msr d) = Ret (fd, msr, m0)"
    using assms by (auto simp: thread_setup_def Let_def obind_eq_Ret)
  obtain r1 m1 where w: "msr_hwpf_write ?os fd msr m0 = (r1, m1)" by fastforce
  obtain r2 m2 where f: "msr_enable_fixed ?os fd m1 = (r2, m2)" by fastforce
  have "\<exists>m3. same_prefetch m2 m3 \<and> d_msr d' = m3 \<and> d_locals d' = (d_locals d)(i := d_locals d' i) \<and> l_msr_file (d_locals d' i) = fd \<and>
      core_ids (d_prim d') = core_ids (d_prim d) \<and> p_rdt_enabled (d_prim d') = p_rdt_enabled (d_prim d)"
  proof (cases "o_pmu_perf opt")
    case True
    then show ?thesis using assms
      by (auto simp: thread_setup_def Let_def i w f obind_eq_Ret core_ids_idem same_prefetch_refl)
  next
    case False
    then obtain r3 m3 where "pmu_core_config ?os fd m2 = Ret (r3, m3)"
        "d' = set_local i ((d_locals d i)\<lparr>l_msr_file := fd\<rparr>) (set_msr m3 (set_thread i (?t\<lparr>t_msr_value := msr\<rparr>) d))"
      using assms by (auto simp: thread_setup_def Let_def i w f obind_eq_Ret)
    then show ?thesis using core_config_elsewhere by (auto simp: core_ids_idem)
  qed
  then obtain m3 where e: "same_prefetch m2 m3" "d_msr d' = m3" "d_locals d' = (d_locals d)(i := d_locals d' i)" "l_msr_file (d_locals d' i) = fd"
      "core_ids (d_prim d') = core_ids (d_prim d)" "p_rdt_enabled (d_prim d') = p_rdt_enabled (d_prim d)" by blast
  have l: "l_msr_file (d_locals d' j) = (if j = i then fd else l_msr_file (d_locals d j))" for j
    using e(4) fun_cong [OF e(3), of j] by auto
  have m: "same_prefetch m1 m3" using enable_fixed_elsewhere [OF f] e(1) same_prefetch_trans by blast
  note eff = msr_init_effect [OF i]
  have g: "msr_file_id m3 = (msr_file_id (d_msr d))(nat (t_core_id ?t) := fd) \<and> (\<forall>k. \<forall>a \<in> hwpf_registers. regs m3 k a = regs (d_msr d) k a)"
    using m prefetch_rewritten [OF i w] eff unfolding same_prefetch_def by simp
  show ?thesis
    by (rule exI [of _ "t_core_id ?t"], rule exI [of _ fd]) (use eff g l e in \<open>auto simp: core_ids_def Let_def\<close>)
qed

section \<open>Only the leaders change registers\<close>

definition set_up_point :: "pc \<Rightarrow> bool" where
  "set_up_point p \<longleftrightarrow> p \<in> {PTop, PReport, PWait, PCompute, PRelease, PApply, PFinished}"

lemma step_action:
  assumes "thread_step N v i c = Some (a, c')"
  shows "(\<forall>j. j \<noteq> i \<longrightarrow> pc_of c' j = pc_of c j) \<and> (set_up_point (pc_of c' i) \<longrightarrow> set_up_point (pc_of c i) \<or> a = Init i) \<and>
    (\<forall>j. a = Init j \<or> a = Sample j \<or> a = Apply j \<or> a = Close j \<longrightarrow> j = i) \<and> (a = Apply i \<longrightarrow> pc_of c i = PApply) \<and> a \<noteq> Interrupt"
  using assms unfolding thread_step_def set_up_point_def
  by (cases "pc_of c i") (auto split: if_splits)

text \<open>What holds throughout a run without RDT: the threads keep their cores, descriptors belong to
  the cores they are used for, and the prefetch registers of core \<open>k\<close> are as in \<open>m\<close>.\<close>

definition reg_inv :: "int \<Rightarrow> (int \<Rightarrow> int) \<Rightarrow> int \<Rightarrow> int \<Rightarrow> msr_sys \<Rightarrow> ctl \<times> tdata \<Rightarrow> bool" where
  "reg_inv N owner first k m = (\<lambda>(c, d).
     \<not> p_rdt_enabled (d_prim d) \<and> (\<forall>i. int i < N \<longrightarrow> core_ids (d_prim d) i = first + int i) \<and>
     (\<forall>n. msr_file_id (d_msr d) n \<noteq> 0 \<longrightarrow> owner (msr_file_id (d_msr d) n) = int n) \<and>
     (\<forall>i. int i < N \<and> set_up_point (pc_of c i) \<longrightarrow> owner (l_msr_file (d_locals d i)) = first + int i) \<and>
     (\<forall>a \<in> hwpf_registers. regs (d_msr d) k a = regs m k a))"

text \<open>An action that keeps the descriptors, the cores and the registers keeps the invariant.\<close>

definition data_frame :: "int \<Rightarrow> tdata \<Rightarrow> tdata \<Rightarrow> bool" where
  "data_frame k d d' \<longleftrightarrow> p_rdt_enabled (d_prim d') = p_rdt_enabled (d_prim d) \<and> core_ids (d_prim d') = core_ids (d_prim d) \<and>
     msr_file_id (d_msr d') = msr_file_id (d_msr d) \<and> (\<forall>i. l_msr_file (d_locals d' i) = l_msr_file (d_locals d i)) \<and>
     (\<forall>a \<in> hwpf_registers. regs (d_msr d') k a = regs (d_msr d) k a)"

lemma reg_inv_frame:
  assumes "reg_inv N owner first k m (c, d)" and "data_frame k d d'" and "\<And>i. set_up_point (pc_of c' i) \<Longrightarrow> set_up_point (pc_of c i)"
  shows "reg_inv N owner first k m (c', d')"
  using assms by (simp add: reg_inv_def data_frame_def)

lemma sample_frame: "thread_sample e opt i d = Ret d' \<Longrightarrow> data_frame k d d'"
  by (auto simp: thread_sample_def Let_def obind_eq_Ret data_frame_def core_ids_idem split: if_splits)

lemma calculate_data_frame:
  assumes "perform e opt (Calculate target) d = Ret d'" and "\<not> p_rdt_enabled (d_prim d)"
  shows "data_frame k d d'"
proof -
  obtain s where s: "calculate_settings e (o_tunealg opt) ((d_prim d)\<lparr>p_ddr_bw_target := target\<rparr>) = Ret s" "d' = d\<lparr>d_prim := s\<rparr>"
    using assms(1) by (auto simp: perform_def obind_eq_Ret)
  have "tuner_frame s = tuner_frame ((d_prim d)\<lparr>p_ddr_bw_target := target\<rparr>)" using calculate_frame [OF s(1)] assms(2) by simp
  then show ?thesis using s(2) by (simp add: data_frame_def tuner_frame_def core_ids_def d_msr_def fun_eq_iff)
qed

lemma interrupt_frame:
  assumes "sigintHandler e opt d = Ret d'" and "\<not> p_rdt_enabled (d_prim d)"
  shows "data_frame k d d'"
  using assms by (auto simp: sigintHandler_def Let_def data_frame_def core_ids_def d_msr_def split: if_splits)

lemma close_frame: "thread_close opt i d = Ret d' \<Longrightarrow> data_frame k d d'"
  by (auto simp: thread_close_def obind_eq_Ret data_frame_def d_msr_def split: if_splits)

lemma apply_frame:
  assumes "thread_apply e opt i d = Ret d'" and "CORE_IN_MODULE i = 0 \<Longrightarrow> os_fd_core (te_os e) (l_msr_file (d_locals d i)) \<noteq> k"
  shows "data_frame k d d'"
proof (cases "CORE_IN_MODULE i = 0 \<and> t_msr_dirty (gtinfo (d_prim d) i)")
  case True
  define vals where "vals = (if o_tunealg opt = MAB_ALG then arm_msr_values (arms (d_prim d)) (ms_arm (mstate (d_prim d)))
    else t_msr_value (gtinfo (d_prim d) i))"
  obtain r m where m: "msr_hwpf_write (te_os e) (l_msr_file (d_locals d i)) vals (d_msr d) = (r, m)" by fastforce
  then have "d' = set_msr m (set_thread i ((gtinfo (d_prim d) i)\<lparr>t_msr_dirty := False\<rparr>) d)"
    using assms(1) True by (auto simp: thread_apply_def Let_def vals_def split: if_splits)
  then show ?thesis using hwpf_write_frame [OF m, of k] assms(2) True by (auto simp: data_frame_def core_ids_idem)
qed (use assms(1) in \<open>auto simp: thread_apply_def data_frame_def\<close>)

text \<open>The device: a descriptor opened for a core belongs to that core.\<close>

definition device_ok :: "tenv set \<Rightarrow> (int \<Rightarrow> int) \<Rightarrow> bool" where
  "device_ok E owner \<longleftrightarrow> (\<forall>e \<in> E. os_fd_core (te_os e) = owner \<and> (\<forall>k. 0 \<le> os_open (te_os e) k \<longrightarrow> owner (os_open (te_os e) k) = k))"

lemma reg_inv_setup:
  assumes "reg_inv N owner first k m (c, d)" and "device_ok E owner" and "e \<in> E" and "int i < N" and "thread_setup e opt i d = Ret d'"
    and "\<And>j. j \<noteq> i \<Longrightarrow> pc_of c' j = pc_of c j"
  shows "reg_inv N owner first k m (c', d')"
proof -
  obtain core fd where s: "core = core_ids (d_prim d) i" "0 \<le> core"
      "fd = (if msr_file_id (d_msr d) (nat core) \<noteq> 0 then msr_file_id (d_msr d) (nat core) else os_open (te_os e) core)"
      "msr_file_id (d_msr d) (nat core) = 0 \<longrightarrow> 0 \<le> fd"
      "msr_file_id (d_msr d') = (msr_file_id (d_msr d))(nat core := fd)"
      "\<And>k a. a \<in> hwpf_registers \<Longrightarrow> regs (d_msr d') k a = regs (d_msr d) k a"
      "\<And>j. l_msr_file (d_locals d' j) = (if j = i then fd else l_msr_file (d_locals d j))"
      "core_ids (d_prim d') = core_ids (d_prim d)" "p_rdt_enabled (d_prim d') = p_rdt_enabled (d_prim d)"
    using setup_effect [OF assms(5)] unfolding Let_def by blast
  have "owner fd = core"
  proof (cases "msr_file_id (d_msr d) (nat core) = 0")
    case True
    then have "0 \<le> os_open (te_os e) core" "fd = os_open (te_os e) core" using s(3,4) by simp_all
    then show ?thesis using assms(2,3) by (simp add: device_ok_def)
  next
    case False
    then have "owner (msr_file_id (d_msr d) (nat core)) = int (nat core)" using assms(1) by (simp add: reg_inv_def)
    then show ?thesis using False s(2,3) by simp
  qed
  note r = assms(1) [unfolded reg_inv_def prod.case]
  have c: "core = first + int i" using r s(1) assms(4) by simp
  have "msr_file_id (d_msr d') n \<noteq> 0 \<longrightarrow> owner (msr_file_id (d_msr d') n) = int n" for n
    using r \<open>owner fd = core\<close> s(2,5) by (cases "n = nat core") simp_all
  moreover have "int j < N \<and> set_up_point (pc_of c' j) \<longrightarrow> owner (l_msr_file (d_locals d' j)) = first + int j" for j
    using r \<open>owner fd = core\<close> s(7) c assms(6) by (cases "j = i") simp_all
  ultimately show ?thesis using r s(6,8,9) by (simp add: reg_inv_def)
qed

lemma reg_inv_act:
  assumes "reg_inv N owner first k m (c, d)" and "device_ok E owner" and "e \<in> E" and "cstep N c a c'" and "perform e opt a d = Ret d'"
    and "\<And>i. CORE_IN_MODULE i = 0 \<Longrightarrow> first + int i \<noteq> k"
  shows "reg_inv N owner first k m (c', d')"
  using assms(4)
proof (cases rule: cstep.cases)
  case (thread i v)
  have rdt: "\<not> p_rdt_enabled (d_prim d)" using assms(1) by (simp add: reg_inv_def)
  note act = step_action [OF thread(2)]
  show ?thesis
  proof (cases "a = Init i")
    case True
    then have "thread_setup e opt i d = Ret d'" using assms(5) by (simp add: perform_def split: if_splits)
    then show ?thesis by (rule reg_inv_setup [OF assms(1-3) thread(1)]) (use act in blast)
  next
    case False
    have fd: "os_fd_core (te_os e) (l_msr_file (d_locals d i)) \<noteq> k" if "a = Apply i" "CORE_IN_MODULE i = 0"
    proof -
      have "pc_of c i = PApply" using act that(1) by blast
      then have "set_up_point (pc_of c i)" by (simp add: set_up_point_def)
      then have "owner (l_msr_file (d_locals d i)) = first + int i" using assms(1) thread(1) by (simp add: reg_inv_def)
      then show ?thesis using assms(2,3) assms(6) [OF that(2)] by (simp add: device_ok_def)
    qed
    have p: "perform e opt a d = Ret d'" by fact
    have "data_frame k d d'"
    proof (cases a)
      case (Sample j)
      then show ?thesis using p sample_frame by (auto simp: perform_def split: if_splits)
    next
      case (Apply j)
      then have j: "j = i" using act by blast
      then have "thread_apply e opt i d = Ret d'" using p Apply by (simp add: perform_def split: if_splits)
      then show ?thesis by (rule apply_frame) (use fd Apply j in simp)
    next
      case (Calculate x)
      then show ?thesis using p calculate_data_frame [OF _ rdt] by blast
    next
      case (Close j)
      then show ?thesis using p close_frame by (auto simp: perform_def)
    next
      case (Init j)
      then have "a = Init i" using act by blast
      then show ?thesis using False by simp
    next
      case Interrupt
      then show ?thesis using act by blast
    qed (use p in \<open>simp_all add: perform_def data_frame_def\<close>)
    then show ?thesis using False act by (intro reg_inv_frame [OF assms(1)]) metis+
  qed
next
  case interrupt
  then show ?thesis using assms(1,5) interrupt_frame by (intro reg_inv_frame [OF assms(1)]) (auto simp: perform_def reg_inv_def)
qed

text \<open>
  Only the first core of a module is ever retuned. In every run of the threads, whatever
  the interleaving, with every tuning algorithm and whatever register accesses fail, the prefetch
  registers of a core that is not the first of its module of four keep the values they had at
  the start (measuring with the memory controllers, not with RDT).
\<close>

theorem only_leaders_retuned:
  assumes "(dstep E opt N)\<^sup>*\<^sup>* (boot_ctl target, d) (c', d')" and "device_ok E owner"
    and "\<And>i. int i < N \<Longrightarrow> core_ids (d_prim d) i = first + int i" and "msr_file_id (d_msr d) = (\<lambda>_. 0)" and "\<not> p_rdt_enabled (d_prim d)"
    and "\<And>i. CORE_IN_MODULE i = 0 \<Longrightarrow> first + int i \<noteq> k" and "a \<in> hwpf_registers"
  shows "regs (d_msr d') k a = regs (d_msr d) k a"
proof -
  have b: "reg_inv N owner first k (d_msr d) (boot_ctl target, d)"
    using assms(3-5) by (simp add: reg_inv_def boot_ctl_def set_up_point_def)
  from assms(1) have "reg_inv N owner first k (d_msr d) (c', d')"
  proof (induction rule: rtranclp_induct2)
    case refl
    show ?case by (rule b)
  next
    case (step c1 d1 c2 d2)
    from step(2) show ?case
    proof (cases rule: dstep.cases)
      case (act a e)
      then show ?thesis using reg_inv_act [OF step(3) assms(2) act(2,1,3) assms(6)] by simp
    next
      case (hardware m)
      then have "data_frame k d1 d2" by (simp add: data_frame_def)
      with step(3) show ?thesis by (rule reg_inv_frame) (simp add: hardware)
    qed
  qed
  then show ?thesis using assms(7) by (simp add: reg_inv_def)
qed

definition demo_tenv :: tenv where
  "demo_tenv = \<lparr>te_os = demo_os, te_perf = \<lparr>perf_open = (\<lambda>_. -1), perf_enable_ok = (\<lambda>_. False), perf_read_ok = (\<lambda>_. False), perf_value = (\<lambda>_. 0)\<rparr>,
     te_penv = demo_penv, te_log = id, te_r1 = 0, te_r2 = 0\<rparr>"

definition demo_tdata :: tdata where
  "demo_tdata = \<lparr>d_prim = demo_prim\<lparr>gtinfo := (\<lambda>i. (gtinfo demo_prim i)\<lparr>t_core_id := 8 + int i\<rparr>), p_rdt_enabled := False,
       p_rdt := (p_rdt demo_prim)\<lparr>rdt_sys := \<lparr>msr_file_id = (\<lambda>_. 0), regs = (\<lambda>_ _. 7)\<rparr>\<rparr>\<rparr>,
     d_locals = (\<lambda>_. \<lparr>l_msr_file = 0, l_pmu_new = (\<lambda>_. 0), l_instructions_new = 0, l_cpu_cycles_new = 0, l_event_fds = (\<lambda>_. -1)\<rparr>),
     d_open_events = {}\<rparr>"

definition demo_toptions :: toptions where
  "demo_toptions = \<lparr>o_tunealg = 0, o_pmu_perf = True, o_num_events = 0\<rparr>"

lemma demo_setup: "\<exists>d'. thread_setup demo_tenv demo_toptions 0 demo_tdata = Ret d'"
  by (simp add: thread_setup_def Let_def demo_tenv_def demo_toptions_def demo_tdata_def demo_os_def msr_init_def aget_def d_msr_def
      msr_open_def const_simps upt_5 pread8_def perf_init_def of_option_def split: prod.splits)

theorem only_leaders_retuned_witness:
  "\<exists>d'. (dstep {demo_tenv} demo_toptions 4)\<^sup>*\<^sup>* (boot_ctl 20000, demo_tdata) (goto 0 PTop (boot_ctl 20000), d') \<and> regs (d_msr d') 9 0x1320 = 7"
proof -
  obtain d' where d: "thread_setup demo_tenv demo_toptions 0 demo_tdata = Ret d'" using demo_setup by blast
  have c: "cstep 4 (boot_ctl 20000) Silent (goto 0 PSetup (boot_ctl 20000))" "cstep 4 (goto 0 PSetup (boot_ctl 20000)) (Init 0) (goto 0 PTop (boot_ctl 20000))"
    by (rule thread [of 0 _ 0]; simp add: thread_step_def boot_ctl_def goto_def const_simps)+
  have p: "perform demo_tenv demo_toptions Silent demo_tdata = Ret demo_tdata" "perform demo_tenv demo_toptions (Init 0) demo_tdata = Ret d'"
    using d by (simp_all add: perform_def const_simps)
  have r: "(dstep {demo_tenv} demo_toptions 4)\<^sup>*\<^sup>* (boot_ctl 20000, demo_tdata) (goto 0 PTop (boot_ctl 20000), d')"
    by (rule rtranclp.rtrancl_into_rtrancl [OF r_into_rtranclp [of "dstep {demo_tenv} demo_toptions 4", OF act [OF c(1) singletonI p(1)]] act [OF c(2) singletonI p(2)]])
  have dev: "device_ok {demo_tenv} (os_fd_core demo_os)" by (simp add: device_ok_def demo_tenv_def demo_os_def)
  have ids: "core_ids (d_prim demo_tdata) i = 8 + int i" for i by (simp add: demo_tdata_def core_ids_def)
  have fids: "msr_file_id (d_msr demo_tdata) = (\<lambda>_. 0)" "\<not> p_rdt_enabled (d_prim demo_tdata)" by (simp_all add: demo_tdata_def d_msr_def)
  have lead: "8 + int i \<noteq> 9" if "CORE_IN_MODULE i = 0" for i
    using that by (cases "i = 1") (simp_all add: CORE_IN_MODULE_def)
  have reg: "(0x1320 :: nat) \<in> hwpf_registers" by (simp add: hwpf_registers_def)
  have "regs (d_msr d') 9 0x1320 = regs (d_msr demo_tdata) 9 0x1320"
    by (rule only_leaders_retuned [OF r dev ids fids lead reg])
  then show ?thesis using r by (auto simp: demo_tdata_def d_msr_def)
qed

text \<open>
  The interrupt handler frees the windows of the bandit while the master may still use
  them. With the bandit and a dynamic interval, a calculation that follows the handler, which
  happens whenever the signal finds the master past the test of \<open>quitflag\<close>, accesses the freed
  buffers.
\<close>

theorem interrupt_breaks_bandit:
  assumes "perform e opt Interrupt d = Ret d'" and "o_tunealg opt = MAB_ALG"
    and "dynamic_sd (mstate (d_prim d)) = SD_ON \<or> dynamic_sd (mstate (d_prim d)) = SD_STEP"
  shows "perform e' opt (Calculate target) d' = Undef"
proof -
  have m: "ipc_buffer (mstate (d_prim d')) = []" "dynamic_sd (mstate (d_prim d')) = dynamic_sd (mstate (d_prim d))"
    using assms by (auto simp: perform_def sigintHandler_def Let_def obind_eq_Ret split: if_splits)
  then have "check_dynamic_sd (tuner.truncate ((d_prim d')\<lparr>p_ddr_bw_target := target\<rparr>)) = None"
    using assms(3) by (simp add: check_dynamic_sd_def update_and_fetch_sd_mean_def update_ipc_window_def tuner.defs)
  then show ?thesis using assms(2) by (simp add: perform_def calculate_settings_def mab_def of_option_def const_simps)
qed

lemma interrupt_returns: "\<not> p_rdt_enabled (d_prim d) \<Longrightarrow> \<exists>d'. perform e opt Interrupt d = Ret d'"
  by (simp add: perform_def sigintHandler_def Let_def)

theorem interrupt_breaks_bandit_witness:
  "\<exists>d'. perform demo_tenv (demo_toptions\<lparr>o_tunealg := 2\<rparr>) Interrupt
      (demo_tdata\<lparr>d_prim := (d_prim demo_tdata)\<lparr>mstate := (mstate (d_prim demo_tdata))\<lparr>dynamic_sd := 1, ipc_buffer := [f32 0]\<rparr>\<rparr>\<rparr>) = Ret d' \<and>
    perform demo_tenv (demo_toptions\<lparr>o_tunealg := 2\<rparr>) (Calculate 20000) d' = Undef"
proof -
  let ?d = "demo_tdata\<lparr>d_prim := (d_prim demo_tdata)\<lparr>mstate := (mstate (d_prim demo_tdata))\<lparr>dynamic_sd := 1, ipc_buffer := [f32 0]\<rparr>\<rparr>\<rparr>"
  have "\<not> p_rdt_enabled (d_prim ?d)" by (simp add: demo_tdata_def)
  then obtain d' where d: "perform demo_tenv (demo_toptions\<lparr>o_tunealg := 2\<rparr>) Interrupt ?d = Ret d'"
    using interrupt_returns by blast
  have "perform demo_tenv (demo_toptions\<lparr>o_tunealg := 2\<rparr>) (Calculate 20000) d' = Undef"
    by (rule interrupt_breaks_bandit [OF d]) (simp_all add: MAB_ALG_def SD_ON_def)
  with d show ?thesis by (intro exI conjI)
qed

end
