(* ===== verification/Sysdetect.thy ===== *)
theory Sysdetect
  imports C_Float
begin

text \<open>
  \<open>sysdetect.c\<close>: which cores are E-cores, the theoretical memory bandwidth from the DMI tables of the
  firmware, and the measured memory bandwidth.

  Parameters: the answers of \<open>cpuid\<close> and of the affinity calls, the number of available cores, the
  contents of the DMI file (\<open>None\<close> when it cannot be opened), what uninitialised memory holds, and the
  processor time at the start and end of each copy. A file is its bytes, with the read position kept
  separately; reading past the end delivers the bytes that are left, and seeking past the end is
  allowed. The structure \<open>type17_s\<close> is packed and filled in the order of its members, so it is modelled
  by its bytes. More than 128 memory devices overrun the table, which is undefined.
\<close>

section \<open>Efficient cores\<close>

definition E_CORE :: int where [const_simps]: "E_CORE = 0x20"

record sys_env =
  getaffinity_ok :: bool
  setaffinity_ok :: "int \<Rightarrow> bool"
  restore_ok :: "int \<Rightarrow> bool"
  cpuid_1a :: "int \<Rightarrow> u32"
  cpuid_07_edx :: u32
  nprocs :: int

definition get_core_type :: "sys_env \<Rightarrow> int \<Rightarrow> int" where
  "get_core_type e core =
     (if \<not> getaffinity_ok e then -1
      else if \<not> setaffinity_ok e core then -2
      else let core_value = uint (drop_bit 24 (cpuid_1a e core))
           in if \<not> restore_ok e core then -3 else core_value)"

definition get_hybridflag :: "sys_env \<Rightarrow> u32" where
  "get_hybridflag e = (drop_bit 15 (cpuid_07_edx e)) AND 1"

fun e_core_scan :: "sys_env \<Rightarrow> int list \<Rightarrow> int \<times> int \<times> int \<Rightarrow> int \<times> int" where
  "e_core_scan e [] (lo, hi, efficient_count) = (lo, hi)"
| "e_core_scan e (i # is) (lo, hi, efficient_count) =
     (if get_core_type e i = E_CORE
      then e_core_scan e is (if efficient_count = 0 then i else lo, i, efficient_count + 1)
      else e_core_scan e is (lo, hi, efficient_count))"

definition get_efficient_core_ids :: "sys_env \<Rightarrow> int \<times> int" where
  "get_efficient_core_ids e =
     (if get_hybridflag e = 1 then e_core_scan e (map int [0..<nat (nprocs e)]) (-1, -1, 0)
      else if get_core_type e 0 = E_CORE then (0, nprocs e - 1) else (-1, -1))"

section \<open>DMI tables\<close>

definition MAX_DMI_MEM_CH :: nat where [const_simps]: "MAX_DMI_MEM_CH = 128"

type_synonym type17_s = "u8 arr"

definition dmi_read_type17_field :: "bytes \<Rightarrow> nat \<Rightarrow> nat \<Rightarrow> nat \<Rightarrow> type17_s \<Rightarrow> int \<times> nat \<times> type17_s" where
  "dmi_read_type17_field bs field sz pos t =
     (let got = take sz (drop pos bs)
      in (if length got = sz then 1 else -1, pos + length got,
          \<lambda>k. if field \<le> k \<and> k < field + length got then got ! (k - field) else t k))"

text \<open>A chain of reads joined by \<open>||\<close>, each negated: it fails at the first read that returns 0.\<close>

fun read_fields :: "bytes \<Rightarrow> nat list \<Rightarrow> nat \<Rightarrow> nat \<Rightarrow> type17_s \<Rightarrow> bool \<times> nat \<times> type17_s" where
  "read_fields bs [] field pos t = (True, pos, t)"
| "read_fields bs (sz # szs) field pos t =
     (let (ret, pos, t) = dmi_read_type17_field bs field sz pos t
      in if ret = 0 then (False, pos, t) else read_fields bs szs (field + sz) pos t)"

text \<open>The groups of members: the length from which they are present, and their sizes.\<close>

definition type17_groups :: "(nat \<times> nat list) list" where
  "type17_groups = [(0, [2, 2, 2, 2, 2, 2, 1, 1, 1, 1, 1, 2, 2]), (27, [1, 1, 1, 1, 1]), (34, [4, 2, 2]),
     (40, [2, 2, 1]), (84, [2, 1, 2, 2, 2, 2, 8, 8, 8, 8, 4]), (92, [4, 2])]"

fun read_groups :: "bytes \<Rightarrow> nat \<Rightarrow> (nat \<times> nat list) list \<Rightarrow> nat \<Rightarrow> nat \<Rightarrow> type17_s \<Rightarrow> int \<times> nat \<times> type17_s" where
  "read_groups bs len [] field pos t = (0, pos, t)"
| "read_groups bs len ((limit, sizes) # groups) field pos t =
     (if len \<ge> limit
      then let (ok, pos, t) = read_fields bs sizes field pos t
           in if \<not> ok then (-1, pos, t) else read_groups bs len groups (field + sum_list sizes) pos t
      else read_groups bs len groups (field + sum_list sizes) pos t)"

definition dmi_read_type17 :: "bytes \<Rightarrow> nat \<Rightarrow> nat \<Rightarrow> type17_s \<Rightarrow> int \<times> nat \<times> type17_s" where
  "dmi_read_type17 bs len pos t = read_groups bs len type17_groups 2 pos t"

definition t17_size :: "type17_s \<Rightarrow> nat" where "t17_size t = unat (t 12) + 256 * unat (t 13)"
definition t17_speed :: "type17_s \<Rightarrow> nat" where "t17_speed t = unat (t 21) + 256 * unat (t 22)"

text \<open>The search for two zero bytes; \<open>None\<close> is the error at the end of the file.\<close>

fun zero_scan :: "u8 \<Rightarrow> bytes \<Rightarrow> nat option" where
  "zero_scan byte1 [] = None"
| "zero_scan byte1 (byte2 # rest) =
     (if byte1 = 0 \<and> byte2 = 0 then Some 1 else map_option Suc (zero_scan byte2 rest))"

definition skip_strings :: "bytes \<Rightarrow> nat \<Rightarrow> nat option" where
  "skip_strings bs pos =
     (case drop pos bs of [] \<Rightarrow> None | byte1 # rest \<Rightarrow> map_option (\<lambda>n. pos + 1 + n) (zero_scan byte1 rest))"

record dmi_state =
  type17_count :: nat
  populated_count :: nat
  type17 :: "type17_s arr"

text \<open>One pass of the loop: the position of the next structure, or the error \<open>-1\<close>.\<close>

definition dmi_entry :: "bytes \<Rightarrow> nat \<Rightarrow> dmi_state \<Rightarrow> (int + nat \<times> dmi_state) option" where
  "dmi_entry bs pos s =
     (let ty = bs ! pos; len = unat (bs ! (pos + 1)); pos = pos + 2; n = type17_count s in
      if len < 1 then Some (Inl (-1))
      else if ty = 17
      then if n \<ge> MAX_DMI_MEM_CH then None
           else let (ret, pos, t) = dmi_read_type17 bs len pos ((type17 s n)(0 := ty, 1 := bs ! (pos - 1)))
                in if ret < 0 then Some (Inl (-1))
                   else let s = s\<lparr>type17_count := n + 1,
                                  populated_count := populated_count s + (if t17_size t > 0 then 1 else 0),
                                  type17 := (type17 s)(n := t)\<rparr>
                        in Some (case skip_strings bs pos of None \<Rightarrow> Inl (-1) | Some pos \<Rightarrow> Inr (pos, s))
      else Some (case skip_strings bs (pos + len - 2) of None \<Rightarrow> Inl (-1) | Some pos \<Rightarrow> Inr (pos, s)))"

lemma zero_scan_bound: "zero_scan b bs = Some n \<Longrightarrow> 1 \<le> n \<and> n \<le> length bs"
  by (induction b bs arbitrary: n rule: zero_scan.induct) (fastforce split: if_splits)+

lemma skip_strings_bound:
  assumes "skip_strings bs pos = Some q"
  shows "pos + 2 \<le> q \<and> q \<le> length bs"
proof -
  obtain b r n where d: "drop pos bs = b # r" "zero_scan b r = Some n" "q = pos + 1 + n"
    using assms by (auto simp: skip_strings_def split: list.splits)
  have "length bs = pos + 1 + length r" using arg_cong [OF d(1), of length] by (cases "pos < length bs") auto
  then show ?thesis using zero_scan_bound [OF d(2)] d(3) by simp
qed

lemma read_fields_pos: "read_fields bs sizes field pos t = (ok, q, t') \<Longrightarrow> pos \<le> q"
  by (induction bs sizes field pos t rule: read_fields.induct)
    (fastforce simp: dmi_read_type17_field_def Let_def split: prod.splits if_splits)+

lemma read_groups_pos: "read_groups bs len groups field pos t = (ret, q, t') \<Longrightarrow> pos \<le> q"
  by (induction bs len groups field pos t rule: read_groups.induct)
    (fastforce simp: Let_def split: prod.splits if_splits dest: read_fields_pos)+

lemma dmi_entry_progress:
  assumes "dmi_entry bs pos s = Some (Inr (q, t))"
  shows "pos < q \<and> q \<le> length bs"
  using assms read_groups_pos [of bs _ type17_groups 2 "pos + 2"]
  by (fastforce simp: dmi_entry_def dmi_read_type17_def Let_def split: prod.splits if_splits option.splits dest!: skip_strings_bound)

function dmi_scan :: "bytes \<Rightarrow> nat \<Rightarrow> dmi_state \<Rightarrow> (int + dmi_state) option" where
  "dmi_scan bs pos s =
     (if length bs < pos + 2 then Some (Inr s)
      else case dmi_entry bs pos s of
             None \<Rightarrow> None
           | Some (Inl r) \<Rightarrow> Some (Inl r)
           | Some (Inr (q, t)) \<Rightarrow> dmi_scan bs q t)"
  by pat_completeness auto

termination
  by (relation "measure (\<lambda>(bs, pos, s). length bs - pos)") (auto dest!: dmi_entry_progress)

declare dmi_scan.simps [simp del]

fun lowest_speed :: "type17_s list \<Rightarrow> nat \<Rightarrow> nat" where
  "lowest_speed [] memory_speed = memory_speed"
| "lowest_speed (t # ts) memory_speed =
     (if t17_size t = 0 \<or> t17_speed t = 0 then lowest_speed ts memory_speed
      else lowest_speed ts (if memory_speed = 0 \<or> t17_speed t < memory_speed then t17_speed t else memory_speed))"

text \<open>\<open>dmi_check_same_size\<close> and \<open>dmi_check_same_speed\<close>, whose results are only logged.\<close>

fun same_from :: "(type17_s \<Rightarrow> nat) \<Rightarrow> nat \<Rightarrow> type17_s list \<Rightarrow> int \<Rightarrow> int" where
  "same_from f v [] count = count"
| "same_from f v (t # ts) count =
     (if f t = 0 then same_from f v ts count else if f t = v then same_from f v ts (count + 1) else -1)"

definition dmi_check_same :: "(type17_s \<Rightarrow> nat) \<Rightarrow> nat \<Rightarrow> type17_s arr \<Rightarrow> int" where
  "dmi_check_same f n t = same_from f (if f (t 0) = 0 then f (t 1) else f (t 0)) (map t [1..<n]) 0"

definition dmi_get_bandwidth :: "type17_s arr \<Rightarrow> bytes option \<Rightarrow> int option" where
  "dmi_get_bandwidth junk dmi_file =
     (case dmi_file of
        None \<Rightarrow> Some (-1)
      | Some bs \<Rightarrow>
          do { r \<leftarrow> dmi_scan bs 0 \<lparr>type17_count = 0, populated_count = 0, type17 = junk\<rparr>;
               case r of
                 Inl e \<Rightarrow> Some e
               | Inr s \<Rightarrow>
                   if populated_count s = 0 then Some (-1)
                   else let memory_speed = lowest_speed (map (type17 s) [0..<type17_count s]) 0
                        in if memory_speed = 0 then Some (-1)
                           else let equal_speed = dmi_check_same t17_speed (type17_count s) (type17 s);
                                    equal_size = dmi_check_same t17_size (type17_count s) (type17 s);
                                    total_bandwidth = int (populated_count s) * (int memory_speed * 8)
                                in Some (if total_bandwidth \<le> 0 then -1 else total_bandwidth) })"

section \<open>Measured bandwidth\<close>

definition NTIMES :: nat where [const_simps]: "NTIMES = 10"
definition MEGABYTE :: int where [const_simps]: "MEGABYTE = 1024 * 1024"
definition BWTEST_ARRAY_SIZE :: int where [const_simps]: "BWTEST_ARRAY_SIZE = (150 * 1024 * 1024) div 8"
definition CLOCKS_PER_SEC :: int where [const_simps]: "CLOCKS_PER_SEC = 1000000"

text \<open>The two arrays: the result and the number of blocks left allocated.\<close>

definition ddrmembw_init :: "bool \<Rightarrow> bool \<Rightarrow> int \<times> int" where
  "ddrmembw_init malloc_one malloc_two = (if \<not> malloc_one then (-1, 0) else if \<not> malloc_two then (-1, 0) else (0, 2))"

definition ddrmembw_copy :: "u64 arr \<Rightarrow> u64 arr \<Rightarrow> u64 arr" where
  "ddrmembw_copy one two = (\<lambda>i. if int i < BWTEST_ARRAY_SIZE then one i else two i)"

fun min_from :: "cfloat list \<Rightarrow> cfloat \<Rightarrow> cfloat" where
  "min_from [] m = m"
| "min_from (x # xs) m = min_from xs (if flt x m then x else m)"

definition ddrmembw_min_time :: "cfloat list \<Rightarrow> cfloat" where
  "ddrmembw_min_time ts =
     (if \<not> flt (ts ! 0) (f_of_int binary64 0) \<and> \<not> flt (f_of_int binary64 0) (ts ! 0) \<and> ts ! 0 \<noteq> FNaN
      then f_of_int binary64 (-1) else min_from (drop 1 ts) (ts ! 1))"

text \<open>\<open>ticks\<close> are the ten differences of \<open>clock\<close>; \<open>None\<close> when the conversion to \<open>int\<close> is undefined.\<close>

definition ddrmembw_measurement :: "int list \<Rightarrow> int option" where
  "ddrmembw_measurement ticks =
     (let ts = map (\<lambda>t. fdiv binary64 (f_of_int binary64 t) (f_of_int binary64 CLOCKS_PER_SEC)) ticks;
          min_time = ddrmembw_min_time ts
      in if flt min_time (f_of_int binary64 0) then Some (-1)
         else let total_byte = 2 * BWTEST_ARRAY_SIZE * 8;
                  bandwidth = fdiv binary64 (fdiv binary64 (f_of_int binary64 total_byte) min_time) (f_of_int binary64 MEGABYTE)
              in if flt bandwidth (f_of_int binary64 1) then Some 0
                 else do { v \<leftarrow> ftrunc bandwidth; if - (2 ^ 31) \<le> v \<and> v < 2 ^ 31 then Some v else None })"


section \<open>First and last efficient core\<close>

lemma e_core_scan_eq:
  "0 \<le> n \<Longrightarrow> e_core_scan e is (lo, hi, n) =
     (let js = filter (\<lambda>i. get_core_type e i = E_CORE) is
      in if js = [] then (lo, hi) else (if n = 0 then hd js else lo, last js))"
  by (induction e "is" "(lo, hi, n)" arbitrary: lo hi n rule: e_core_scan.induct) (auto simp: Let_def)

lemma sorted_hd_last:
  fixes xs :: "int list"
  assumes "sorted xs" and "xs \<noteq> []"
  shows "hd xs = Min (set xs) \<and> last xs = Max (set xs)"
proof
  show "hd xs = Min (set xs)" using assms by (intro Min_eqI [symmetric]) (cases xs; auto)+
  show "last xs = Max (set xs)"
  proof (rule Max_eqI [symmetric])
    show "last xs \<in> set xs" using assms(2) by simp
    show "y \<le> last xs" if "y \<in> set xs" for y
      using that assms by (auto simp: last_conv_nth in_set_conv_nth intro: sorted_nth_mono)
  qed simp
qed

text \<open>
  On a hybrid processor the detected range goes from the first to the last available core
  whose type is read as E-core, and is empty (\<open>-1\<close>, \<open>-1\<close>) exactly when there is none.
\<close>

theorem efficient_core_range:
  assumes "get_hybridflag e = 1"
  shows "get_efficient_core_ids e =
    (let cores = {i. 0 \<le> i \<and> i < nprocs e \<and> get_core_type e i = E_CORE}
     in if cores = {} then (-1, -1) else (Min cores, Max cores))"
proof -
  let ?js = "filter (\<lambda>i. get_core_type e i = E_CORE) (map int [0..<nat (nprocs e)])"
  have "sorted (map int [0..<nat (nprocs e)])" by (simp add: sorted_map)
  then have s: "sorted ?js" using sorted_filter [of id] by simp
  have "i \<in> int ` {0..<nat (nprocs e)} \<longleftrightarrow> 0 \<le> i \<and> i < nprocs e" for i
    by (auto simp: image_iff intro: bexI [of _ "nat i"])
  then have set: "set ?js = {i. 0 \<le> i \<and> i < nprocs e \<and> get_core_type e i = E_CORE}" by auto
  have "get_efficient_core_ids e = (if ?js = [] then (-1, -1) else (hd ?js, last ?js))"
    using assms by (simp add: get_efficient_core_ids_def e_core_scan_eq Let_def)
  also have "\<dots> = (if set ?js = {} then (-1, -1) else (Min (set ?js), Max (set ?js)))"
  proof (cases "?js = []")
    case False
    then show ?thesis using sorted_hd_last [OF s False] by (simp only: set_empty if_False)
  qed simp
  finally show ?thesis unfolding set Let_def .
qed

definition demo_sys_env :: sys_env where
  "demo_sys_env = \<lparr>getaffinity_ok = True, setaffinity_ok = (\<lambda>_. True), restore_ok = (\<lambda>_. True),
     cpuid_1a = (\<lambda>c. if c \<in> {4, 5, 7} then 0x20000001 else 0x40000001), cpuid_07_edx = 0x8000, nprocs = 10\<rparr>"

theorem efficient_core_range_witness: "get_efficient_core_ids demo_sys_env = (4, 7)"
proof -
  have t: "get_core_type demo_sys_env i = E_CORE \<longleftrightarrow> i \<in> {4, 5, 7}" for i
    by (simp add: get_core_type_def demo_sys_env_def const_simps Let_def drop_bit_eq_div)
  have "get_hybridflag demo_sys_env = 1" by (simp add: get_hybridflag_def demo_sys_env_def)
  moreover have "{i. 0 \<le> i \<and> i < nprocs demo_sys_env \<and> get_core_type demo_sys_env i = E_CORE} = {4, 5, 7}"
    unfolding t by (auto simp: demo_sys_env_def)
  ultimately show ?thesis by (simp add: efficient_core_range Let_def)
qed

section \<open>Well-formed tables\<close>

text \<open>A structure of the table: its type, the formatted part after the two bytes of the header, and its
  strings; and the bytes the firmware stores for it.\<close>

type_synonym dmi_struct = "u8 \<times> bytes \<times> bytes list"

definition strings_area :: "bytes list \<Rightarrow> bytes" where
  "strings_area ss = (if ss = [] then [0, 0] else concat (map (\<lambda>s. s @ [0]) ss) @ [0])"

definition dmi_bytes :: "dmi_struct \<Rightarrow> bytes" where
  "dmi_bytes = (\<lambda>(ty, body, ss). ty # word_of_nat (length body + 2) # body @ strings_area ss)"

text \<open>How many bytes the members read for a structure of a given length take.\<close>

definition fields_read :: "nat \<Rightarrow> nat" where
  "fields_read len = (if len < 27 then 21 else if len < 34 then 26 else if len < 40 then 34
     else if len < 84 then 39 else if len < 92 then 86 else 92)"

text \<open>The strings are not empty and contain no zero byte. A memory device has at least the members up
  to its speed and none that are not read; members that are read although the structure is too short
  for them are taken from the first string.\<close>

definition overread :: "bytes \<Rightarrow> nat" where
  "overread body = fields_read (length body + 2) - length body"

definition struct_ok :: "dmi_struct \<Rightarrow> bool" where
  "struct_ok = (\<lambda>(ty, body, ss). length body + 2 < 256 \<and> (\<forall>s \<in> set ss. s \<noteq> [] \<and> 0 \<notin> set s) \<and>
     (ty = 17 \<longrightarrow> 21 \<le> length body \<and> length body \<le> fields_read (length body + 2) \<and>
        overread body \<le> (if ss = [] then 0 else length (hd ss))))"

definition body_word :: "bytes \<Rightarrow> nat \<Rightarrow> nat" where
  "body_word body k = unat (body ! k) + 256 * unat (body ! (k + 1))"

text \<open>Size and speed of the memory devices of a table.\<close>

definition memory_devices :: "dmi_struct list \<Rightarrow> (nat \<times> nat) list" where
  "memory_devices table =
     map (\<lambda>(ty, body, ss). (body_word body 10, body_word body 19)) (filter (\<lambda>(ty, body, ss). ty = 17) table)"

section \<open>Reading a structure\<close>

lemma read_fields_ok:
  "pos + sum_list szs \<le> length bs \<Longrightarrow>
   \<exists>t'. read_fields bs szs field pos t = (True, pos + sum_list szs, t') \<and>
     (\<forall>k. t' k = (if field \<le> k \<and> k < field + sum_list szs then bs ! (pos + (k - field)) else t k))"
proof (induction szs arbitrary: field pos t)
  case (Cons n szs)
  define t1 where "t1 = (\<lambda>k. if field \<le> k \<and> k < field + n then bs ! (pos + (k - field)) else t k)"
  have len: "length (take n (drop pos bs)) = n" using Cons.prems by simp
  have t1: "(\<lambda>k. if field \<le> k \<and> k < field + n then take n (drop pos bs) ! (k - field) else t k) = t1"
    using Cons.prems by (auto simp: t1_def fun_eq_iff)
  have f: "dmi_read_type17_field bs field n pos t = (1, pos + n, t1)"
    unfolding dmi_read_type17_field_def Let_def len t1 [symmetric] by simp
  obtain t' where t': "read_fields bs szs (field + n) (pos + n) t1 = (True, pos + n + sum_list szs, t')"
      "\<And>k. t' k = (if field + n \<le> k \<and> k < field + n + sum_list szs then bs ! (pos + n + (k - (field + n))) else t1 k)"
    using Cons.IH [of "pos + n" "field + n" t1] Cons.prems by auto
  then show ?case using f by (auto simp: t1_def)
qed auto

lemma read_later_groups:
  assumes "pos + sum_list (map (\<lambda>(l, szs). if l \<le> len then sum_list szs else 0) groups) \<le> length bs" and "23 \<le> field"
  shows "\<exists>t'. read_groups bs len groups field pos t =
      (0, pos + sum_list (map (\<lambda>(l, szs). if l \<le> len then sum_list szs else 0) groups), t') \<and> (\<forall>k < 23. t' k = t k)"
  using assms
proof (induction groups arbitrary: field pos t)
  case (Cons g groups)
  obtain l szs where g: "g = (l, szs)" by (cases g)
  show ?case
  proof (cases "l \<le> len")
    case True
    have "pos + sum_list szs \<le> length bs" using Cons.prems(1) g True by simp
    then obtain t1 where t1: "read_fields bs szs field pos t = (True, pos + sum_list szs, t1)" "\<forall>k < 23. t1 k = t k"
      using read_fields_ok [of pos szs bs field t] Cons.prems(2) by fastforce
    then show ?thesis using Cons.IH [of "pos + sum_list szs" "field + sum_list szs" t1] Cons.prems g True by (auto simp: add.assoc)
  next
    case False
    then show ?thesis using Cons.IH [of pos "field + sum_list szs" t] Cons.prems g by auto
  qed
qed simp

lemma read_type17_ok:
  assumes "pos + fields_read len \<le> length bs"
  shows "\<exists>t'. dmi_read_type17 bs len pos t = (0, pos + fields_read len, t') \<and> (\<forall>k. 2 \<le> k \<and> k < 23 \<longrightarrow> t' k = bs ! (pos + (k - 2)))"
proof -
  let ?common = "[2, 2, 2, 2, 2, 2, 1, 1, 1, 1, 1, 2, 2] :: nat list"
  let ?rest = "[(27, [1, 1, 1, 1, 1]), (34, [4, 2, 2]), (40, [2, 2, 1]), (84, [2, 1, 2, 2, 2, 2, 8, 8, 8, 8, 4]), (92, [4, 2])] :: (nat \<times> nat list) list"
  have s: "sum_list ?common = 21" by simp
  have r: "fields_read len = 21 + sum_list (map (\<lambda>(l, szs). if l \<le> len then sum_list szs else 0) ?rest)"
    by (simp add: fields_read_def)
  obtain t1 where t1: "read_fields bs ?common 2 pos t = (True, pos + 21, t1)" "\<forall>k. 2 \<le> k \<and> k < 23 \<longrightarrow> t1 k = bs ! (pos + (k - 2))"
    using read_fields_ok [of pos ?common bs 2 t] assms r unfolding s by auto
  obtain t' where t': "read_groups bs len ?rest 23 (pos + 21) t1 =
      (0, pos + 21 + sum_list (map (\<lambda>(l, szs). if l \<le> len then sum_list szs else 0) ?rest), t')" "\<forall>k < 23. t' k = t1 k"
    using read_later_groups [of "pos + 21" len ?rest bs 23 t1] assms r by auto
  have "dmi_read_type17 bs len pos t = read_groups bs len ?rest 23 (pos + 21) t1"
    unfolding dmi_read_type17_def type17_groups_def by (subst read_groups.simps) (simp only: t1(1) s Let_def prod.case, simp)
  then show ?thesis using t' t1(2) r by (simp add: add.assoc)
qed

section \<open>Skipping the strings\<close>

lemma zero_scan_string:
  "0 \<notin> set s \<Longrightarrow> zero_scan b (s @ 0 # r) = (if s = [] \<and> b = 0 then Some 1 else map_option (\<lambda>n. n + length s + 1) (zero_scan 0 r))"
  by (induction s arbitrary: b) (auto simp: option.map_comp comp_def cong: option.map_cong)

lemma zero_scan_strings:
  "\<forall>s \<in> set ss. s \<noteq> [] \<and> 0 \<notin> set s \<Longrightarrow>
   zero_scan 0 (concat (map (\<lambda>s. s @ [0]) ss) @ 0 # rest) = Some (length (concat (map (\<lambda>s. s @ [0]) ss)) + 1)"
  by (induction ss) (auto simp: zero_scan_string)

lemma skip_strings_area:
  assumes "drop pos bs = drop n (strings_area ss) @ rest" and "\<forall>s \<in> set ss. s \<noteq> [] \<and> 0 \<notin> set s"
    and "n \<le> (if ss = [] then 0 else length (hd ss))"
  shows "skip_strings bs pos = Some (pos + length (strings_area ss) - n)"
proof (cases ss)
  case Nil
  then show ?thesis using assms(1,3) by (simp add: skip_strings_def strings_area_def)
next
  case (Cons s ss')
  define u where "u = drop n s"
  have n: "n \<le> length s" using assms(3) Cons by simp
  let ?r = "concat (map (\<lambda>s. s @ [0]) ss') @ 0 # rest"
  have d: "drop pos bs = u @ 0 # ?r" using assms(1) n Cons by (simp add: strings_area_def u_def)
  have z: "zero_scan 0 ?r = Some (length (concat (map (\<lambda>s. s @ [0]) ss')) + 1)"
    using zero_scan_strings assms(2) Cons by simp
  have u0: "0 \<notin> set u" using assms(2) Cons set_drop_subset [of n s] by (auto simp: u_def)
  have l: "length u + n = length s" using n by (simp add: u_def)
  show ?thesis
  proof (cases u)
    case Nil
    then show ?thesis using d z l Cons by (simp add: skip_strings_def strings_area_def)
  next
    case (Cons x v)
    then have "zero_scan x (v @ 0 # ?r) = Some (length (concat (map (\<lambda>s. s @ [0]) ss')) + 1 + length v + 1)"
      using u0 z by (simp add: zero_scan_string)
    then show ?thesis using d l Cons \<open>ss = s # ss'\<close> by (simp add: skip_strings_def strings_area_def)
  qed
qed

section \<open>Reading a table\<close>

lemma drop_cons2: "drop pos bs = a # b # r \<Longrightarrow> pos + 2 \<le> length bs \<and> bs ! pos = a \<and> bs ! (pos + 1) = b \<and> drop (pos + 2) bs = r"
proof -
  assume d: "drop pos bs = a # b # r"
  have l: "pos + 2 \<le> length bs" using arg_cong [OF d, of length] by (cases "pos < length bs") auto
  have "drop pos bs ! 0 = a" "drop pos bs ! 1 = b" "drop 2 (drop pos bs) = r" unfolding d by simp_all
  then show ?thesis using l by (simp add: add.commute)
qed

lemma unat_byte: "n < 256 \<Longrightarrow> unat (word_of_nat n :: u8) = n"
  by (simp add: unsigned_of_nat take_bit_nat_eq_self_iff)

lemma length_strings_area: "length (strings_area ss) \<ge> 1 + (if ss = [] then 0 else length (hd ss))"
  by (cases ss) (auto simp: strings_area_def)

text \<open>What one structure adds to the state of the scan.\<close>

definition device_added :: "bytes \<Rightarrow> dmi_state \<Rightarrow> dmi_state \<Rightarrow> bool" where
  "device_added body s s' \<longleftrightarrow> (\<exists>t. s' = s\<lparr>type17_count := type17_count s + 1,
       populated_count := populated_count s + (if body_word body 10 > 0 then 1 else 0), type17 := (type17 s)(type17_count s := t)\<rparr> \<and>
     t17_size t = body_word body 10 \<and> t17_speed t = body_word body 19)"

lemma entry_of_struct:
  assumes "drop pos bs = dmi_bytes (ty, body, ss) @ rest" and "struct_ok (ty, body, ss)" and "ty = 17 \<longrightarrow> type17_count s < MAX_DMI_MEM_CH"
  shows "\<exists>s'. dmi_entry bs pos s = Some (Inr (pos + length (dmi_bytes (ty, body, ss)), s')) \<and>
    (if ty = 17 then device_added body s s' else s' = s)"
proof -
  let ?n = "fields_read (length body + 2)" and ?area = "strings_area ss"
  have ok: "length body + 2 < 256" "\<forall>s \<in> set ss. s \<noteq> [] \<and> 0 \<notin> set s" using assms(2) by (simp_all add: struct_ok_def)
  have d: "drop pos bs = ty # word_of_nat (length body + 2) # body @ ?area @ rest" using assms(1) by (simp add: dmi_bytes_def)
  note c = drop_cons2 [OF d]
  have "bs ! (pos + 1) = word_of_nat (length body + 2)" using c by blast
  then have len: "unat (bs ! (pos + 1)) = length body + 2" using unat_byte [OF ok(1)] by (simp only:)
  have total: "length (dmi_bytes (ty, body, ss)) = length body + 2 + length ?area" by (simp add: dmi_bytes_def)
  show ?thesis
  proof (cases "ty = 17")
    case True
    have b: "21 \<le> length body" "length body \<le> ?n" "overread body \<le> (if ss = [] then 0 else length (hd ss))"
      using assms(2) True by (simp_all add: struct_ok_def)
    have tail: "drop (pos + 2) bs = body @ ?area @ rest" using c by blast
    have split: "?n = length body + overread body" using b(2) by (simp add: overread_def)
    have within: "overread body \<le> length ?area" using b(3) length_strings_area [of ss] by (auto split: if_splits)
    have "length bs - (pos + 2) = length body + length ?area + length rest" using arg_cong [OF tail, of length] by simp
    then have "pos + 2 + ?n \<le> length bs" using split within b(1) by linarith
    from read_type17_ok [OF this] obtain t where t: "dmi_read_type17 bs (length body + 2) (pos + 2)
        ((type17 s (type17_count s))(0 := bs ! pos, 1 := bs ! (pos + 1))) = (0, pos + 2 + ?n, t)"
        "\<forall>k. 2 \<le> k \<and> k < 23 \<longrightarrow> t k = bs ! (pos + 2 + (k - 2))" by blast
    have byte: "t k = body ! (k - 2)" if "2 \<le> k" "k < 23" for k
    proof -
      have lt: "k - 2 < length body" using that b(1) by linarith
      have "t k = bs ! (pos + 2 + (k - 2))" using t(2) that by blast
      also have "\<dots> = drop (pos + 2) bs ! (k - 2)" using c by (intro nth_drop [symmetric]) blast
      also have "\<dots> = body ! (k - 2)" unfolding tail using lt by (simp add: nth_append)
      finally show ?thesis .
    qed
    have sz: "t17_size t = body_word body 10" "t17_speed t = body_word body 19"
      by (simp_all add: t17_size_def t17_speed_def body_word_def byte)
    have "drop (pos + 2 + ?n) bs = drop ?n (drop (pos + 2) bs)" by (simp add: add.commute)
    also have "\<dots> = drop (overread body) ?area @ rest" unfolding tail split using within by simp
    finally have "skip_strings bs (pos + 2 + ?n) = Some (pos + 2 + ?n + length ?area - overread body)"
      by (rule skip_strings_area) (use ok b(3) in auto)
    then have "skip_strings bs (pos + 2 + ?n) = Some (pos + length (dmi_bytes (ty, body, ss)))"
      using split within total by simp
    then show ?thesis
      using True assms(3) t(1) c sz len by (auto simp: dmi_entry_def Let_def device_added_def)
  next
    case False
    have "drop (pos + 2 + length body) bs = drop (length body) (drop (pos + 2) bs)" by (simp add: add.commute)
    also have "\<dots> = drop 0 ?area @ rest" using c by simp
    finally have "skip_strings bs (pos + 2 + length body) = Some (pos + 2 + length body + length ?area - 0)"
      by (rule skip_strings_area) (use ok in auto)
    then show ?thesis using False c len total by (auto simp: dmi_entry_def Let_def add.assoc)
  qed
qed

definition devices_of :: "dmi_state \<Rightarrow> (nat \<times> nat) list" where
  "devices_of s = map (\<lambda>i. (t17_size (type17 s i), t17_speed (type17 s i))) [0..<type17_count s]"

definition populated :: "(nat \<times> nat) list \<Rightarrow> nat" where
  "populated ds = length (filter (\<lambda>(sz, sp). sz > 0) ds)"

lemma device_added_devices:
  assumes "device_added body s s'"
  shows "devices_of s' = devices_of s @ [(body_word body 10, body_word body 19)]"
  using assms by (auto simp: device_added_def devices_of_def)

lemma scan_table:
  assumes "drop pos bs = concat (map dmi_bytes table)" and "\<forall>st \<in> set table. struct_ok st"
    and "type17_count s + length (memory_devices table) \<le> MAX_DMI_MEM_CH"
  shows "\<exists>s'. dmi_scan bs pos s = Some (Inr s') \<and> devices_of s' = devices_of s @ memory_devices table \<and>
    populated_count s' = populated_count s + populated (memory_devices table)"
  using assms
proof (induction table arbitrary: pos s)
  case Nil
  then show ?case by (subst dmi_scan.simps) (simp add: memory_devices_def populated_def)
next
  case (Cons st table)
  obtain ty body ss where st: "st = (ty, body, ss)" by (cases st)
  have d: "drop pos bs = dmi_bytes (ty, body, ss) @ concat (map dmi_bytes table)" using Cons.prems(1) st by simp
  have m: "memory_devices (st # table) = (if ty = 17 then [(body_word body 10, body_word body 19)] else []) @ memory_devices table"
    using st by (simp add: memory_devices_def)
  have "ty = 17 \<longrightarrow> type17_count s < MAX_DMI_MEM_CH" using Cons.prems(3) m by auto
  then obtain s1 where s1: "dmi_entry bs pos s = Some (Inr (pos + length (dmi_bytes st), s1))" "if ty = 17 then device_added body s s1 else s1 = s"
    using entry_of_struct [OF d] Cons.prems(2) st by auto
  have n: "\<not> length bs < pos + 2" using drop_cons2 [of pos bs] d by (fastforce simp: dmi_bytes_def)
  have "drop (pos + length (dmi_bytes st)) bs = drop (length (dmi_bytes st)) (drop pos bs)" by (simp add: add.commute)
  then have r: "drop (pos + length (dmi_bytes st)) bs = concat (map dmi_bytes table)" using d st by simp
  have c: "type17_count s1 + length (memory_devices table) \<le> MAX_DMI_MEM_CH"
    using s1(2) Cons.prems(3) m by (auto simp: device_added_def split: if_splits)
  obtain s2 where s2: "dmi_scan bs (pos + length (dmi_bytes st)) s1 = Some (Inr s2)" "devices_of s2 = devices_of s1 @ memory_devices table"
      "populated_count s2 = populated_count s1 + populated (memory_devices table)"
    using Cons.IH [OF r _ c] Cons.prems(2) by auto
  have "dmi_scan bs pos s = Some (Inr s2)" using n s1(1) s2(1) by (subst dmi_scan.simps) simp
  then show ?case using s1(2) s2(2,3) m device_added_devices
    by (auto simp: populated_def device_added_def split: if_splits)
qed

section \<open>The bandwidth of a table\<close>

definition speeds :: "type17_s list \<Rightarrow> nat set" where
  "speeds ts = t17_speed ` {t \<in> set ts. t17_size t \<noteq> 0 \<and> t17_speed t \<noteq> 0}"

lemma speeds_simps [simp]:
  "speeds [] = {}" "speeds (t # ts) = (if t17_size t = 0 \<or> t17_speed t = 0 then speeds ts else insert (t17_speed t) (speeds ts))"
  "finite (speeds ts)"
  by (auto simp: speeds_def)

lemma lowest_speed_from: "v \<noteq> 0 \<Longrightarrow> lowest_speed ts v = Min (insert v (speeds ts))"
proof (induction ts arbitrary: v)
  case (Cons t ts)
  have "Min (insert (if sp < v then sp else v) S) = Min (insert v (insert sp S))" if "finite S" for sp and S :: "nat set"
    using that by (cases "S = {}") (auto simp: min_def)
  then show ?case using Cons by simp
qed simp

lemma lowest_speed_eq: "lowest_speed ts 0 = (if speeds ts = {} then 0 else Min (speeds ts))"
  by (induction ts) (auto simp: lowest_speed_from)

definition valid_speeds :: "(nat \<times> nat) list \<Rightarrow> nat set" where
  "valid_speeds ds = {sp. sp > 0 \<and> (\<exists>sz > 0. (sz, sp) \<in> set ds)}"

lemma lowest_speed_devices:
  "lowest_speed (map (type17 s) [0..<type17_count s]) 0 =
    (if valid_speeds (devices_of s) = {} then 0 else Min (valid_speeds (devices_of s)))"
proof -
  have "speeds (map (type17 s) [0..<type17_count s]) = valid_speeds (devices_of s)"
    by (force simp: speeds_def valid_speeds_def devices_of_def)
  then show ?thesis by (simp only: lowest_speed_eq)
qed

text \<open>
  Claim C33: reading the firmware's table. For a table of well-formed structures with at most 128 memory
  devices, \<open>dmi_get_bandwidth\<close> returns eight times the lowest non-zero speed of the populated devices
  times their number, and \<open>-1\<close> when no device is populated or none has a speed; it does not depend on
  the uninitialised memory.
\<close>

theorem dmi_bandwidth_of_table:
  assumes "\<forall>st \<in> set table. struct_ok st" and "length (memory_devices table) \<le> MAX_DMI_MEM_CH"
  shows "dmi_get_bandwidth junk (Some (concat (map dmi_bytes table))) =
    Some (let ds = memory_devices table
          in if valid_speeds ds = {} then -1 else int (populated ds) * (int (Min (valid_speeds ds)) * 8))"
proof -
  let ?s = "\<lparr>type17_count = 0, populated_count = 0, type17 = junk\<rparr>" and ?ds = "memory_devices table"
  obtain s where s: "dmi_scan (concat (map dmi_bytes table)) 0 ?s = Some (Inr s)" "devices_of s = ?ds" "populated_count s = populated ?ds"
    using scan_table [of 0 "concat (map dmi_bytes table)" table ?s] assms by (auto simp: devices_of_def)
  note low = lowest_speed_devices [of s, unfolded s(2)]
  show ?thesis
  proof (cases "valid_speeds ?ds = {}")
    case True
    then show ?thesis using s low by (simp add: dmi_get_bandwidth_def)
  next
    case False
    have "finite (valid_speeds ?ds)" by (rule finite_subset [of _ "snd ` set ?ds"]) (force simp: valid_speeds_def)+
    then have m: "Min (valid_speeds ?ds) \<in> valid_speeds ?ds" using Min_in False by blast
    then have "Min (valid_speeds ?ds) > 0" "\<exists>sz > 0. (sz, Min (valid_speeds ?ds)) \<in> set ?ds"
      by (auto simp: valid_speeds_def)
    moreover from this(2) have "populated ?ds > 0" by (auto simp: populated_def filter_empty_conv)
    ultimately show ?thesis using s low False by (simp add: dmi_get_bandwidth_def Let_def mult_le_0_iff)
  qed
qed

text \<open>Two modules of 4800 and 5600 MT/s, an empty slot and a structure of another type; the second
  structure is 40 bytes long, so one byte of its first string is read as a member.\<close>

definition demo_body :: "nat \<Rightarrow> nat \<Rightarrow> nat \<Rightarrow> bytes" where
  "demo_body n sz sp = replicate 10 1 @ le_bytes 2 sz @ replicate 7 1 @ le_bytes 2 sp @ replicate (n - 23) 1"

definition demo_table :: "dmi_struct list" where
  "demo_table = [(17, demo_body 28 16384 4800, []), (4, [1, 2, 3], [[65], [66, 67]]), (17, demo_body 40 16384 5600, [[68, 73]]),
     (17, demo_body 28 0 0, []), (127, [], [])]"

theorem dmi_bandwidth_of_table_witness:
  "\<forall>junk. dmi_get_bandwidth junk (Some (concat (map dmi_bytes demo_table))) = Some 76800"
proof
  fix junk
  have l: "length (demo_body n sz sp) = n - 2" if "23 \<le> n" for n sz sp using that by (simp add: demo_body_def)
  have ok: "\<forall>st \<in> set demo_table. struct_ok st"
    by (simp add: demo_table_def struct_ok_def l overread_def fields_read_def)
  have w: "body_word (demo_body n sz sp) 10 = sz mod 65536" "body_word (demo_body n sz sp) 19 = sp mod 65536" for n sz sp
    by (simp_all add: body_word_def demo_body_def nth_append numeral_2_eq_2 unsigned_of_nat take_bit_eq_mod mod_mult2_eq [of _ 256 256, simplified])
  have ds: "memory_devices demo_table = [(16384, 4800), (16384, 5600), (0, 0)]"
    by (simp add: memory_devices_def demo_table_def w)
  have "valid_speeds [(16384, 4800), (16384, 5600), (0, 0)] = {4800, 5600}" by (auto simp: valid_speeds_def)
  then show "dmi_get_bandwidth junk (Some (concat (map dmi_bytes demo_table))) = Some 76800"
    using dmi_bandwidth_of_table [OF ok, of junk] by (simp add: ds populated_def const_simps)
qed

end
