(* ===== verification/C_String.thy ===== *)
theory C_String
  imports Dpf_Prelude
begin

text \<open>
  The string functions of the C library that the program uses on its arguments, in the \<open>C\<close> locale:
  \<open>strtol\<close> in base 10 and 16, \<open>strtok\<close> with one separator, \<open>strchr\<close>-like search, and decimal and
  hexadecimal output of \<open>printf\<close>. A string is the list of its characters without the terminating
  zero. Lemmas: printed numbers are read back by \<open>strtol\<close>, and strings joined with a separator are split into
  the same strings by \<open>strtok\<close>.
\<close>

definition c_isspace :: "char \<Rightarrow> bool" where
  "c_isspace c \<longleftrightarrow> (of_char c :: nat) = 32 \<or> 9 \<le> (of_char c :: nat) \<and> (of_char c :: nat) \<le> 13"

definition c_isdigit :: "char \<Rightarrow> bool" where
  "c_isdigit c \<longleftrightarrow> 48 \<le> (of_char c :: nat) \<and> (of_char c :: nat) \<le> 57"

definition digit_of :: "char \<Rightarrow> int" where "digit_of c = of_char c - 48"

definition number_of :: "string \<Rightarrow> int" where
  "number_of ds = foldl (\<lambda>n c. 10 * n + digit_of c) 0 ds"

definition clamp_long :: "int \<Rightarrow> int" where
  "clamp_long n = (if n > 2 ^ 63 - 1 then 2 ^ 63 - 1 else if n < - (2 ^ 63) then - (2 ^ 63) else n)"

text \<open>The value and the rest of the string, at which \<open>endptr\<close> points; without digits this is the
  whole string.\<close>

definition strtol :: "string \<Rightarrow> int \<times> string" where
  "strtol s =
     (let t = dropWhile c_isspace s;
          (neg, u) = (case t of [] \<Rightarrow> (False, t)
                      | c # r \<Rightarrow> if c = CHR ''-'' then (True, r) else if c = CHR ''+'' then (False, r) else (False, t));
          ds = takeWhile c_isdigit u
      in if ds = [] then (0, s)
         else (clamp_long (if neg then - number_of ds else number_of ds), dropWhile c_isdigit u))"

lemma dropWhile_shrinks: "t \<noteq> [] \<Longrightarrow> P (hd t) \<Longrightarrow> length (dropWhile P t) < length t"
  by (cases t) (auto simp: length_dropWhile_le le_imp_less_Suc)

text \<open>All tokens that repeated calls of \<open>strtok\<close> deliver; separators at the ends and runs of
  separators give no empty tokens.\<close>

function strtok_all :: "char \<Rightarrow> string \<Rightarrow> string list" where
  "strtok_all d s =
     (let t = dropWhile (\<lambda>c. c = d) s
      in if t = [] then [] else takeWhile (\<lambda>c. c \<noteq> d) t # strtok_all d (dropWhile (\<lambda>c. c \<noteq> d) t))"
  by pat_completeness auto

termination
proof (relation "measure (\<lambda>(d, s). length s)")
  fix d :: char and s t :: string
  assume t: "t = dropWhile (\<lambda>c. c = d) s" "t \<noteq> []"
  then have "hd t \<noteq> d" using hd_dropWhile [of "\<lambda>c. c = d" s] by simp
  then have "length (dropWhile (\<lambda>c. c \<noteq> d) t) < length t" using t(2) by (intro dropWhile_shrinks)
  also have "length t \<le> length s" using t(1) by (simp add: length_dropWhile_le)
  finally show "((d, dropWhile (\<lambda>c. c \<noteq> d) t), d, s) \<in> measure (\<lambda>(d, s). length s)" by simp
qed simp

declare strtok_all.simps [simp del]

text \<open>The part of the string after the first occurrence of a character, as in \<open>strstr (s, "-") + 1\<close>.\<close>

fun after_char :: "char \<Rightarrow> string \<Rightarrow> string option" where
  "after_char d [] = None"
| "after_char d (c # s) = (if c = d then Some s else after_char d s)"

text \<open>Decimal output, and strings joined with a separator.\<close>

fun dec :: "nat \<Rightarrow> string" where
  "dec n = (if n < 10 then [char_of (48 + n)] else dec (n div 10) @ [char_of (48 + n mod 10)])"

declare dec.simps [simp del]

definition dec_int :: "int \<Rightarrow> string" where
  "dec_int i = (if i < 0 then CHR ''-'' # dec (nat (- i)) else dec (nat i))"

definition line :: "string \<Rightarrow> string" where "line s = s @ [CHR 0x0A]"

fun join_with :: "char \<Rightarrow> string list \<Rightarrow> string" where
  "join_with d [] = []"
| "join_with d [t] = t"
| "join_with d (t # u # ts) = t @ d # join_with d (u # ts)"

text \<open>Hexadecimal: the value that \<open>strtol\<close> and \<open>strtoll\<close> return in base 16, where a prefix
  \<open>0x\<close> is skipped, and the output of the conversions \<open>%x\<close> and \<open>%02x\<close>.\<close>

definition hex_digit :: "char \<Rightarrow> int option" where
  "hex_digit c =
     (let k = (of_char c :: nat)
      in if 48 \<le> k \<and> k \<le> 57 then Some (int k - 48)
         else if 97 \<le> k \<and> k \<le> 102 then Some (int k - 87)
         else if 65 \<le> k \<and> k \<le> 70 then Some (int k - 55) else None)"

fun hex_value :: "int \<Rightarrow> string \<Rightarrow> int" where
  "hex_value n [] = n"
| "hex_value n (c # s) = (case hex_digit c of None \<Rightarrow> n | Some d \<Rightarrow> hex_value (16 * n + d) s)"

fun skip_0x :: "string \<Rightarrow> string" where
  "skip_0x (a # b # s) = (if a = CHR ''0'' \<and> (b = CHR ''x'' \<or> b = CHR ''X'') then s else a # b # s)"
| "skip_0x s = s"

definition strtol_hex :: "string \<Rightarrow> int" where
  "strtol_hex s =
     (case dropWhile c_isspace s of [] \<Rightarrow> 0
      | c # r \<Rightarrow>
          clamp_long (if c = CHR ''-'' then - hex_value 0 (skip_0x r)
                      else if c = CHR ''+'' then hex_value 0 (skip_0x r)
                      else hex_value 0 (skip_0x (c # r))))"

definition hex_char :: "nat \<Rightarrow> char" where
  "hex_char k = char_of (if k < 10 then 48 + k else 87 + k)"

fun hex :: "nat \<Rightarrow> string" where
  "hex n = (if n < 16 then [hex_char n] else hex (n div 16) @ [hex_char (n mod 16)])"

declare hex.simps [simp del]

definition hex02 :: "nat \<Rightarrow> string" where
  "hex02 n = (if n < 16 then CHR ''0'' # hex n else hex n)"

section \<open>Numbers\<close>

lemma digit_char: "k < 10 \<Longrightarrow> c_isdigit (char_of (48 + k)) \<and> digit_of (char_of (48 + k)) = int k"
proof -
  assume "k < 10"
  then have n: "(of_char (char_of (48 + k) :: char) :: nat) = 48 + k" by (simp add: of_char_of)
  have "(of_char (char_of (48 + k) :: char) :: int) = int (of_char (char_of (48 + k) :: char))" by (simp only: of_nat_of_char)
  then show ?thesis using n \<open>k < 10\<close> by (simp add: c_isdigit_def digit_of_def)
qed

lemma dec_digits: "dec n \<noteq> [] \<and> list_all c_isdigit (dec n)"
proof (induction n rule: dec.induct)
  case (1 n)
  then show ?case using digit_char [of n] digit_char [of "n mod 10"] by (subst (1 2) dec.simps) auto
qed

lemma number_of_snoc: "number_of (ds @ [c]) = 10 * number_of ds + digit_of c"
  by (simp add: number_of_def)

lemma number_of_dec: "number_of (dec n) = int n"
proof (induction n rule: dec.induct)
  case (1 n)
  show ?case
  proof (cases "n < 10")
    case True
    then show ?thesis using digit_char [of n] by (subst dec.simps) (simp add: number_of_def)
  next
    case False
    then have "number_of (dec n) = 10 * int (n div 10) + int (n mod 10)"
      using 1 digit_char [of "n mod 10"] by (subst dec.simps) (simp add: number_of_snoc)
    also have "\<dots> = int n" using arg_cong [OF mult_div_mod_eq [of 10 n], of int] by (simp only: of_nat_add of_nat_mult of_nat_numeral)
    finally show ?thesis .
  qed
qed

lemma digit_not_space: "c_isdigit c \<Longrightarrow> \<not> c_isspace c"
  by (simp add: c_isdigit_def c_isspace_def)

lemma digit_not_sign: "c_isdigit c \<Longrightarrow> c \<noteq> CHR ''-'' \<and> c \<noteq> CHR ''+'' \<and> c \<noteq> CHR '',''"
  by (auto simp: c_isdigit_def)

lemma takeWhile_all: "list_all P xs \<Longrightarrow> takeWhile P xs = xs"
  by (simp add: takeWhile_eq_all_conv list_all_iff)

lemma dropWhile_all: "list_all P xs \<Longrightarrow> dropWhile P xs = []"
  by (simp add: list_all_iff)

lemma strtol_digits:
  assumes "ds \<noteq> []" and "list_all c_isdigit ds"
  shows "strtol ds = (clamp_long (number_of ds), [])"
  using assms digit_not_space [of "hd ds"] digit_not_sign [of "hd ds"]
  by (cases ds) (auto simp: strtol_def takeWhile_all dropWhile_all)

lemma strtol_dec: "int n < 2 ^ 63 \<Longrightarrow> strtol (dec n) = (int n, [])"
  using strtol_digits [of "dec n"] dec_digits [of n] by (simp add: number_of_dec clamp_long_def)

section \<open>Tokens\<close>

lemma strtok_Nil [simp]: "strtok_all d [] = []"
  by (subst strtok_all.simps) simp

lemma strtok_token:
  assumes "t \<noteq> []" and "d \<notin> set t"
  shows "strtok_all d t = [t]" and "strtok_all d (t @ d # s) = t # strtok_all d s"
proof -
  have hd: "\<not> hd t = d" using assms by (metis list.set_sel(1))
  have w: "takeWhile (\<lambda>c. c \<noteq> d) t = t" "dropWhile (\<lambda>c. c \<noteq> d) t = []" using assms(2) by (auto simp: takeWhile_eq_all_conv)
  have s: "dropWhile (\<lambda>c. c = d) t = t" using assms(1) hd by (cases t) auto
  show "strtok_all d t = [t]" by (subst strtok_all.simps) (simp only: s w Let_def assms(1) if_False strtok_Nil)
  have s': "dropWhile (\<lambda>c. c = d) (t @ d # s) = t @ d # s" using assms(1) hd by (cases t) auto
  have w': "takeWhile (\<lambda>c. c \<noteq> d) (t @ d # s) = t" "dropWhile (\<lambda>c. c \<noteq> d) (t @ d # s) = d # s"
    using assms(2) by (auto simp: takeWhile_append dropWhile_append)
  have e: "strtok_all d (d # s) = strtok_all d s" by (subst (1 2) strtok_all.simps) simp
  show "strtok_all d (t @ d # s) = t # strtok_all d s" using s' w' e by (subst strtok_all.simps) simp
qed

lemma strtok_join: "\<forall>t \<in> set ts. t \<noteq> [] \<and> d \<notin> set t \<Longrightarrow> strtok_all d (join_with d ts) = ts"
  by (induction d ts rule: join_with.induct) (auto simp: strtok_token)

lemma strtok_join_dec: "strtok_all CHR '','' (join_with CHR '','' (map dec ns)) = map dec ns"
proof (rule strtok_join)
  show "\<forall>t \<in> set (map dec ns). t \<noteq> [] \<and> CHR '','' \<notin> set t"
  proof
    fix t assume "t \<in> set (map dec ns)"
    then obtain n where "t = dec n" by auto
    then show "t \<noteq> [] \<and> CHR '','' \<notin> set t" using dec_digits [of n] digit_not_sign [of "CHR '',''"] by (auto simp: list_all_iff)
  qed
qed

section \<open>Hexadecimal numbers\<close>

lemma hex_digit_char: "k < 16 \<Longrightarrow> hex_digit (hex_char k) = Some (int k)"
proof -
  assume k: "k < 16"
  then have "(of_char (hex_char k) :: nat) = (if k < 10 then 48 + k else 87 + k)"
    by (simp add: hex_char_def of_char_of)
  then show ?thesis using k by (auto simp: hex_digit_def Let_def)
qed

lemma hex_value_append:
  "\<forall>c \<in> set s. hex_digit c \<noteq> None \<Longrightarrow> hex_value n (s @ t) = hex_value (hex_value n s) t"
  by (induction n s rule: hex_value.induct) auto

lemma hex_digits: "hex n \<noteq> [] \<and> (\<forall>c \<in> set (hex n). hex_digit c \<noteq> None)"
proof (induction n rule: hex.induct)
  case (1 n)
  then show ?case
    using hex_digit_char [of n] hex_digit_char [of "n mod 16"] by (subst (1 2) hex.simps) (auto simp del: split_paired_All)
qed

lemma hex_value_hex: "hex_value 0 (hex n) = int n"
proof (induction n rule: hex.induct)
  case (1 n)
  show ?case
  proof (cases "n < 16")
    case True
    then show ?thesis using hex_digit_char [of n] by (subst hex.simps) simp
  next
    case False
    then have "hex_value 0 (hex n) = 16 * int (n div 16) + int (n mod 16)"
      using 1 hex_digit_char [of "n mod 16"] hex_digits [of "n div 16"]
      by (subst hex.simps) (simp add: hex_value_append)
    also have "\<dots> = int n" using arg_cong [OF mult_div_mod_eq [of 16 n], of int] by (simp only: of_nat_add of_nat_mult of_nat_numeral)
    finally show ?thesis .
  qed
qed

text \<open>A number printed with \<open>0x%x\<close> is read back, cut to the largest \<open>long\<close>.\<close>

lemma strtol_hex_hex: "strtol_hex (''0x'' @ hex n) = clamp_long (int n)"
  by (simp add: strtol_hex_def c_isspace_def hex_value_hex)

end
