(* ===== verification/User_Main.thy ===== *)
theory User_Main
  imports User_Threads User_Api Sysdetect C_String
begin

text \<open>
  The start of the user-space program, \<open>main\<close> of \<open>main.c\<close>: the options, the core range, the core
  weights, the bandwidth target, the counters, and then either a session with the kernel module or the
  threads of \<open>User_Threads\<close>. Leaving \<open>main\<close> with a value is the outcome \<open>Exit\<close>.

  Parameters (\<open>menv\<close>): what \<open>getopt_long\<close> delivers, a list of option characters with their arguments
  (from the command line or, without arguments, from the configuration file); \<open>strtof\<close>; the system
  detection of \<open>Sysdetect\<close>; the PCI devices, \<open>/dev/mem\<close>, the MSR device and \<open>cpuid\<close>; the bandit's
  configuration file; and the environment of each call of the request library. Reading the keyboard is
  the list of keys, one entry per pass of the loop. Log output and terminal settings are not modelled.
\<close>

definition DEFAULT_PRIORITY :: int where [const_simps]: "DEFAULT_PRIORITY = 50"
definition MIN_PRIORITY :: int where [const_simps]: "MIN_PRIORITY = 0"
definition MAX_PRIORITY :: int where [const_simps]: "MAX_PRIORITY = 99"
definition MAX_WEIGHT_STR_LEN :: nat where [const_simps]: "MAX_WEIGHT_STR_LEN = 3072"

section \<open>Core weights\<close>

text \<open>The loop over the tokens; \<open>n\<close> is \<open>core_count\<close>, the result is that of the function, 0 when the
  loop ends normally.\<close>

fun weights_loop :: "int \<Rightarrow> string list \<Rightarrow> int \<Rightarrow> int arr \<Rightarrow> (int \<times> int \<times> int arr) option" where
  "weights_loop N [] n prio = Some (0, n, prio)"
| "weights_loop N (token # tokens) n prio =
     (if n = N then Some (0, n, prio)
      else let (v, rest) = strtol token; priority = int32 v
           in if rest \<noteq> [] then Some (-1, n, prio)
              else if priority < MIN_PRIORITY \<or> priority > MAX_PRIORITY then Some (-1, n, prio)
              else do { prio \<leftarrow> aset MAX_THREADS prio n priority; weights_loop N tokens (n + 1) prio })"

definition parse_weights :: "int \<Rightarrow> string \<Rightarrow> int \<Rightarrow> int arr \<Rightarrow> (int \<times> int \<times> int arr) option" where
  "parse_weights N weights_args n prio =
     do { (ret, n, prio) \<leftarrow> weights_loop N (strtok_all CHR '','' weights_args) n prio;
          if ret < 0 then Some (-1, n, prio)
          else do { prio \<leftarrow> for_range n N (\<lambda>i prio. aset MAX_THREADS prio i DEFAULT_PRIORITY) prio;
                    Some (0, max n N, prio) } }"

section \<open>Options\<close>

record mopts = toptions +
  o_core_first :: int
  o_core_last :: int
  o_ddr_bw_target :: int
  o_time_intervall :: cfloat
  o_aggr :: cfloat
  o_kernel_mode :: bool
  o_msr_msg :: bool
  o_pmu_msg :: bool
  o_loglevel :: int
  o_weights :: string
  o_auto_utilization :: cfloat

definition default_opts :: mopts where
  "default_opts = \<lparr>o_tunealg = 0, o_pmu_perf = False, o_num_events = 0, o_core_first = -1, o_core_last = -1,
     o_ddr_bw_target = DDR_BW_NOT_SET, o_time_intervall = f32 1, o_aggr = f32 1, o_kernel_mode = False, o_msr_msg = False,
     o_pmu_msg = False, o_loglevel = 3, o_weights = [], o_auto_utilization = fconv binary32 (flit binary64 (7 / 10))\<rparr>"

definition fits_int :: "int \<Rightarrow> bool" where "fits_int i \<longleftrightarrow> - (2 ^ 31) \<le> i \<and> i < 2 ^ 31"

definition int_of :: "string \<Rightarrow> int" where "int_of s = int32 (fst (strtol s))"

definition option_core :: "string \<Rightarrow> mopts \<Rightarrow> mopts outcome" where
  "option_core arg o1 =
     (let first = int_of arg;
          lst = (case after_char CHR ''-'' arg of None \<Rightarrow> first | Some r \<Rightarrow> int_of r)
      in if \<not> fits_int (lst - first) \<or> \<not> fits_int (lst - first + 1) then Undef
         else if lst - first > MAX_THREADS then Exit (-1)
         else Ret (o1\<lparr>o_core_first := first, o_core_last := lst\<rparr>))"

definition option_intervall :: "cfloat \<Rightarrow> cfloat" where
  "option_intervall v =
     (let v = (if flt v (flit binary32 (1 / 10000)) then flit binary32 (1 / 10000) else v)
      in if flt (f32 60) v then f32 60 else v)"

definition handle_option :: "(string \<Rightarrow> cfloat) \<Rightarrow> char \<times> string \<Rightarrow> mopts \<Rightarrow> mopts outcome" where
  "handle_option strtof = (\<lambda>(c, arg) o1.
     if c = CHR ''c'' then option_core arg o1
     else if c = CHR ''d'' then Ret (o1\<lparr>o_auto_utilization := strtof arg\<rparr>)
     else if c = CHR ''t'' then Ret (o1\<lparr>o_ddr_bw_target := DDR_BW_AUTOTEST\<rparr>)
     else if c = CHR ''D'' then Ret (o1\<lparr>o_ddr_bw_target := int_of arg\<rparr>)
     else if c = CHR ''i'' then Ret (o1\<lparr>o_time_intervall := option_intervall (strtof arg)\<rparr>)
     else if c = CHR ''A'' then Ret (o1\<lparr>o_tunealg := int_of arg\<rparr>)
     else if c = CHR ''a'' then Ret (o1\<lparr>o_aggr := strtof arg\<rparr>)
     else if c = CHR ''k'' then Ret (o1\<lparr>o_kernel_mode := True\<rparr>)
     else if c = CHR ''l'' then Ret (o1\<lparr>o_loglevel := int_of arg\<rparr>)
     else if c = CHR ''w'' then Ret (o1\<lparr>o_weights := take (MAX_WEIGHT_STR_LEN - 1) arg\<rparr>)
     else if c = CHR ''p'' then Ret (o1\<lparr>o_pmu_perf := True, o_num_events := PMU_CORE_EVENT_COUNT\<rparr>)
     else if c = CHR ''m'' then Ret (o1\<lparr>o_msr_msg := True\<rparr>)
     else if c = CHR ''P'' then Ret (o1\<lparr>o_pmu_msg := True\<rparr>)
     else if c = CHR ''?'' \<or> c = CHR ''h'' then Exit 0
     else Exit (-1))"

fun parse_options :: "(string \<Rightarrow> cfloat) \<Rightarrow> (char \<times> string) list \<Rightarrow> mopts \<Rightarrow> mopts outcome" where
  "parse_options strtof [] o1 = Ret o1"
| "parse_options strtof (x # xs) o1 = obind (handle_option strtof x o1) (parse_options strtof xs)"

section \<open>Cores, weights and bandwidth target\<close>

record menv =
  m_strtof :: "string \<Rightarrow> cfloat"
  m_sys :: sys_env
  m_dmi :: "bytes option"
  m_junk :: "type17_s arr"
  m_mem :: mem_os
  m_pci :: "pci_dev list"
  m_os :: msr_os
  m_hw1 :: "nat \<Rightarrow> nat \<Rightarrow> msr_sys \<Rightarrow> msr_sys"
  m_hw2 :: "nat \<Rightarrow> nat \<Rightarrow> msr_sys \<Rightarrow> msr_sys"
  m_cpuid :: cpuid_fn
  m_json :: "cjson option"
  m_calloc_ok :: bool
  m_api :: "nat \<Rightarrow> uenv"

definition detect_cores :: "sys_env \<Rightarrow> mopts \<Rightarrow> mopts outcome" where
  "detect_cores e o1 =
     (if o_core_first o1 = -1 \<or> o_core_last o1 = -1
      then let (first, lst) = get_efficient_core_ids e
           in if first = -1 \<or> lst = -1 then Exit (-1) else Ret (o1\<lparr>o_core_first := first, o_core_last := lst\<rparr>)
      else Ret o1)"

abbreviation threads_of :: "mopts \<Rightarrow> int" where "threads_of o1 \<equiv> o_core_last o1 - o_core_first o1 + 1"

text \<open>Calls of the request library whose failure ends the program.\<close>

definition kcall :: "(int \<times> ustate) option \<Rightarrow> (ustate \<Rightarrow> 'a outcome) \<Rightarrow> 'a outcome" where
  "kcall r k = (case r of None \<Rightarrow> Undef | Some (ret, u) \<Rightarrow> if ret < 0 then Exit (-1) else k u)"

definition set_weights :: "menv \<Rightarrow> mopts \<Rightarrow> ustate \<Rightarrow> (int arr \<times> ustate) outcome" where
  "set_weights e o1 u =
     (if o_weights o1 \<noteq> []
      then obind (of_option (parse_weights (threads_of o1) (o_weights o1) 0 (\<lambda>_. MIN_PRIORITY))) (\<lambda>(ret, n, prio).
             if ret < 0 then Exit (-1)
             else if o_kernel_mode o1
             then kcall (kernel_set_core_weights (m_api e 0) n (map prio [0..<nat MAX_THREADS]) u) (\<lambda>u. Ret (prio, u))
             else Ret (prio, u))
      else obind (of_option (for_range 0 (threads_of o1) (\<lambda>i prio. aset MAX_THREADS prio i DEFAULT_PRIORITY) (\<lambda>_. MIN_PRIORITY)))
             (\<lambda>prio. Ret (prio, u)))"

text \<open>The product is computed in \<open>float\<close> and converted to \<open>int\<close>, which is undefined out of range.\<close>

definition bandwidth_target :: "menv \<Rightarrow> mopts \<Rightarrow> int outcome" where
  "bandwidth_target e o1 =
     (if o_ddr_bw_target o1 = DDR_BW_NOT_SET
      then obind (of_option (dmi_get_bandwidth (m_junk e) (m_dmi e))) (\<lambda>bw.
           obind (of_option (ftrunc (fmul binary32 (f32 bw) (o_auto_utilization o1)))) (\<lambda>target.
             if \<not> fits_int target then Undef else if target = -1 then Exit (-1) else Ret target))
      else Ret (o_ddr_bw_target o1))"

text \<open>The memory controllers, or RDT: the counters, and whether RDT is used.\<close>

definition init_counters :: "menv \<Rightarrow> mopts \<Rightarrow> upmu \<Rightarrow> rdt_state \<Rightarrow> (upmu \<times> rdt_state \<times> bool) outcome" where
  "init_counters e o1 p r =
     obind (of_option (pmu_ddr_init (m_mem e) (m_pci e) (o_kernel_mode o1) p)) (\<lambda>(ty, p).
       if ty = DDR_NONE
       then let (ret, r) = rdt_mbm_support_check (m_cpuid e) (nprocs (m_sys e)) r
            in if ret = 0
               then obind (rdt_mbm_init (m_os e) (m_hw1 e) (m_hw2 e) r) (\<lambda>(ret, r). if ret \<noteq> 0 then Exit ret else Ret (p, r, True))
               else Exit (-1)
       else Ret (p, r, False))"

section \<open>Kernel mode\<close>

definition kernel_start :: "menv \<Rightarrow> mopts \<Rightarrow> int \<Rightarrow> ddr_s \<Rightarrow> ustate \<Rightarrow> ustate outcome" where
  "kernel_start e o1 target d u =
     (if target = DDR_BW_AUTOTEST then Exit (-1)
      else kcall (kernel_mode_init (m_api e 1) u) (\<lambda>u.
           kcall (kernel_set_ddr_config (m_api e 2) d u) (\<lambda>u.
           kcall (if o_core_first o1 \<noteq> -1 \<and> o_core_last o1 \<noteq> -1
                  then kernel_core_range (m_api e 3) (word_of_int (o_core_first o1)) (word_of_int (o_core_last o1)) u
                  else Some (0, u)) (\<lambda>u.
           kcall (if target \<noteq> DDR_BW_NOT_SET \<and> target \<noteq> DDR_BW_AUTOTEST
                  then kernel_set_ddr_bandwidth (m_api e 4) (word_of_int target) u else Some (0, u)) (\<lambda>u.
           kcall (kernel_log_ddr_bw (m_api e 5) u) (\<lambda>u.
           kcall (kernel_tuning_control (m_api e 6) 1 (word_of_int (o_tunealg o1)) (o_aggr o1) u) Ret))))))"

definition log_core_values :: "(nat \<Rightarrow> uenv) \<Rightarrow> mopts \<Rightarrow> int \<Rightarrow> ustate \<Rightarrow> ustate option" where
  "log_core_values env o1 core u =
     do { u \<leftarrow> (if o_msr_msg o1 then map_option snd (kernel_log_msr_values (env 0) (word_of_int core) u) else Some u);
          if o_pmu_msg o1 then map_option snd (kernel_log_pmu_values (env 1) (word_of_int core) u) else Some u }"

text \<open>The keys seen by the passes of the monitoring loop, with the environments of their calls. The
  result tells whether the loop was left.\<close>

fun kernel_monitor :: "(char option \<times> (nat \<Rightarrow> uenv)) list \<Rightarrow> mopts \<Rightarrow> ustate \<Rightarrow> (bool \<times> mopts \<times> ustate) option" where
  "kernel_monitor [] o1 u = Some (False, o1, u)"
| "kernel_monitor ((key, env) # passes) o1 u =
     (if key = Some CHR ''q'' \<or> key = Some CHR ''Q'' then Some (True, o1, u)
      else let o1 = (if key = Some CHR ''m'' \<or> key = Some CHR ''M'' then o1\<lparr>o_msr_msg := \<not> o_msr_msg o1\<rparr>
                     else if key = Some CHR ''p'' \<or> key = Some CHR ''P'' then o1\<lparr>o_pmu_msg := \<not> o_pmu_msg o1\<rparr> else o1)
           in do { u \<leftarrow> for_range (o_core_first o1) (o_core_last o1 + 1) (log_core_values env o1) u;
                   kernel_monitor passes o1 u })"

definition kernel_stop :: "uenv \<Rightarrow> mopts \<Rightarrow> ustate \<Rightarrow> ustate outcome" where
  "kernel_stop e o1 u = kcall (kernel_tuning_control e 0 (word_of_int (o_tunealg o1)) (o_aggr o1) u) Ret"

section \<open>The program\<close>

text \<open>What \<open>main\<close> comes to: tuning by the kernel module, or its own threads with their number, the
  bandwidth target they start with and their data.\<close>

datatype launched = Kernel mopts ustate | Threads mopts int tdata

definition start_threads :: "menv \<Rightarrow> mopts \<Rightarrow> int \<Rightarrow> tdata \<Rightarrow> launched outcome" where
  "start_threads e o1 target d =
     obind (if o_tunealg o1 = 2
            then obind (mab_init (m_json e) (m_calloc_ok e) (nat (threads_of o1)) (tuner.truncate (d_prim d)))
                   (\<lambda>t. Ret (tuner.extend t (tuner.more (d_prim d))))
            else Ret (d_prim d)) (\<lambda>s.
       if threads_of o1 > MAX_THREADS then Undef
       else Ret (Threads o1 target (d\<lparr>d_prim := s\<lparr>gtinfo := (\<lambda>i. if int i < threads_of o1
                  then (gtinfo s i)\<lparr>t_core_id := o_core_first o1 + int i\<rparr> else gtinfo s i)\<rparr>\<rparr>)))"

definition set_options :: "mopts \<Rightarrow> prim \<Rightarrow> prim" where
  "set_options o1 s = s\<lparr>u_core_first := o_core_first o1, u_core_last := o_core_last o1, time_intervall := o_time_intervall o1,
     p_aggr := o_aggr o1\<rparr>"

definition main_program :: "menv \<Rightarrow> (char \<times> string) list \<Rightarrow> tdata \<Rightarrow> ustate \<Rightarrow> launched outcome" where
  "main_program e args d u =
     obind (parse_options (m_strtof e) args default_opts) (\<lambda>o1.
     obind (detect_cores (m_sys e) o1) (\<lambda>o1.
     obind (set_weights e o1 u) (\<lambda>(prio, u).
     obind (bandwidth_target e o1) (\<lambda>target.
     obind (init_counters e o1 (p_pmu (d_prim d)) (p_rdt (d_prim d))) (\<lambda>(p, r, rdt).
       if o_kernel_mode o1 then obind (kernel_start e o1 target (u_ddr p) u) (\<lambda>u. Ret (Kernel o1 u))
       else start_threads e o1 target (d\<lparr>d_prim := (set_options o1 (d_prim d))\<lparr>p_pmu := p, p_rdt := r, p_rdt_enabled := rdt\<rparr>\<rparr>))))))"


section \<open>Weights are read as they were written\<close>

lemma fill_priorities:
  assumes "0 \<le> n" and "N \<le> MAX_THREADS"
  shows "for_range n N (\<lambda>i prio. aset MAX_THREADS prio i v) prio = Some (\<lambda>i. if n \<le> int i \<and> int i < N then v else prio i)"
proof -
  have "for_from k n (\<lambda>i prio. aset MAX_THREADS prio i v) prio = Some (\<lambda>i. if n \<le> int i \<and> int i < n + int k then v else prio i)"
    if "0 \<le> n" "k = 0 \<or> n + int k \<le> MAX_THREADS" for k n prio
    using that
  proof (induction k arbitrary: n prio)
    case (Suc k)
    have "aset MAX_THREADS prio n v = Some (prio(nat n := v))" using Suc.prems by (simp add: aset_def)
    moreover have "for_from k (n + 1) (\<lambda>i prio. aset MAX_THREADS prio i v) (prio(nat n := v)) =
        Some (\<lambda>i. if n + 1 \<le> int i \<and> int i < n + 1 + int k then v else (prio(nat n := v)) i)"
      using Suc.prems by (intro Suc.IH) auto
    ultimately show ?case using Suc.prems(1) by (auto simp: fun_eq_iff)
  qed (auto simp: fun_eq_iff)
  then show ?thesis using assms by (cases "n \<le> N") (auto simp: for_range_def fun_eq_iff)
qed

lemma weights_loop_dec:
  assumes "0 \<le> n" and "n \<le> N" and "N \<le> MAX_THREADS" and "\<forall>w \<in> set ws. w \<le> 99"
  shows "weights_loop N (map dec ws) n prio =
    Some (0, min N (n + int (length ws)), \<lambda>i. if n \<le> int i \<and> int i < min N (n + int (length ws)) then int (ws ! (i - nat n)) else prio i)"
  using assms
proof (induction ws arbitrary: n prio)
  case (Cons w ws)
  show ?case
  proof (cases "n = N")
    case False
    have w: "strtol (dec w) = (int w, [])" "int32 (int w) = int w" using Cons.prems(4) by (simp_all add: strtol_dec int32_id)
    have a: "aset MAX_THREADS prio n (int w) = Some (prio(nat n := int w))" using Cons.prems False by (simp add: aset_def)
    have i: "i - nat n = Suc (i - nat (n + 1))" if "n + 1 \<le> int i" for i using that Cons.prems(1) by linarith
    have "weights_loop N (map dec (w # ws)) n prio = weights_loop N (map dec ws) (n + 1) (prio(nat n := int w))"
      using False Cons.prems(4) by (simp add: w a MIN_PRIORITY_def MAX_PRIORITY_def)
    also have "\<dots> = Some (0, min N (n + 1 + int (length ws)), \<lambda>i. if n + 1 \<le> int i \<and> int i < min N (n + 1 + int (length ws))
        then int (ws ! (i - nat (n + 1))) else (prio(nat n := int w)) i)"
      using Cons.prems False by (intro Cons.IH) auto
    also have "\<dots> = Some (0, min N (n + int (length (w # ws))), \<lambda>i. if n \<le> int i \<and> int i < min N (n + int (length (w # ws)))
        then int ((w # ws) ! (i - nat n)) else prio i)"
      using Cons.prems False i by (auto simp: fun_eq_iff nth_Cons' nat_eq_iff)
    finally show ?thesis .
  qed (auto simp: fun_eq_iff)
qed (auto simp: fun_eq_iff)

text \<open>
  Claim C32: weights survive the command line. For up to 1024 active threads, a list of weights between
  0 and 99, printed in decimal and separated by commas, is parsed back: core \<open>i\<close> gets the \<open>i\<close>-th weight,
  the cores without one get 50, superfluous weights are ignored, and no entry beyond the active cores
  changes.
\<close>

theorem weights_roundtrip:
  assumes "0 \<le> N" and "N \<le> MAX_THREADS" and "\<forall>w \<in> set ws. w \<le> 99"
  shows "parse_weights N (join_with CHR '','' (map dec ws)) 0 prio =
    Some (0, N, \<lambda>i. if int i < N then if i < length ws then int (ws ! i) else 50 else prio i)"
proof -
  define k where "k = min N (int (length ws))"
  define f where "f = (\<lambda>i. if int i < k then int (ws ! i) else prio i)"
  have loop: "weights_loop N (map dec ws) 0 prio = Some (0, k, f)"
    using weights_loop_dec [of 0 N ws prio] assms by (simp add: k_def f_def fun_eq_iff)
  have fill: "for_range k N (\<lambda>i prio. aset MAX_THREADS prio i DEFAULT_PRIORITY) f =
      Some (\<lambda>i. if k \<le> int i \<and> int i < N then DEFAULT_PRIORITY else f i)"
    using fill_priorities [of k N DEFAULT_PRIORITY f] assms by (simp add: k_def)
  have "max k N = N" by (simp add: k_def)
  then show ?thesis
    unfolding parse_weights_def strtok_join_dec loop using fill by (auto simp: fun_eq_iff k_def f_def const_simps)
qed

theorem weights_roundtrip_witness:
  "\<exists>prio. parse_weights 4 ''80,5'' 0 (\<lambda>_. 0) = Some (0, 4, prio) \<and> prio 0 = 80 \<and> prio 1 = 5 \<and> prio 3 = 50 \<and> prio 4 = 0"
proof -
  have d: "join_with CHR '','' (map dec [80, 5]) = ''80,5''" by code_simp
  show ?thesis using weights_roundtrip [of 4 "[80, 5]" "\<lambda>_. 0"] unfolding d by (simp add: const_simps)
qed

section \<open>Options that are not checked\<close>

lemma fill_overrun:
  assumes "0 \<le> n" and "n \<le> MAX_THREADS" and "MAX_THREADS < N"
  shows "for_range n N (\<lambda>i prio. aset MAX_THREADS prio i v) prio = None"
proof -
  have "for_from k n (\<lambda>i prio. aset MAX_THREADS prio i v) prio = None" if "0 \<le> n" "n \<le> MAX_THREADS" "MAX_THREADS < n + int k" for k n prio
    using that
  proof (induction k arbitrary: n prio)
    case (Suc k)
    then show ?case by (cases "n = MAX_THREADS") (auto simp: aset_def)
  qed simp
  then show ?thesis using assms by (simp add: for_range_def)
qed

lemma main_cores:
  assumes "option_core arg default_opts = Ret o1" and "o_core_first o1 \<noteq> -1" and "o_core_last o1 \<noteq> -1"
    and "set_weights e o1 u = Undef"
  shows "main_program e [(CHR ''c'', arg)] d u = Undef"
  using assms by (simp add: main_program_def handle_option_def detect_cores_def)

text \<open>
  The limit on the number of threads is off by one. A range of 1025 cores passes the test of
  the option, and the table of 1024 core priorities is then written out of bounds; 1026 cores are refused.
\<close>

theorem thread_limit_off_by_one:
  "main_program e [(CHR ''c'', ''0-1024'')] d u = Undef \<and> main_program e [(CHR ''c'', ''0-1025'')] d u = Exit (-1)"
proof
  have s: "int_of ''0-1024'' = 0" "int_of ''1024'' = 1024" "int_of ''0-1025'' = 0" "int_of ''1025'' = 1025" by code_simp+
  have o1: "option_core ''0-1024'' default_opts = Ret (default_opts\<lparr>o_core_first := 0, o_core_last := 1024\<rparr>)"
    by (simp add: option_core_def s fits_int_def const_simps)
  have "set_weights e (default_opts\<lparr>o_core_first := 0, o_core_last := 1024\<rparr>) u = Undef"
    using fill_overrun [of 0 1025 DEFAULT_PRIORITY "\<lambda>_. MIN_PRIORITY"]
    by (simp add: set_weights_def default_opts_def of_option_def MAX_THREADS_def)
  then show "main_program e [(CHR ''c'', ''0-1024'')] d u = Undef" using main_cores [OF o1] by simp
  show "main_program e [(CHR ''c'', ''0-1025'')] d u = Exit (-1)"
    by (simp add: main_program_def handle_option_def option_core_def s fits_int_def const_simps)
qed

text \<open>
  A missing bandwidth is not reported. When the firmware's table cannot be read and neither
  the target nor the utilisation was given, the target is \<open>-1\<close> times 0.7, which the conversion to \<open>int\<close>
  makes 0; the test for \<open>-1\<close> does not see it and the program goes on with a target of 0 MB/s.
\<close>

theorem missing_bandwidth_not_reported:
  assumes "m_dmi e = None" and "o_ddr_bw_target o1 = DDR_BW_NOT_SET" and "o_auto_utilization o1 = o_auto_utilization default_opts"
  shows "bandwidth_target e o1 = Ret 0"
proof -
  have "ftrunc (fmul binary32 (f32 (-1)) (fconv binary32 (flit binary64 (7 / 10)))) = Some 0" by code_simp
  then show ?thesis
    using assms by (simp add: bandwidth_target_def dmi_get_bandwidth_def of_option_def default_opts_def fits_int_def)
qed

section \<open>The whole user-space program\<close>


lemma extend_prim [simp]:
  "p_rdt (tuner.extend t (tuner.more s)) = p_rdt s" "p_rdt_enabled (tuner.extend t (tuner.more s)) = p_rdt_enabled s"
  by (cases s; simp add: tuner.defs)+




section \<open>An example\<close>

definition demo_menv :: menv where
  "demo_menv = \<lparr>m_strtof = (\<lambda>_. f32 1), m_sys = demo_sys_env, m_dmi = None, m_junk = (\<lambda>_ _. 0), m_mem = pe_mem demo_penv, m_pci = [],
     m_os = demo_os, m_hw1 = (\<lambda>_ _. id), m_hw2 = (\<lambda>_ _. id), m_cpuid = (\<lambda>_ _. (0, 0, 0, 0)), m_json = None, m_calloc_ok = True,
     m_api = (\<lambda>_. demo_uenv)\<rparr>"




theorem missing_bandwidth_not_reported_witness: "bandwidth_target demo_menv default_opts = Ret 0"
  by (rule missing_bandwidth_not_reported) (simp_all add: demo_menv_def default_opts_def)


section \<open>A kernel session leaves nothing open\<close>

definition same_process :: "ustate \<Rightarrow> ustate \<Rightarrow> bool" where
  "same_process u v \<longleftrightarrow> fds v = fds u \<and> uheap v = uheap u"

lemma same_process_refl [simp]: "same_process u u"
  by (simp add: same_process_def)

lemma same_process_trans: "same_process u v \<Longrightarrow> same_process v w \<Longrightarrow> same_process u w"
  by (simp add: same_process_def)

lemma kcall_Ret: "kcall r k = Ret x \<longleftrightarrow> (\<exists>ret u. r = Some (ret, u) \<and> 0 \<le> ret \<and> k u = Ret x)"
  by (auto simp: kcall_def split: option.splits if_splits)

text \<open>The calls of the library when they succeed.\<close>

lemma calls_tidy:
  "kernel_mode_init e u = Some (r, v) \<Longrightarrow> same_process u v"
  "kernel_set_ddr_config e d u = Some (r, v) \<Longrightarrow> same_process u v"
  "kernel_set_ddr_bandwidth e b u = Some (r, v) \<Longrightarrow> same_process u v"
  "kernel_log_ddr_bw e u = Some (r, v) \<Longrightarrow> same_process u v"
  "kernel_log_msr_values e c u = Some (r, v) \<Longrightarrow> same_process u v"
  "kernel_log_pmu_values e c u = Some (r, v) \<Longrightarrow> same_process u v"
  "kernel_core_range e a b u = Some (r, v) \<Longrightarrow> 0 \<le> r \<Longrightarrow> same_process u v"
  "kernel_tuning_control e st alg f u = Some (r, v) \<Longrightarrow> 0 \<le> r \<Longrightarrow> same_process u v"
  by (auto simp: same_process_def dest: tidy_closes tidy_frees untidy_calls)

lemma weights_tidy:
  assumes "kernel_set_core_weights e n ws u = Some (r, v)" and "0 \<le> r"
  shows "same_process u v"
proof -
  have "open_ok e" using assms by (auto simp: kernel_set_core_weights_def Let_def split: if_splits)
  then show ?thesis using untidy_calls(2) [OF assms(1)] assms(2) by (simp add: same_process_def)
qed

lemma set_weights_tidy: "set_weights e o1 u = Ret (prio, v) \<Longrightarrow> same_process u v"
  by (auto simp: set_weights_def obind_eq_Ret kcall_Ret dest: weights_tidy split: if_splits)

lemma kcall_tidy:
  assumes "kcall r k = Ret v" and "\<And>ret x. r = Some (ret, x) \<Longrightarrow> 0 \<le> ret \<Longrightarrow> same_process u x"
    and "\<And>x. k x = Ret v \<Longrightarrow> same_process x v"
  shows "same_process u v"
  using assms same_process_trans by (auto simp: kcall_Ret)

lemma kernel_start_tidy:
  assumes "kernel_start e o1 target d u = Ret v"
  shows "same_process u v"
proof -
  have "target \<noteq> DDR_BW_AUTOTEST" using assms by (auto simp: kernel_start_def)
  note k = assms [unfolded kernel_start_def if_not_P [OF this]]
  show ?thesis using k by (elim kcall_tidy) (auto dest: calls_tidy split: if_splits)
qed

lemma log_core_tidy: "log_core_values env o1 core u = Some v \<Longrightarrow> same_process u v"
  by (auto simp: log_core_values_def split: if_splits bind_splits intro: same_process_trans dest!: calls_tidy(5,6))

lemma pass_tidy:
  assumes "for_range lo hi (log_core_values env o1) u = Some v"
  shows "same_process u v"
proof -
  have "(fds y, uheap y) = (fds x, uheap x)" if "log_core_values env o1 i x = Some y" for i x y
    using log_core_tidy [OF that] by (simp add: same_process_def)
  then have "(fds v, uheap v) = (fds u, uheap u)"
    using assms for_from_keeps [of "nat (hi - lo)" lo "log_core_values env o1" u v "\<lambda>u. (fds u, uheap u)"] by (simp add: for_range_def)
  then show ?thesis by (simp add: same_process_def)
qed

lemma monitor_tidy: "kernel_monitor passes o1 u = Some (b, o2, v) \<Longrightarrow> same_process u v"
proof (induction passes o1 u rule: kernel_monitor.induct)
  case (2 key env passes o1 u)
  then show ?case
    by (cases "key = Some CHR ''q'' \<or> key = Some CHR ''Q''")
      (auto simp: Let_def split: bind_splits intro: same_process_trans dest: pass_tidy)
qed simp

text \<open>
  A session with the kernel module leaves nothing behind. When \<open>main\<close> runs in kernel mode
  through the set-up, any number of passes of the monitoring loop with any keys and any failing reads,
  and the final request to stop, the process has as many open descriptors and allocated blocks as
  before.
\<close>

theorem kernel_session_tidy:
  assumes "main_program e args d u = Ret (Kernel o1 v)" and "kernel_monitor passes o1 v = Some (b, o2, w)"
    and "kernel_stop e' o2 w = Ret z"
  shows "fds z = fds u \<and> uheap z = uheap u"
proof -
  obtain prio o3 u1 target dd where s: "set_weights e o3 u = Ret (prio, u1)" "kernel_start e o3 target dd u1 = Ret v"
    using assms(1) by (auto simp: main_program_def obind_eq_Ret start_threads_def split: if_splits)
  have "same_process w z" using assms(3) calls_tidy(8) by (auto simp: kernel_stop_def kcall_Ret)
  then show ?thesis
    using set_weights_tidy [OF s(1)] kernel_start_tidy [OF s(2)] monitor_tidy [OF assms(2)] by (simp add: same_process_def)
qed

end
