(* ===== verification/Msr_Tool.thy ===== *)
theory Msr_Tool
  imports Atom_Msr C_String
begin

text \<open>
  The tool \<open>tools/msr2settings.c\<close>, which prints the members of a prefetch register (mode \<open>a\<close>) or
  computes a register value from its members (mode \<open>b\<close>). The arguments are the strings of
  \<open>argv\<close>, the result is the exit status and everything printed; it is undefined when the tool
  reads past the last argument. For each register the table of the printed members (text before
  the number, member, text after it) and the table of the assigned members are those of the two
  \<open>switch\<close> statements. The theorem: what mode \<open>b\<close> prints is shown by mode \<open>a\<close> with every member
  as given, cut to its width, unless bit 63 is set.
\<close>

section \<open>The tables\<close>

definition print_1A4 :: "(string \<times> string \<times> string) list" where
  "print_1A4 =
    [(''L2_STREAM_DISABLED: 0x'', ''L2_STREAM_DISABLED'', ''''),
     (''L2_ADJACENT_CACHE_LINE_PREFETCHER_DISABLE: 0x'', ''L2_ADJACENT_CACHE_LINE_PREFETCHER_DISABLE'', ''''),
     (''L1_DATA_STREAM_DISABLED: 0x'', ''L1_DATA_STREAM_DISABLED'', ''''),
     (''L1_INSTRUCTION_STREAM_DISABLED: 0x'', ''L1_INSTRUCTION_STREAM_DISABLED'', ''''),
     (''L1_NEXT_PAGE_DISABLED: 0x'', ''L1_NEXT_PAGE_DISABLED'', ''''),
     (''L2_AMP_DISABLED: 0x'', ''L2_AMP_DISABLED'', ''''),
     (''LLC_PAGE_PREFETCH_DISABLE: 0x'', ''LLC_PAGE_PREFETCH_DISABLE'', ''''),
     (''AOP_PREFETCH_DISABLE: 0x'', ''AOP_PREFETCH_DISABLE'', '' (DKT)''),
     (''STREAM_PREFETCH_CODE_FETCH_DISABLE: 0x'', ''STREAM_PREFETCH_CODE_FETCH_DISABLE'', ''''),
     (''DYNAMIC_L2PREFETCHER_CONFIG_DISABLE: 0x'', ''DYNAMIC_L2PREFETCHER_CONFIG_DISABLE'', '' (DKT)'')]"

definition print_1320 :: "(string \<times> string \<times> string) list" where
  "print_1320 =
    [('' L2_STREAM_AMP_XQ_THRESHOLD: 0x'', ''L2_STREAM_AMP_XQ_THRESHOLD'', ''''),
     ('' INIT_PRE_PENDING: 0x'', ''INIT_PRE_PENDING'', ''''),
     ('' SKPAHD_PREF: 0x'', ''SKPAHD_PREF'', ''''),
     ('' MAX_PREF_PENDING: 0x'', ''MAX_PREF_PENDING'', ''''),
     ('' INIT_TRIG_WINDOW: 0x'', ''INIT_TRIG_WINDOW'', ''''),
     ('' L2_STREAM_MAX_DISTANCE: 0x'', ''L2_STREAM_MAX_DISTANCE'', ''''),
     ('' TRIG_PREF_HIT: 0x'', ''TRIG_PREF_HIT'', ''''),
     ('' L2_AMP_DISABLE_RECURSION: 0x'', ''L2_AMP_DISABLE_RECURSION'', ''''),
     ('' DIS_AMP_TRIV_REC: 0x'', ''DIS_AMP_TRIV_REC'', ''''),
     ('' L2HL_LLCHL_MIN_DIST: 0x'', ''L2HL_LLCHL_MIN_DIST'', ''''),
     ('' LLC_STREAM_MAX_DISTANCE: 0x'', ''LLC_STREAM_MAX_DISTANCE'', ''''),
     ('' LLC_STREAM_DISABLE: 0x'', ''LLC_STREAM_DISABLE'', ''''),
     ('' LLC_INIT_PREF_PEND: 0x'', ''LLC_INIT_PREF_PEND'', ''''),
     ('' LLC_MAX_PREF_PEND: 0x'', ''LLC_MAX_PREF_PEND'', ''''),
     ('' LLCPREF_LQ_THRESHOLD: 0x'', ''LLCPREF_LQ_THRESHOLD'', ''''),
     ('' LLC_STREAM_XQ_THRESHOLD: 0x'', ''LLC_STREAM_XQ_THRESHOLD'', '''')]"

definition print_1321 :: "(string \<times> string \<times> string) list" where
  "print_1321 =
    [(''L2_STREAM_AMP_CREATE_IL1: 0x'', ''L2_STREAM_AMP_CREATE_IL1'', ''''),
     (''ALTERNATIVE_ISIDE_PREFETCH_ENABLE: 0x'', ''ALTERNATIVE_ISIDE_PREFETCH_ENABLE'', ''''),
     (''ALTERNATIVE_KICKSTART_PREFETCHES: 0x'', ''ALTERNATIVE_KICKSTART_PREFETCHES'', ''''),
     (''ALTERNATIVE_REGULAR_PREFETCHES: 0x'', ''ALTERNATIVE_REGULAR_PREFETCHES'', ''''),
     (''DTP_ENABLE: 0x'', ''DTP_ENABLE'', ''''),
     (''L2_STREAM_DEMAND_DENSITY: 0x'', ''L2_STREAM_DEMAND_DENSITY'', ''''),
     (''L2_STREAM_DEMAND_DENSITY_OVR: 0x'', ''L2_STREAM_DEMAND_DENSITY_OVR'', ''''),
     (''CREATE_PMH: 0x'', ''CREATE_PMH'', ''''),
     (''L2_DISABLE_NEXT_LINE_PREFETCH: 0x'', ''L2_DISABLE_NEXT_LINE_PREFETCH'', ''''),
     (''L2_LLC_STREAM_AMP_XQ_THRESHOLD: 0x'', ''L2_LLC_STREAM_AMP_XQ_THRESHOLD'', ''''),
     (''RESTORE_L2PREFETCHER_DEFAULTS (write only): 0x'', ''RESTORE_L2PREFETCHER_DEFAULTS'', '''')]"

definition print_1322 :: "(string \<times> string \<times> string) list" where
  "print_1322 =
    [(''LLPREF_THROTTLE_ISSUE_FACTOR: 0x'', ''LLPREF_THROTTLE_ISSUE_FACTOR'', ''''),
     (''LLPREF_THROTTLE_HIT_FACTOR: 0x'', ''LLPREF_THROTTLE_HIT_FACTOR'', ''''),
     (''LLPREF_UNTHROTTLE_ISSUE_FACTOR: 0x'', ''LLPREF_UNTHROTTLE_ISSUE_FACTOR'', ''''),
     (''LLPREF_UNTHROTTLE_HIT_FACTOR: 0x'', ''LLPREF_UNTHROTTLE_HIT_FACTOR'', ''''),
     (''LLC_STREAM_DEMAND_DENSITY: 0x'', ''LLC_STREAM_DEMAND_DENSITY'', ''''),
     (''LLC_STREAM_DEMAND_DENSITY_OVR: 0x'', ''LLC_STREAM_DEMAND_DENSITY_OVR'', ''''),
     (''L2_AMP_CONFIDENCE_DPT0: 0x'', ''L2_AMP_CONFIDENCE_DPT0'', ''''),
     (''L2_AMP_CONFIDENCE_DPT1: 0x'', ''L2_AMP_CONFIDENCE_DPT1'', ''''),
     (''L2_AMP_CONFIDENCE_DPT2: 0x'', ''L2_AMP_CONFIDENCE_DPT2'', ''''),
     (''L2_AMP_CONFIDENCE_DPT3: 0x'', ''L2_AMP_CONFIDENCE_DPT3'', ''''),
     (''L2_LLC_STREAM_DEMAND_DENSITY_XQ: 0x'', ''L2_LLC_STREAM_DEMAND_DENSITY_XQ'', '''')]"

definition print_1323 :: "(string \<times> string \<times> string) list" where
  "print_1323 =
    [('' L2_STREAM_AMP_CREATE_SWPFRFO: 0x'', ''L2_STREAM_AMP_CREATE_SWPFRFO'', ''''),
     ('' L2_STREAM_AMP_CREATE_SWPFRD: 0x'', ''L2_STREAM_AMP_CREATE_SWPFRD'', ''''),
     ('' L2_STREAM_AMP_CREATE_HWPFD: 0x'', ''L2_STREAM_AMP_CREATE_HWPFD'', ''''),
     ('' L2_STREAM_AMP_CREATE_DRFO: 0x'', ''L2_STREAM_AMP_CREATE_DRFO'', ''''),
     ('' STABILIZE_PREF_ON_SWPFRFO: 0x'', ''STABILIZE_PREF_ON_SWPFRFO'', ''''),
     ('' STABILIZE_PREF_ON_SWPFRD: 0x'', ''STABILIZE_PREF_ON_SWPFRD'', ''''),
     ('' STABILIZE_PREF_ON_IL1: 0x'', ''STABILIZE_PREF_ON_IL1'', ''''),
     ('' STABILIZE_PREF_ON_HWPFD: 0x'', ''STABILIZE_PREF_ON_HWPFD'', ''''),
     ('' STABILIZE_PREF_ON_DRFO: 0x'', ''STABILIZE_PREF_ON_DRFO'', ''''),
     ('' L2_STREAM_AMP_CREATE_PFNPP: 0x'', ''L2_STREAM_AMP_CREATE_PFNPP'', ''''),
     ('' L2_STREAM_AMP_CREATE_PFIPP: 0x'', ''L2_STREAM_AMP_CREATE_PFIPP'', ''''),
     ('' STABILIZE_PREF_ON_PFNPP: 0x'', ''STABILIZE_PREF_ON_PFNPP'', ''''),
     ('' STABILIZE_PREF_ON_PFIPP: 0x'', ''STABILIZE_PREF_ON_PFIPP'', '''')]"

definition print_1324 :: "(string \<times> string \<times> string) list" where
  "print_1324 =
    [(''L1_HOMELESS_THRESHOLD: 0x'', ''L1_HOMELESS_THRESHOLD'', '''')]"

definition print_1325 :: "(string \<times> string \<times> string) list" where
  "print_1325 =
    [(''STR_WINDOW_SIZE: 0x'', ''STR_WINDOW_SIZE'', ''''),
     (''KICK_START: 0x'', ''KICK_START'', ''''),
     (''LQ_THRESHOLD: 0x'', ''LQ_THRESHOLD'', ''''),
     (''AMP_MAX_TRIV_REC_PREF: 0x'', ''AMP_MAX_TRIV_REC_PREF'', ''''),
     (''AMP_DELTA_CNT_INC_VAL: 0x'', ''AMP_DELTA_CNT_INC_VAL'', ''''),
     (''PREFACC_COUNTER_THRESHOLD: 0x'', ''PREFACC_COUNTER_THRESHOLD'', ''''),
     (''PREFACC_DISABLE_LQ2_THRESHOLD: 0x'', ''PREFACC_DISABLE_LQ2_THRESHOLD'', ''''),
     (''PREFACC_DISABLE_XQ_THRESHOLD: 0x'', ''PREFACC_DISABLE_XQ_THRESHOLD'', ''''),
     (''PREFACC_COUNTER_INCR: 0x'', ''PREFACC_COUNTER_INCR'', ''''),
     (''PREFACC_COUNT: 0x'', ''PREFACC_COUNT'', ''''),
     (''PREFACC_DISABLE: 0x'', ''PREFACC_DISABLE'', '''')]"

definition print_1326 :: "(string \<times> string \<times> string) list" where
  "print_1326 =
    [(''AMP_RECUR_PREFETCHMINCOUNT: 0x'', ''AMP_RECUR_PREFETCHMINCOUNT'', '''')]"

definition print_1327 :: "(string \<times> string \<times> string) list" where
  "print_1327 =
    [(''RMT_INC: 0x'', ''RMT_INC'', ''''),
     (''RMT_DEC: 0x'', ''RMT_DEC'', ''''),
     (''RMT_POSITIVE_SATURATIONRMT_POSITIVE_SATURATION: 0x'', ''RMT_POSITIVE_SATURATION'', ''''),
     (''RMT_POSITIVE_UPPER_QUARTILE: 0x'', ''RMT_POSITIVE_UPPER_QUARTILE'', ''''),
     (''RMT_POSITIVE_LOWER_QUARTILE: 0x'', ''RMT_POSITIVE_LOWER_QUARTILE'', ''''),
     (''RMT_NEGATIVE_LOWER_QUARTILE: 0x'', ''RMT_NEGATIVE_LOWER_QUARTILE'', ''''),
     (''RMT_NEGATIVE_UPPER_QUARTILE: 0x'', ''RMT_NEGATIVE_UPPER_QUARTILE'', ''''),
     (''RMT_NEGATIVE_SATURATION: 0x'', ''RMT_NEGATIVE_SATURATION'', ''''),
     (''RMT_ENRMT_EN: 0x'', ''RMT_EN'', '''')]"

text \<open>The members that mode \<open>b\<close> assigns, in the order of the arguments.\<close>

definition assign_1A4 :: "string list" where
  "assign_1A4 =
    [''L2_STREAM_DISABLED'',
     ''L2_ADJACENT_CACHE_LINE_PREFETCHER_DISABLE'',
     ''L1_DATA_STREAM_DISABLED'',
     ''L1_INSTRUCTION_STREAM_DISABLED'',
     ''L1_NEXT_PAGE_DISABLED'',
     ''L2_AMP_DISABLED'',
     ''LLC_PAGE_PREFETCH_DISABLE'',
     ''AOP_PREFETCH_DISABLE'',
     ''STREAM_PREFETCH_CODE_FETCH_DISABLE'',
     ''DYNAMIC_L2PREFETCHER_CONFIG_DISABLE'']"

definition assign_1320 :: "string list" where
  "assign_1320 =
    [''L2_STREAM_AMP_XQ_THRESHOLD'',
     ''INIT_PRE_PENDING'',
     ''SKPAHD_PREF'',
     ''MAX_PREF_PENDING'',
     ''INIT_TRIG_WINDOW'',
     ''L2_STREAM_MAX_DISTANCE'',
     ''TRIG_PREF_HIT'',
     ''L2_AMP_DISABLE_RECURSION'',
     ''DIS_AMP_TRIV_REC'',
     ''L2HL_LLCHL_MIN_DIST'',
     ''LLC_STREAM_MAX_DISTANCE'',
     ''LLC_STREAM_DISABLE'',
     ''LLC_INIT_PREF_PEND'',
     ''LLC_MAX_PREF_PEND'',
     ''LLCPREF_LQ_THRESHOLD'',
     ''LLC_STREAM_XQ_THRESHOLD'']"

definition assign_1321 :: "string list" where
  "assign_1321 =
    [''L2_STREAM_AMP_CREATE_IL1'',
     ''ALTERNATIVE_ISIDE_PREFETCH_ENABLE'',
     ''ALTERNATIVE_KICKSTART_PREFETCHES'',
     ''ALTERNATIVE_REGULAR_PREFETCHES'',
     ''DTP_ENABLE'',
     ''L2_STREAM_DEMAND_DENSITY'',
     ''L2_STREAM_DEMAND_DENSITY_OVR'',
     ''CREATE_PMH'',
     ''L2_DISABLE_NEXT_LINE_PREFETCH'',
     ''L2_LLC_STREAM_AMP_XQ_THRESHOLD'',
     ''RESTORE_L2PREFETCHER_DEFAULTS'']"

definition assign_1322 :: "string list" where
  "assign_1322 =
    [''LLPREF_THROTTLE_ISSUE_FACTOR'',
     ''LLPREF_THROTTLE_HIT_FACTOR'',
     ''LLPREF_UNTHROTTLE_ISSUE_FACTOR'',
     ''LLPREF_UNTHROTTLE_HIT_FACTOR'',
     ''LLC_STREAM_DEMAND_DENSITY'',
     ''LLC_STREAM_DEMAND_DENSITY_OVR'',
     ''L2_AMP_CONFIDENCE_DPT0'',
     ''L2_AMP_CONFIDENCE_DPT1'',
     ''L2_AMP_CONFIDENCE_DPT2'',
     ''L2_AMP_CONFIDENCE_DPT3'',
     ''L2_LLC_STREAM_DEMAND_DENSITY_XQ'']"

definition assign_1323 :: "string list" where
  "assign_1323 =
    [''L2_STREAM_AMP_CREATE_SWPFRFO'',
     ''L2_STREAM_AMP_CREATE_SWPFRD'',
     ''L2_STREAM_AMP_CREATE_HWPFD'',
     ''L2_STREAM_AMP_CREATE_DRFO'',
     ''STABILIZE_PREF_ON_SWPFRFO'',
     ''STABILIZE_PREF_ON_SWPFRD'',
     ''STABILIZE_PREF_ON_IL1'',
     ''STABILIZE_PREF_ON_HWPFD'',
     ''STABILIZE_PREF_ON_DRFO'',
     ''L2_STREAM_AMP_CREATE_PFNPP'',
     ''L2_STREAM_AMP_CREATE_PFIPP'',
     ''STABILIZE_PREF_ON_PFNPP'',
     ''STABILIZE_PREF_ON_PFIPP'']"

definition assign_1324 :: "string list" where
  "assign_1324 =
    [''L1_HOMELESS_THRESHOLD'']"

definition assign_1325 :: "string list" where
  "assign_1325 =
    [''STR_WINDOW_SIZE'',
     ''KICK_START'',
     ''LQ_THRESHOLD'',
     ''AMP_MAX_TRIV_REC_PREF'',
     ''AMP_DELTA_CNT_INC_VAL'',
     ''PREFACC_COUNTER_THRESHOLD'',
     ''PREFACC_DISABLE_LQ2_THRESHOLD'',
     ''PREFACC_DISABLE_XQ_THRESHOLD'',
     ''PREFACC_COUNTER_INCR'',
     ''PREFACC_COUNT'',
     ''PREFACC_DISABLE'']"

definition assign_1326 :: "string list" where
  "assign_1326 =
    [''AMP_RECUR_PREFETCHMINCOUNT'']"

definition assign_1327 :: "string list" where
  "assign_1327 =
    [''RMT_INC'',
     ''RMT_DEC'',
     ''RMT_POSITIVE_SATURATION'',
     ''RMT_POSITIVE_UPPER_QUARTILE'',
     ''RMT_POSITIVE_LOWER_QUARTILE'',
     ''RMT_NEGATIVE_LOWER_QUARTILE'',
     ''RMT_NEGATIVE_UPPER_QUARTILE'',
     ''RMT_NEGATIVE_SATURATION'',
     ''RMT_EN'']"

definition printed :: "u32 \<Rightarrow> (layout \<times> (string \<times> string \<times> string) list) option" where
  "printed msr_id =
     (if msr_id = 0x1a4 then Some (msr1A4_s, print_1A4)
      else if msr_id = 0x1320 then Some (msr1320_s, print_1320)
      else if msr_id = 0x1321 then Some (msr1321_s, print_1321)
      else if msr_id = 0x1322 then Some (msr1322_s, print_1322)
      else if msr_id = 0x1323 then Some (msr1323_s, print_1323)
      else if msr_id = 0x1324 then Some (msr1324_s, print_1324)
      else if msr_id = 0x1325 then Some (msr1325_s, print_1325)
      else if msr_id = 0x1326 then Some (msr1326_s, print_1326)
      else if msr_id = 0x1327 then Some (msr1327_s, print_1327) else None)"

definition assigned :: "u32 \<Rightarrow> (layout \<times> string list) option" where
  "assigned msr_id =
     (if msr_id = 0x1a4 then Some (msr1A4_s, assign_1A4)
      else if msr_id = 0x1320 then Some (msr1320_s, assign_1320)
      else if msr_id = 0x1321 then Some (msr1321_s, assign_1321)
      else if msr_id = 0x1322 then Some (msr1322_s, assign_1322)
      else if msr_id = 0x1323 then Some (msr1323_s, assign_1323)
      else if msr_id = 0x1324 then Some (msr1324_s, assign_1324)
      else if msr_id = 0x1325 then Some (msr1325_s, assign_1325)
      else if msr_id = 0x1326 then Some (msr1326_s, assign_1326)
      else if msr_id = 0x1327 then Some (msr1327_s, assign_1327) else None)"

section \<open>The program\<close>

definition print_field :: "layout \<Rightarrow> u64 \<Rightarrow> string \<times> string \<times> string \<Rightarrow> string" where
  "print_field L v p = (case p of (before, m, behind) \<Rightarrow> line (before @ hex02 (unat (bf_get (bf L m) v)) @ behind))"

text \<open>\<open>args\<close> are the arguments from \<open>argv[3]\<close> on; the argument after the last one is a null pointer.\<close>

fun assign_fields :: "layout \<Rightarrow> string list \<Rightarrow> string list \<Rightarrow> u64 \<Rightarrow> u64 option" where
  "assign_fields L [] args v = Some v"
| "assign_fields L (m # ms) [] v = None"
| "assign_fields L (m # ms) (a # args) v = assign_fields L ms args (bf_set (bf L m) (word_of_int (strtol_hex a)) v)"

definition usage :: string where
  "usage =
     line ''Error, call with <a/b> <MSR> <MSR value> <...>'' @
     line ''MSRs supported are 0x1a4 and 0x1320 to 0x1327'' @
     line '' a: convert msr value to settings, ./msr2settings a 0x1320 0x700007e041000018'' @
     line '' b: convert settings to msr value, ./msr2settings b 0x1320 0x18 0x10 0x01 0x3f 0x00 0x1c''"

definition msr2settings :: "string list \<Rightarrow> (int \<times> string) option" where
  "msr2settings argv =
     (if length argv < 4 then Some (-1, line ''dPF MSR2setting'' @ usage)
      else let msr_id = word_of_int (strtol_hex (argv ! 2))
      in if take 1 (argv ! 1) = ''a'' then
           let v = word_of_int (strtol_hex (argv ! 3))
           in Some (0, line ''dPF MSR2setting'' @
                line (''MSR 0x'' @ hex (unat msr_id) @ '' Value 0x'' @ hex (unat v) @ '':'') @
                (case printed msr_id of None \<Rightarrow> line ''Incorrect MSR ID''
                 | Some (L, ps) \<Rightarrow> concat (map (print_field L v) ps)) @
                line ''done'')
         else if take 1 (argv ! 1) = ''b'' then
           do { v \<leftarrow> (case assigned msr_id of None \<Rightarrow> Some 0 | Some (L, ms) \<Rightarrow> assign_fields L ms (drop 3 argv) 0);
                Some (0, line ''dPF MSR2setting'' @ (if assigned msr_id = None then line ''Incorrect MSR ID'' else []) @
                  line (''MSR 0x'' @ hex (unat msr_id) @ '' value 0x'' @ hex (unat v) @ '':'') @ line ''done'') }
         else Some (0, line ''dPF MSR2setting'' @ ''Select either a) convert from MSR or b) convert to MSR'' @ line ''done''))"

section \<open>The two tables agree\<close>

definition member :: "string \<times> string \<times> string \<Rightarrow> string" where "member p = fst (snd p)"

lemmas print_defs = print_1A4_def print_1320_def print_1321_def print_1322_def print_1323_def print_1324_def
  print_1325_def print_1326_def print_1327_def
lemmas assign_defs = assign_1A4_def assign_1320_def assign_1321_def assign_1322_def assign_1323_def assign_1324_def
  assign_1325_def assign_1326_def assign_1327_def

text \<open>Each register is decoded and encoded with the same members in the same order, none of them
  twice, and its members stay within the register.\<close>

lemma member_tables:
  "map member print_1A4 = assign_1A4" "map member print_1320 = assign_1320" "map member print_1321 = assign_1321"
  "map member print_1322 = assign_1322" "map member print_1323 = assign_1323" "map member print_1324 = assign_1324"
  "map member print_1325 = assign_1325" "map member print_1326 = assign_1326" "map member print_1327 = assign_1327"
  by (simp_all add: print_defs assign_defs member_def)

lemma distinct_tables:
  "distinct assign_1A4" "distinct assign_1320" "distinct assign_1321" "distinct assign_1322" "distinct assign_1323"
  "distinct assign_1324" "distinct assign_1325" "distinct assign_1326" "distinct assign_1327"
  by (simp_all add: assign_defs)

lemma nonempty_tables:
  "print_1A4 \<noteq> []" "print_1320 \<noteq> []" "print_1321 \<noteq> []" "print_1322 \<noteq> []" "print_1323 \<noteq> []"
  "print_1324 \<noteq> []" "print_1325 \<noteq> []" "print_1326 \<noteq> []" "print_1327 \<noteq> []"
  by (simp_all add: print_defs)

lemma tables_agree:
  assumes "printed msr_id = Some (L, ps)"
  shows "assigned msr_id = Some (L, map member ps)" and "distinct (map member ps)" and "ps \<noteq> []"
    and "layout_bits L \<le> 64" and "msr_id \<noteq> 0x1321 \<Longrightarrow> layout_bits L < 64"
  using assms
  by (auto simp: printed_def assigned_def member_tables distinct_tables nonempty_tables msr_struct_bits split: if_splits)

section \<open>Assignments\<close>

lemma assign_None_iff: "assign_fields L ms args v = None \<longleftrightarrow> length args < length ms"
  by (induction L ms args v rule: assign_fields.induct) auto

lemma assign_other:
  assumes "assign_fields L ms args u = Some v" and "m \<notin> set ms" and "layout_bits L \<le> 64"
  shows "bf_get (bf L m) v = bf_get (bf L m) u"
  using assms
  by (induction L ms args u rule: assign_fields.induct)
     (auto simp: bf_get_set_other bf_disjoint_layout bf_fits_layout)

lemma assign_reads_back:
  assumes "assign_fields L ms args u = Some v" and "distinct ms" and "layout_bits L \<le> 64" and "i < length ms"
  shows "bf_get (bf L (ms ! i)) v = take_bit (bf_width (bf L (ms ! i))) (word_of_int (strtol_hex (args ! i)))"
  using assms
proof (induction L ms args u arbitrary: i rule: assign_fields.induct)
  case (3 L m ms a args u)
  then show ?case
    by (cases i) (auto simp: assign_other bf_get_set bf_fits_layout)
qed auto

lemma assign_high_bits:
  assumes "assign_fields L ms args u = Some v" and "layout_bits L \<le> n"
  shows "bit v n \<longleftrightarrow> bit u n"
  using assms
proof (induction L ms args u rule: assign_fields.induct)
  case (3 L m ms a args u)
  then show ?case
    using bf_at_bounds [of 0 L m] by (auto simp: bit_bf_set bf_def dest: bit_imp_le_length)
qed auto

section \<open>From settings to a value and back\<close>

text \<open>The line that shows a member holding the value of an argument.\<close>

definition shown :: "layout \<Rightarrow> string \<times> string \<times> string \<Rightarrow> string \<Rightarrow> string" where
  "shown L p a = (case p of (before, m, behind) \<Rightarrow>
     line (before @ hex02 (nat (strtol_hex a mod 2 ^ bf_width (bf L m))) @ behind))"

lemma shown_print:
  assumes "bf_get (bf L (member p)) v = take_bit (bf_width (bf L (member p))) (word_of_int (strtol_hex a))"
    and "layout_bits L \<le> 64"
  shows "print_field L v p = shown L p a"
proof -
  obtain b m c where p: "p = (b, m, c)" by (cases p)
  have "bf_width (bf L m) \<le> 64" using bf_fits_layout [OF assms(2), of m] by (simp add: bf_fits_def)
  then have "unat (take_bit (bf_width (bf L m)) (word_of_int (strtol_hex a) :: u64)) = nat (strtol_hex a mod 2 ^ bf_width (bf L m))"
    by (metis uint_take_bit_word_of_int nat_uint_eq)
  then show ?thesis using assms(1) by (simp add: p shown_def print_field_def member_def)
qed

lemma shown_all:
  assumes "assign_fields L (map member ps) args 0 = Some v" and "distinct (map member ps)" and "layout_bits L \<le> 64"
  shows "map (print_field L v) ps = map2 (shown L) ps args"
proof (rule nth_equalityI)
  have len: "length ps \<le> length args" using assms(1) assign_None_iff [of L "map member ps" args 0] by auto
  then show "length (map (print_field L v) ps) = length (map2 (shown L) ps args)" by simp
  fix i assume "i < length (map (print_field L v) ps)"
  then show "map (print_field L v) ps ! i = map2 (shown L) ps args ! i"
    using assign_reads_back [OF assms, of i] shown_print [OF _ assms(3), of "ps ! i" v "args ! i"] len by simp
qed

lemma restore_bit:
  assumes "assign_fields msr1321_s (map member print_1321) args 0 = Some v"
  shows "bit v 63 \<longleftrightarrow> odd (strtol_hex (args ! 10))"
proof -
  let ?f = "bf msr1321_s ''RESTORE_L2PREFETCHER_DEFAULTS''"
  have f: "bf_off ?f = 63" "bf_width ?f = 1" by (simp_all add: bf_def msr1321_s_def)
  have "bf_get ?f v = take_bit 1 (word_of_int (strtol_hex (args ! 10)))"
    using assign_reads_back [OF assms, of 10] f by (simp add: member_tables distinct_tables msr_struct_bits assign_1321_def)
  then have "bit v 63 \<longleftrightarrow> bit (take_bit 1 (word_of_int (strtol_hex (args ! 10))) :: u64) 0"
    using bit_bf_get [of ?f v 0] f by simp
  also have "\<dots> \<longleftrightarrow> bit (strtol_hex (args ! 10)) 0" unfolding bit_take_bit_iff bit_word_of_int_iff by simp
  finally show ?thesis by (simp add: bit_0)
qed

lemma top_bit_of_value:
  assumes "printed msr_id = Some (L, ps)" and "assign_fields L (map member ps) args 0 = Some v"
  shows "bit v 63 \<longleftrightarrow> msr_id = 0x1321 \<and> odd (strtol_hex (args ! 10))"
proof (cases "msr_id = 0x1321")
  case True
  then show ?thesis using assms restore_bit [of args v] by (simp add: printed_def)
next
  case False
  then show ?thesis using assign_high_bits [OF assms(2), of 63] tables_agree(5) [OF assms(1)] by simp
qed

lemma top_bit_unat: "bit (v :: u64) 63 \<longleftrightarrow> 2 ^ 63 \<le> unat v"
proof -
  have "unat v < 2 ^ 64" using unsigned_less [of v, where ?'a = nat] by simp
  then have "unat v div 2 ^ 63 < 2" by (intro less_mult_imp_div_less) simp
  then have "odd (unat v div 2 ^ 63) \<longleftrightarrow> unat v div 2 ^ 63 \<noteq> 0" by (auto simp: less_2_cases_iff)
  moreover have "bit v 63 \<longleftrightarrow> bit (unat v) 63" by (simp add: bit_unsigned_iff)
  ultimately show ?thesis unfolding bit_iff_odd by (simp add: div_eq_0_iff not_less)
qed

lemma value_read_back:
  "word_of_int (strtol_hex (''0x'' @ hex (unat v))) = (if bit v 63 then 0x7fffffffffffffff else v :: u64)"
proof -
  have n: "clamp_long (int k) = (if 2 ^ 63 \<le> k then 2 ^ 63 - 1 else int k)" for k by (auto simp: clamp_long_def)
  have "strtol_hex (''0x'' @ hex (unat v)) = (if bit v 63 then 2 ^ 63 - 1 else int (unat v))"
    unfolding strtol_hex_hex top_bit_unat n ..
  then show ?thesis by simp
qed

text \<open>
  Claim C39: converting settings to a register value and back. For each register that the tool
  knows, mode \<open>b\<close> is undefined exactly when there are fewer arguments than members; otherwise it
  prints a value, and mode \<open>a\<close> applied to the printed value shows every member with its argument
  cut to the member's width. The exception is a value with bit 63 set, which only the register
  \<open>0x1321\<close> can have, through its last member: \<open>strtoll\<close> does not read it back, and mode \<open>a\<close>
  behaves as for \<open>0x7fffffffffffffff\<close>.
\<close>

theorem settings_roundtrip:
  assumes "printed msr_id = Some (L, ps)" and "word_of_int (strtol_hex id_arg) = msr_id" and "args \<noteq> []"
  shows "if length args < length ps then msr2settings (prog # ''b'' # id_arg # args) = None
    else \<exists>v :: u64. msr2settings (prog # ''b'' # id_arg # args) =
        Some (0, line ''dPF MSR2setting'' @
          line (''MSR 0x'' @ hex (unat msr_id) @ '' value 0x'' @ hex (unat v) @ '':'') @ line ''done'') \<and>
      (2 ^ 63 \<le> unat v \<longleftrightarrow> msr_id = 0x1321 \<and> odd (strtol_hex (args ! 10))) \<and>
      msr2settings [prog, ''a'', id_arg, ''0x'' @ hex (unat v)] =
        (if 2 ^ 63 \<le> unat v then msr2settings [prog, ''a'', id_arg, ''0x7fffffffffffffff'']
         else Some (0, line ''dPF MSR2setting'' @
           line (''MSR 0x'' @ hex (unat msr_id) @ '' Value 0x'' @ hex (unat v) @ '':'') @
           concat (map2 (shown L) ps args) @ line ''done''))"
proof (cases "length args < length ps")
  case True
  then have "assign_fields L (map member ps) args 0 = None" by (simp add: assign_None_iff)
  then show ?thesis using True assms tables_agree(1) [OF assms(1)] by (cases args) (auto simp: msr2settings_def Let_def)
next
  case False
  then obtain v where v: "assign_fields L (map member ps) args 0 = Some v"
    by (cases "assign_fields L (map member ps) args 0") (auto simp: assign_None_iff)
  note tables = tables_agree [OF assms(1)]
  have b: "msr2settings (prog # ''b'' # id_arg # args) =
      Some (0, line ''dPF MSR2setting'' @
        line (''MSR 0x'' @ hex (unat msr_id) @ '' value 0x'' @ hex (unat v) @ '':'') @ line ''done'')"
    using v assms tables(1) by (cases args) (auto simp: msr2settings_def Let_def)
  have top: "2 ^ 63 \<le> unat v \<longleftrightarrow> msr_id = 0x1321 \<and> odd (strtol_hex (args ! 10))"
    using top_bit_of_value [OF assms(1) v] top_bit_unat by blast
  have a: "msr2settings [prog, ''a'', id_arg, ''0x'' @ hex (unat v)] =
        (if 2 ^ 63 \<le> unat v then msr2settings [prog, ''a'', id_arg, ''0x7fffffffffffffff'']
         else Some (0, line ''dPF MSR2setting'' @
           line (''MSR 0x'' @ hex (unat msr_id) @ '' Value 0x'' @ hex (unat v) @ '':'') @
           concat (map2 (shown L) ps args) @ line ''done''))"
  proof -
    have max: "strtol_hex ''0x7fffffffffffffff'' = 0x7fffffffffffffff" by code_simp
    have r: "word_of_int (strtol_hex (''0x'' @ hex (unat v))) = (if 2 ^ 63 \<le> unat v then 0x7fffffffffffffff else v)"
      unfolding value_read_back top_bit_unat ..
    have run: "msr2settings [prog, ''a'', id_arg, x] = Some (0, line ''dPF MSR2setting'' @
        line (''MSR 0x'' @ hex (unat msr_id) @ '' Value 0x'' @ hex (unat (word_of_int (strtol_hex x) :: u64)) @ '':'') @
        concat (map (print_field L (word_of_int (strtol_hex x))) ps) @ line ''done'')" for x
      using assms by (simp add: msr2settings_def Let_def)
    show ?thesis
    proof (cases "2 ^ 63 \<le> unat v")
      case True
      then show ?thesis unfolding run r max by simp
    next
      case False
      then show ?thesis unfolding run r shown_all [OF v tables(2,4), symmetric] by simp
    qed
  qed
  show ?thesis unfolding if_not_P [OF False] using a b top by blast
qed

text \<open>The example in the usage text names six of the sixteen members of register \<open>0x1320\<close>; a complete
  set of arguments is shown as given.\<close>

theorem settings_roundtrip_witness:
  "msr2settings ([''msr2settings'', ''b'', ''0x1320''] @ [''0x18'', ''0x10'', ''0x01'', ''0x3f'', ''0x00'', ''0x1c'']) = None \<and>
   (\<exists>v. msr2settings [''msr2settings'', ''b'', ''0x1324'', ''0x1ff''] =
       Some (0, line ''dPF MSR2setting'' @ line (''MSR 0x'' @ hex 0x1324 @ '' value 0x'' @ hex (unat v) @ '':'') @ line ''done'') \<and>
     msr2settings [''msr2settings'', ''a'', ''0x1324'', ''0x'' @ hex (unat (v :: u64))] =
       Some (0, line ''dPF MSR2setting'' @ line (''MSR 0x'' @ hex 0x1324 @ '' Value 0x'' @ hex (unat v) @ '':'') @
         line ''L1_HOMELESS_THRESHOLD: 0xff'' @ line ''done''))"
proof
  have i: "strtol_hex ''0x1320'' = 0x1320" "strtol_hex ''0x1324'' = 0x1324" "strtol_hex ''0x1ff'' = 0x1ff" by code_simp+
  have p: "printed 0x1320 = Some (msr1320_s, print_1320)" "printed 0x1324 = Some (msr1324_s, print_1324)"
    by (simp_all add: printed_def)
  have len: "length print_1320 = 16" "length print_1324 = 1" by (simp_all add: print_defs)
  have w: "word_of_int (strtol_hex ''0x1320'') = (0x1320 :: u32)" "word_of_int (strtol_hex ''0x1324'') = (0x1324 :: u32)"
    by (simp_all add: i)
  show "msr2settings ([''msr2settings'', ''b'', ''0x1320''] @ [''0x18'', ''0x10'', ''0x01'', ''0x3f'', ''0x00'', ''0x1c'']) = None"
    using settings_roundtrip [OF p(1) w(1), of "[''0x18'', ''0x10'', ''0x01'', ''0x3f'', ''0x00'', ''0x1c'']"] by (simp add: len)
  have "hex02 255 = ''ff''" by code_simp
  then have s: "concat (map2 (shown msr1324_s) print_1324 [''0x1ff'']) = line ''L1_HOMELESS_THRESHOLD: 0xff''"
    by (simp add: print_1324_def shown_def i bf_def msr1324_s_def)
  have n: "unat (0x1324 :: u32) = 0x1324" "(0x1324 :: u32) \<noteq> 0x1321" by simp_all
  show "\<exists>v. msr2settings [''msr2settings'', ''b'', ''0x1324'', ''0x1ff''] =
       Some (0, line ''dPF MSR2setting'' @ line (''MSR 0x'' @ hex 0x1324 @ '' value 0x'' @ hex (unat v) @ '':'') @ line ''done'') \<and>
     msr2settings [''msr2settings'', ''a'', ''0x1324'', ''0x'' @ hex (unat (v :: u64))] =
       Some (0, line ''dPF MSR2setting'' @ line (''MSR 0x'' @ hex 0x1324 @ '' Value 0x'' @ hex (unat v) @ '':'') @
         line ''L1_HOMELESS_THRESHOLD: 0xff'' @ line ''done'')"
    using settings_roundtrip [OF p(2) w(2), of "[''0x1ff'']" "''msr2settings''", unfolded len n s] by auto
qed


end
