(* ===== verification/Dpf_Ctrl.thy ===== *)
theory Dpf_Ctrl
  imports User_Api C_String
begin

text \<open>
  The command line client \<open>tools/cli/dpfctrl.c\<close>: options, the commands \<open>start\<close>, \<open>stop\<close> and \<open>dump\<close>
  on top of the request library (\<open>User_Api\<close>), and the two output formats of the log.

  Parameters: what \<open>getopt_long\<close> delivers, a list of option characters with their arguments; the
  environments of the calls of the library, and whether \<open>malloc\<close> and \<open>fopen\<close> succeed (\<open>denv\<close>).
  The files are a map from names to bytes; writing to an open file succeeds (an error of
  \<open>fwrite\<close>, \<open>fflush\<close> or \<open>fclose\<close> only prints a warning). Messages on the terminal are not modelled.
  Reading outside the table of counter names is undefined, \<open>None\<close>.

  Theorems: a raw dump is the kernel's log; a size given in entries reaches the kernel as a number
  of bytes; the CSV output is undefined for every log that is not empty.
\<close>

definition DEFAULT_BUFFER_ENTRIES :: u64 where [const_simps]: "DEFAULT_BUFFER_ENTRIES = 10000"
definition DEFAULT_MODE_RESET :: int where [const_simps]: "DEFAULT_MODE_RESET = 1"

datatype cmd_type = CMD_UNKNOWN | CMD_START | CMD_STOP | CMD_DUMP | CMD_HELP

datatype output_format = FMT_UNKNOWN | FMT_RAW | FMT_CSV

record options_s =
  command :: cmd_type
  buffer_entries :: u64
  log_mode :: int
  output_file :: "string option"
  out_format :: output_format

definition entries_to_bytes :: "u64 \<Rightarrow> u64" where
  "entries_to_bytes entries = entries * word_of_nat PMU_ENTRY_SIZE_BYTES"

definition pmu_counter_names :: "string list" where
  "pmu_counter_names =
     [''cycles'', ''instructions'', ''mem_load_uops'', ''l2_hit'', ''l3_hit'', ''drm_hit'', ''xq_promotion'']"

definition get_pmu_counter_name :: "int \<Rightarrow> string option" where
  "get_pmu_counter_name index =
     (if index \<ge> 0 \<and> index < int K_PMU_COUNTERS
      then if nat index < length pmu_counter_names then Some (pmu_counter_names ! nat index) else None
      else Some ''unknown'')"

definition parse_command :: "string \<Rightarrow> cmd_type" where
  "parse_command cmd =
     (if cmd = ''help'' \<or> cmd = ''--help'' \<or> cmd = ''-h'' then CMD_HELP
      else if cmd = ''start'' then CMD_START
      else if cmd = ''stop'' then CMD_STOP
      else if cmd = ''dump'' then CMD_DUMP else CMD_UNKNOWN)"

definition parse_format :: "string \<Rightarrow> output_format" where
  "parse_format fmt = (if fmt = ''csv'' then FMT_CSV else FMT_RAW)"

section \<open>Options\<close>

text \<open>One round of the option loop; \<open>Inl\<close> is the value with which \<open>process_options\<close> returns. The
  result of \<open>atoi\<close> is an \<open>int\<close> that is converted to the unsigned size, so the test for a
  positive size only refuses 0.\<close>

definition ctrl_option :: "char \<Rightarrow> string \<Rightarrow> options_s \<Rightarrow> (int + unit) \<times> options_s" where
  "ctrl_option c optarg opts =
     (if c = CHR ''h'' then (Inl 0, opts\<lparr>command := CMD_HELP\<rparr>)
      else if c = CHR ''v'' then (Inl 0, opts)
      else if c = CHR ''s'' then
        let opts = opts\<lparr>buffer_entries := word_of_int (int32 (fst (strtol optarg)))\<rparr>
        in if buffer_entries opts \<le> 0 then (Inl (-1), opts) else (Inr (), opts)
      else if c = CHR ''m'' then
        if optarg = ''reset'' then (Inr (), opts\<lparr>log_mode := 0\<rparr>)
        else if optarg = ''append'' then (Inr (), opts\<lparr>log_mode := 1\<rparr>)
        else (Inl (-1), opts)
      else if c = CHR ''f'' then (Inr (), opts\<lparr>output_file := Some optarg\<rparr>)
      else if c = CHR ''o'' then
        let opts = opts\<lparr>out_format := parse_format optarg\<rparr>
        in if out_format opts = FMT_RAW \<and> optarg \<noteq> ''raw'' then (Inl (-1), opts) else (Inr (), opts)
      else (Inl (-1), opts))"

fun option_loop :: "(char \<times> string) list \<Rightarrow> options_s \<Rightarrow> int \<times> options_s" where
  "option_loop [] opts = (0, opts)"
| "option_loop ((c, optarg) # gs) opts =
     (case ctrl_option c optarg opts of (Inl r, opts) \<Rightarrow> (r, opts) | (Inr _, opts) \<Rightarrow> option_loop gs opts)"

definition process_options :: "string list \<Rightarrow> (char \<times> string) list \<Rightarrow> options_s \<Rightarrow> int \<times> options_s" where
  "process_options argv gs opts =
     (if length argv < 2 then (-1, opts)
      else let opts = opts\<lparr>command := parse_command (argv ! 1)\<rparr>
           in if command opts = CMD_UNKNOWN then (-1, opts)
              else if command opts = CMD_HELP then (0, opts)
              else option_loop gs opts)"

section \<open>Output\<close>

definition text_bytes :: "string \<Rightarrow> bytes" where
  "text_bytes s = map (\<lambda>c. word_of_nat (of_char c)) s"

definition text_line :: "string \<Rightarrow> bytes" where
  "text_line s = text_bytes (s @ [CHR 0x0A])"

definition csv_row :: "bytes \<Rightarrow> nat \<Rightarrow> bytes option" where
  "csv_row buffer i =
     do { timestamp \<leftarrow> rd_u64 buffer (i * PMU_ENTRY_SIZE_BYTES);
          core_id \<leftarrow> rd_u32 buffer (i * PMU_ENTRY_SIZE_BYTES + 8);
          values \<leftarrow> those (map (\<lambda>j. rd_u64 buffer (i * PMU_ENTRY_SIZE_BYTES + 12 + 8 * j)) [0..<K_PMU_COUNTERS]);
          Some (text_line (dec (unat timestamp) @ '','' @ dec (unat core_id) @
                  concat (map (\<lambda>v. '','' @ dec (unat v)) values))) }"

definition dump_data_csv :: "bytes \<Rightarrow> nat \<Rightarrow> bytes option" where
  "dump_data_csv buffer buffer_size =
     (if buffer_size mod PMU_ENTRY_SIZE_BYTES \<noteq> 0 then Some (text_line ''# Note: Invalid PMU data size'')
      else let num_entries = buffer_size div PMU_ENTRY_SIZE_BYTES
           in if num_entries = 0 then Some (text_line ''# Note: No PMU data available'')
              else do { names \<leftarrow> those (map (\<lambda>i. get_pmu_counter_name (int i)) [0..<K_PMU_COUNTERS]);
                        rows \<leftarrow> those (map (csv_row buffer) [0..<num_entries]);
                        Some (text_line (''timestamp,core_id'' @ concat (map (\<lambda>n. '','' @ n) names)) @ concat rows) })"

section \<open>Commands\<close>

record denv =
  init_env :: uenv
  call_env :: uenv
  dmalloc_ok :: bool
  fopen_ok :: bool

type_synonym files = "string \<Rightarrow> bytes option"

text \<open>\<open>kernel_pmu_log_read\<close> stores the data and its size.\<close>

definition handle_dump ::
    "denv \<Rightarrow> string option \<Rightarrow> output_format \<Rightarrow> ustate \<times> files \<Rightarrow> (ustate \<times> files) option" where
  "handle_dump e filename fmt st =
     (case filename of
        None \<Rightarrow> Some st
      | Some name \<Rightarrow>
          let (u, fs) = st; buffer_size = entries_to_bytes DEFAULT_BUFFER_ENTRIES
          in if \<not> dmalloc_ok e then Some (u, fs)
             else do { (ret, stored, u) \<leftarrow> kernel_pmu_log_read (call_env e) (unat buffer_size) buffer_size u;
                       let data = (case stored of None \<Rightarrow> [] | Some d \<Rightarrow> d);
                       if ret \<noteq> 0 then Some (u, fs)
                       else if length data = 0 then Some (u, fs)
                       else if \<not> fopen_ok e then Some (u, fs)
                       else do { out \<leftarrow> (if fmt = FMT_CSV then dump_data_csv data (length data)
                                         else Some (text_line (''# Raw PMU data, size: '' @ dec (length data) @ '' bytes'') @ data));
                                 Some (u, fs(name \<mapsto> out)) } })"

text \<open>The result of the request only decides which messages are printed.\<close>

definition handle_start :: "denv \<Rightarrow> u64 \<Rightarrow> int \<Rightarrow> ustate \<times> files \<Rightarrow> (ustate \<times> files) option" where
  "handle_start e entries m st =
     do { (ret, u) \<leftarrow> kernel_pmu_log_start (call_env e) entries m (fst st); Some (u, snd st) }"

definition handle_stop :: "denv \<Rightarrow> ustate \<times> files \<Rightarrow> (ustate \<times> files) option" where
  "handle_stop e st = do { (ret, u) \<leftarrow> kernel_pmu_log_stop (call_env e) (fst st); Some (u, snd st) }"

definition default_options :: options_s where
  "default_options = \<lparr>command = CMD_UNKNOWN, buffer_entries = DEFAULT_BUFFER_ENTRIES, log_mode = DEFAULT_MODE_RESET,
     output_file = None, out_format = FMT_RAW\<rparr>"

text \<open>\<open>main\<close>: the exit status and the final state.\<close>

definition dpfctrl ::
    "denv \<Rightarrow> string list \<Rightarrow> (char \<times> string) list \<Rightarrow> ustate \<times> files \<Rightarrow> (int \<times> ustate \<times> files) option" where
  "dpfctrl e argv gs st =
     (let (ret, opts) = process_options argv gs default_options
      in if ret < 0 then Some (-1, st)
         else if command opts = CMD_HELP then Some (0, st)
         else do { (ret, u) \<leftarrow> kernel_mode_init (init_env e) (fst st);
                   let st = (u, snd st);
                   if ret \<noteq> 0 then Some (-1, st)
                   else case command opts of
                          CMD_START \<Rightarrow> do { st \<leftarrow> handle_start e (buffer_entries opts) (log_mode opts) st; Some (0, st) }
                        | CMD_STOP \<Rightarrow> do { st \<leftarrow> handle_stop e st; Some (0, st) }
                        | CMD_DUMP \<Rightarrow> if output_file opts = None then Some (-1, st)
                                      else do { st \<leftarrow> handle_dump e (output_file opts) (out_format opts) st; Some (0, st) }
                        | _ \<Rightarrow> Some (-1, st) })"

section \<open>The client's first request\<close>

lemma request_answered:
  assumes "system_ok e" and "length body + 8 \<le> MAX_MSG_SIZE"
    and "dispatch (calls e 0) kind (header kind m @ body) (receiving (kernel u)) = Some (r, k)"
    and "0 \<le> r" and "proc_buffer k = Some b" and "proc_buffer_size k = length b" and "b \<noteq> []"
  shows "send_request e tidy (header kind m @ body) n u = Some (0, u\<lparr>kernel := kfreed k\<rparr>)"
  using exchange_answer(1) [OF assms(1-3), of b tidy n] assms(4-7) by (simp add: send_request_def)

lemma log_kept [simp]:
  "log_contents (receiving k) = log_contents k" "log_contents (kfreed k) = log_contents k"
  "log_contents (install_resp b k) = log_contents k" "log_contents (kmalloced k) = log_contents k"
  by (simp_all add: log_contents_def kfreed_def install_resp_def kfree_proc_buffer_def kmalloced_def cong: option.case_cong)

lemma log_buffer_kept [simp]:
  "pmu_log_buffer (kfreed k) = pmu_log_buffer k" "pmu_log_buffer_size (kfreed k) = pmu_log_buffer_size k"
  "pmu_log_data_size (kfreed k) = pmu_log_data_size k" "pmu_log_buffer (kmalloced k) = pmu_log_buffer k"
  "pmu_log_buffer_size (kmalloced k) = pmu_log_buffer_size k" "pmu_log_data_size (kmalloced k) = pmu_log_data_size k"
  "pmu_log_buffer (install_resp b k) = pmu_log_buffer k" "pmu_log_buffer_size (install_resp b k) = pmu_log_buffer_size k"
  "pmu_log_data_size (install_resp b k) = pmu_log_data_size k"
  by (simp_all add: kfreed_def kmalloced_def install_resp_def kfree_proc_buffer_def)

text \<open>The first request of every command, which changes nothing but the response.\<close>

definition greeted :: "uenv \<Rightarrow> ustate \<Rightarrow> ustate" where
  "greeted e u = u\<lparr>kernel := kfreed (install_resp (header DPF_MSG_INIT 12 @ le32 DPF_API_VERSION) (kmalloced (receiving (kernel u))))\<rparr>"

lemma header_nonempty [simp]: "header kind n @ body \<noteq> []"
  by (metis append_is_Nil_conv length_0_conv length_header zero_neq_numeral)

lemma mode_init_ok:
  assumes "system_ok e"
  shows "kernel_mode_init e u = Some (0, greeted e u)"
proof -
  let ?b = "header DPF_MSG_INIT 12 @ le32 DPF_API_VERSION"
  have "dispatch (calls e 0) DPF_MSG_INIT (header DPF_MSG_INIT 8 @ []) (receiving (kernel u)) =
      Some (0, install_resp ?b (kmalloced (receiving (kernel u))))"
    using assms by (simp add: dispatch_def api_init_def system_ok_def)
  then show ?thesis
    using request_answered [OF assms, of "[]" DPF_MSG_INIT 8 u 0 _ ?b True 12]
    by (simp add: kernel_mode_init_def greeted_def MAX_MSG_SIZE_def del: append_is_Nil_conv)
qed

lemma greeted_frame [simp]:
  "fds (greeted e u) = fds u" "uheap (greeted e u) = uheap u" "log_contents (kernel (greeted e u)) = log_contents (kernel u)"
  "pmu_log_buffer (kernel (greeted e u)) = pmu_log_buffer (kernel u)"
  "pmu_log_buffer_size (kernel (greeted e u)) = pmu_log_buffer_size (kernel u)"
  "pmu_log_data_size (kernel (greeted e u)) = pmu_log_data_size (kernel u)"
  "corestate (kernel (greeted e u)) = corestate (kernel u)"
  by (simp_all add: greeted_def)

lemma res_ok_greeted:
  assumes "system_ok e" and "res_ok (kernel u)"
  shows "res_ok (kernel (greeted e u))"
  using dispatch_kept [of "calls e 0" DPF_MSG_INIT "[]" "receiving (kernel u)"] res_ok_receiving [OF assms(2)] assms(1)
  by (simp add: greeted_def handler_simps dispatch_def api_init_def system_ok_def)

section \<open>Dumping the log\<close>

lemma entry_size [simp]: "PMU_ENTRY_SIZE_BYTES = 76" "unat (entries_to_bytes DEFAULT_BUFFER_ENTRIES) = 760000"
  by (simp_all add: entries_to_bytes_def const_simps)

lemma no_eighth_name: "those (map (\<lambda>i. get_pmu_counter_name (int i)) [0..<K_PMU_COUNTERS]) = None"
  by (simp add: const_simps upt_rec get_pmu_counter_name_def pmu_counter_names_def)

text \<open>The table of names has seven entries and eight are printed.\<close>

lemma csv_defined_iff: "dump_data_csv buffer n = None \<longleftrightarrow> n \<noteq> 0 \<and> n mod 76 = 0"
  unfolding dump_data_csv_def no_eighth_name by (auto simp: Let_def)

definition dump_options :: "string \<Rightarrow> bool \<Rightarrow> (char \<times> string) list" where
  "dump_options name csv = (CHR ''f'', name) # (if csv then [(CHR ''o'', ''csv'')] else [])"

lemma dump_options_processed:
  "process_options (prog # ''dump'' # rest) (dump_options name csv) default_options =
     (0, default_options\<lparr>command := CMD_DUMP, output_file := Some name, out_format := if csv then FMT_CSV else FMT_RAW\<rparr>)"
  by (simp add: process_options_def parse_command_def dump_options_def ctrl_option_def parse_format_def default_options_def)

text \<open>
  Claim C34: the \<open>dump\<close> command end to end. When nothing in the system fails and the log holds
  at least twelve bytes (one entry has 76), the raw format writes to the file a line with the number of bytes followed by exactly the
  first 760000 bytes of the kernel's log (all of it when it is shorter), and leaves the log, the
  descriptors and the memory of the process as they were. With the CSV format the same run is
  undefined whenever the data is a whole number of entries, because the header line prints eight
  counter names from a table of seven.
\<close>

theorem dump_end_to_end:
  assumes "system_ok (init_env e)" and "system_ok (call_env e)" and "dmalloc_ok e" and "fopen_ok e"
    and "res_ok (kernel u)" and "pmu_log_buffer (kernel u) \<noteq> None" and "pmu_log_buffer_size (kernel u) > 0"
    and "n = min 760000 (pmu_log_data_size (kernel u))" and "12 \<le> n"
  shows "\<exists>t. fds t = fds u \<and> uheap t = uheap u \<and> log_contents (kernel t) = log_contents (kernel u) \<and>
    dpfctrl e (prog # ''dump'' # rest) (dump_options name csv) (u, fs) =
      (if \<not> csv then Some (0, t, fs(name \<mapsto> text_line (''# Raw PMU data, size: '' @ dec n @ '' bytes'') @
                                               take n (log_contents (kernel u))))
       else if n mod 76 = 0 then None
       else Some (0, t, fs(name \<mapsto> text_line ''# Note: Invalid PMU data size'')))"
proof -
  let ?g = "greeted (init_env e) u" and ?b = "entries_to_bytes DEFAULT_BUFFER_ENTRIES"
  have b: "unat (ucast ?b :: u32) = 760000" "(ucast ?b :: u32) \<noteq> 0"
    by (simp_all add: entries_to_bytes_def const_simps)
  have k: "pmu_log_buffer (kernel ?g) \<noteq> None" "pmu_log_buffer_size (kernel ?g) > 0" using assms(6,7) by simp_all
  have n: "n = (if (ucast ?b :: u32) = 0 then pmu_log_data_size (kernel ?g)
      else min (unat (ucast ?b :: u32)) (pmu_log_data_size (kernel ?g)))"
    unfolding b(1) if_not_P [OF b(2)] greeted_frame by (rule assms(8))
  have bounds: "n = 0 \<or> 12 \<le> n" "n < 2 ^ 64" "n \<le> unat ?b" using assms(8,9) by simp_all
  obtain t where t: "kernel_pmu_log_read (call_env e) (unat ?b) ?b ?g = Some (0, Some (take n (log_contents (kernel ?g))), t)"
      "fds t = fds ?g" "uheap t = uheap ?g" "log_contents (kernel t) = log_contents (kernel ?g)"
    using log_read_delivers [OF assms(2) res_ok_greeted [OF assms(1,5)] k n bounds] by blast
  have len: "length (take n (log_contents (kernel u))) = n"
  proof -
    obtain bs where "pmu_log_buffer (kernel u) = Some bs" "length bs = pmu_log_buffer_size (kernel u)"
        "pmu_log_data_size (kernel u) \<le> pmu_log_buffer_size (kernel u)"
      using assms(5,6) by (auto simp: res_ok_def log_ok_def)
    then show ?thesis by (simp add: log_contents_def assms(8))
  qed
  let ?d = "take n (log_contents (kernel u))"
  define out where "out = (if csv then dump_data_csv ?d n
      else Some (text_line (''# Raw PMU data, size: '' @ dec n @ '' bytes'') @ ?d))"
  have h: "handle_dump e (Some name) (if csv then FMT_CSV else FMT_RAW) (?g, fs) =
      map_option (\<lambda>out. (t, fs(name \<mapsto> out))) out"
  proof -
    have "length ?d \<noteq> 0" using len assms(9) by simp
    then have "log_contents (kernel u) \<noteq> []" "n \<noteq> 0" by auto
    then show ?thesis
      using t(1) assms(3,4) len by (cases csv; cases out) (simp_all add: handle_dump_def Let_def out_def)
  qed
  have r: "dpfctrl e (prog # ''dump'' # rest) (dump_options name csv) (u, fs) =
      map_option (\<lambda>out. (0, t, fs(name \<mapsto> out))) out"
    unfolding dpfctrl_def dump_options_processed
    using h mode_init_ok [OF assms(1), of u] by (cases out) (simp_all add: Let_def)
  have "out = (if \<not> csv then Some (text_line (''# Raw PMU data, size: '' @ dec n @ '' bytes'') @ ?d)
      else if n mod 76 = 0 then None else Some (text_line ''# Note: Invalid PMU data size''))"
    using csv_defined_iff [of ?d n] assms(9) by (auto simp: out_def) (simp add: dump_data_csv_def)
  then show ?thesis using r t(2-4) by (intro exI [of _ t]) simp
qed

definition demo_denv :: denv where
  "demo_denv = \<lparr>init_env = demo_uenv, call_env = demo_uenv, dmalloc_ok = True, fopen_ok = True\<rparr>"

definition logged_ustate :: ustate where
  "logged_ustate = demo_ustate\<lparr>kernel := demo_kstate\<lparr>pmu_log_data_size := 152\<rparr>\<rparr>"

lemma logged_ok: "res_ok (kernel logged_ustate)" "pmu_log_buffer (kernel logged_ustate) = Some (replicate 200 0)"
  "pmu_log_buffer_size (kernel logged_ustate) = 200" "pmu_log_data_size (kernel logged_ustate) = 152" "fds logged_ustate = 3"
  using demo_res(1) demo_log_ready
  by (simp_all add: logged_ustate_def demo_ustate_def demo_kstate_simps res_ok_def buffer_ok_def log_ok_def ddr_ok_def
      io_balanced_def windows_def num_ctrl_def log_ready_def)

theorem dump_end_to_end_witness:
  "(\<exists>t. dpfctrl demo_denv [''dpfctrl'', ''dump''] (dump_options ''log'' False) (logged_ustate, Map.empty) =
      Some (0, t, [''log'' \<mapsto> text_line (''# Raw PMU data, size: '' @ dec 152 @ '' bytes'') @ replicate 152 0])) \<and>
   dpfctrl demo_denv [''dpfctrl'', ''dump''] (dump_options ''log'' True) (logged_ustate, Map.empty) = None"
proof -
  have e: "system_ok (init_env demo_denv)" "system_ok (call_env demo_denv)" "dmalloc_ok demo_denv" "fopen_ok demo_denv"
    using demo_system_ok by (simp_all add: demo_denv_def)
  have l: "log_contents (kernel logged_ustate) = replicate 152 0" by (simp add: log_contents_def logged_ok)
  have h: "pmu_log_buffer (kernel logged_ustate) \<noteq> None" "0 < pmu_log_buffer_size (kernel logged_ustate)"
      "152 = min 760000 (pmu_log_data_size (kernel logged_ustate))" "12 \<le> (152 :: nat)"
    by (simp_all add: logged_ok)
  note d = dump_end_to_end [OF e logged_ok(1) h, of "''dpfctrl''" "[]" "''log''" _ Map.empty]
  show ?thesis using d [of False] d [of True] by (auto simp: l)
qed

section \<open>Starting the log\<close>

lemma reset_enabled_total: "\<exists>t. reset_enabled_cores e s = Some t \<and> resources t = resources s"
proof -
  have "\<exists>t. reset_enabled_cores e s = Some t \<and> True"
    unfolding reset_enabled_cores_def
    by (rule for_range_rule [where I = "\<lambda>_ _. True"]) (auto simp: core_at_def upd_core_def aget_def const_simps)
  then show ?thesis using reset_enabled_cores_resources by blast
qed

text \<open>Control of the log in reset mode: a fresh buffer of as many bytes as were requested.\<close>

lemma log_control_reset:
  assumes "\<forall>i m. kmalloc_ok e i m" and "res_ok s" and "rd_u32 req 8 = Some n" and "rd_u32 req 12 = Some 0" and "0 < n"
  shows "\<exists>t. api_pmu_log_control e req s = Some (0, t) \<and> pmu_logging_active t \<and> res_ok t \<and> log_contents t = [] \<and>
    pmu_log_buffer t \<noteq> None \<and> pmu_log_buffer_size t = unat n \<and> (\<exists>b. proc_buffer t = Some b \<and> proc_buffer_size t = length b \<and> b \<noteq> [])"
proof -
  define u where "u = (kmalloced (kfree_log_buffer (kmalloced s)))\<lparr>pmu_log_buffer := Some (replicate (unat n) 0),
      pmu_log_buffer_size := unat n, pmu_log_data_size := 0\<rparr>"
  have a: "log_alloc e (unat n) 0 (kmalloced s) = (0, u)"
    using assms(1,5) by (simp add: log_alloc_def Let_def u_def unat_gt_0 word_gt_0)
  have ou: "res_ok u" using log_alloc_kept(2) [OF a] assms(2) by simp
  obtain v where v: "reset_enabled_cores e u = Some v" "resources v = resources u" using reset_enabled_total by blast
  define w where "w = (if \<not> keep_running v then v\<lparr>keep_running := True, kt_period := LOG_PERIOD_NS, timer_active := True\<rparr> else v)
      \<lparr>pmu_logging_active := True\<rparr>"
  have w: "resources w = resources u" "pmu_logging_active w" using v(2) by (simp_all add: w_def resources_def)
  let ?b = "header DPF_MSG_PMU_LOG_CONTROL 20 @ le32 (word_of_nat (pmu_log_buffer_size w)) @ le32 0 @ le32 0"
  have r: "api_pmu_log_control e req s = Some (0, install_resp ?b w)"
    using assms(1,3,4) a v(1) by (simp add: api_pmu_log_control_def Let_def w_def)
  have p: "pmu_log_buffer w = Some (replicate (unat n) 0)" "pmu_log_buffer_size w = unat n" "pmu_log_data_size w = 0"
    using w(1) by (simp_all add: resources_def u_def)
  have "res_ok (install_resp ?b w)" using ou resources_cong(2) [OF w(1)] by (simp add: handler_simps)
  moreover have "pmu_logging_active (install_resp ?b w)"
    using w(2) by (simp add: install_resp_def kfree_proc_buffer_def kfreed_def)
  moreover have "log_contents (install_resp ?b w) = []" by (simp add: log_contents_def p)
  ultimately show ?thesis using r p by (simp del: append_is_Nil_conv)
qed

lemma active_kfreed [simp]: "pmu_logging_active (kfreed k) = pmu_logging_active k" "log_ok (kfreed k) = log_ok k"
  by (simp_all add: kfreed_def log_ok_def)

lemma log_start_ok:
  assumes "system_ok e" and "res_ok (kernel u)" and "0 < (ucast entries :: u32)"
  shows "\<exists>t. kernel_pmu_log_start e entries 0 u = Some (0, t) \<and> log_ready (kernel t) \<and> log_contents (kernel t) = [] \<and>
    pmu_log_buffer_size (kernel t) = unat (ucast entries :: u32) \<and> fds t = fds u"
proof -
  let ?body = "le32 (ucast entries) @ le32 0"
  let ?req = "header DPF_MSG_PMU_LOG_CONTROL 16 @ ?body"
  have m: "\<forall>i m. kmalloc_ok (calls e 0) i m" using assms(1) by (simp add: system_ok_def)
  have f: "rd_u32 ?req 8 = Some (ucast entries)" "rd_u32 ?req 12 = Some 0" by simp_all
  obtain k b where k: "api_pmu_log_control (calls e 0) ?req (receiving (kernel u)) = Some (0, k)" "pmu_logging_active k" "res_ok k"
      "log_contents k = []" "pmu_log_buffer k \<noteq> None" "pmu_log_buffer_size k = unat (ucast entries :: u32)"
      "proc_buffer k = Some b" "proc_buffer_size k = length b" "b \<noteq> []"
    using log_control_reset [OF m res_ok_receiving [OF assms(2)] f assms(3)] by blast
  have "dispatch (calls e 0) DPF_MSG_PMU_LOG_CONTROL ?req (receiving (kernel u)) = Some (0, k)"
    using k(1) by (simp add: dispatch_def const_simps)
  then have "kernel_pmu_log_start e entries 0 u = Some (0, u\<lparr>kernel := kfreed k\<rparr>)"
    unfolding kernel_pmu_log_start_def
    using request_answered [OF assms(1), of ?body DPF_MSG_PMU_LOG_CONTROL 16 u 0 k b True 20] k(7-9) by (simp add: MAX_MSG_SIZE_def)
  moreover have "0 < unat (ucast entries :: u32)" using assms(3) by (simp add: unat_gt_0 word_gt_0)
  ultimately show ?thesis using k(2-6) by (simp add: log_ready_def res_ok_def)
qed

definition start_options :: "nat \<Rightarrow> (char \<times> string) list" where
  "start_options n = [(CHR ''s'', dec n), (CHR ''m'', ''reset'')]"

lemma start_options_processed:
  assumes "0 < n" and "n < 2 ^ 31"
  shows "process_options (prog # ''start'' # rest) (start_options n) default_options =
     (0, default_options\<lparr>command := CMD_START, buffer_entries := word_of_nat n, log_mode := 0\<rparr>)"
proof -
  have "fst (strtol (dec n)) = int n" using strtol_dec [of n] assms(2) by simp
  moreover have "int32 (int n) = int n" using assms(2) by (simp add: int32_id)
  moreover have "(word_of_nat n :: u64) \<noteq> 0"
    using assms by (simp add: word_of_nat_eq_0_iff nat_dvd_not_less)
  ultimately show ?thesis
    by (simp add: process_options_def parse_command_def start_options_def ctrl_option_def default_options_def)
qed

text \<open>
  Claim C35: the size given to the \<open>start\<close> command. The option is documented as a number of
  entries, and the kernel takes it as a number of bytes: after \<open>dpfctrl start --size n --mode reset\<close>,
  when nothing fails, the log is active and empty, and of any sequence of entries that the kernel
  then appends it keeps exactly the first \<open>n div 76\<close>.
\<close>

theorem start_size_is_bytes:
  assumes "system_ok (init_env e)" and "system_ok (call_env e)" and "res_ok (kernel u)"
    and "0 < n" and "n < 2 ^ 31" and "\<forall>d \<in> set entries. length d = PMU_ENTRY_SIZE_BYTES"
  shows "\<exists>t k. dpfctrl e (prog # ''start'' # rest) (start_options n) (u, fs) = Some (0, t, fs) \<and>
    log_ready (kernel t) \<and> log_contents (kernel t) = [] \<and>
    app_all api_pmu_log_append_data entries (kernel t) = Some k \<and>
    log_contents k = concat (take (n div PMU_ENTRY_SIZE_BYTES) entries)"
proof -
  let ?g = "greeted (init_env e) u"
  have "unat (ucast (word_of_nat n :: u64) :: u32) = n"
    using assms(5) by (simp add: unsigned_ucast_eq unsigned_of_nat take_bit_nat_eq_self)
  then have n: "unat (ucast (word_of_nat n :: u64) :: u32) = n" "0 < (ucast (word_of_nat n :: u64) :: u32)"
    using assms(4) by (auto simp: word_gt_0 simp flip: unat_gt_0)
  obtain t where t: "kernel_pmu_log_start (call_env e) (word_of_nat n) 0 ?g = Some (0, t)" "log_ready (kernel t)"
      "log_contents (kernel t) = []" "pmu_log_buffer_size (kernel t) = n"
    using log_start_ok [OF assms(2) res_ok_greeted [OF assms(1,3)] n(2)] n(1) by auto
  obtain k where k: "app_all api_pmu_log_append_data entries (kernel t) = Some k"
      "log_contents k = concat (take (n div PMU_ENTRY_SIZE_BYTES) entries)"
    using pmu_log.app_all_prefix [OF t(2), of entries PMU_ENTRY_SIZE_BYTES] assms(6) t(3,4) by auto
  have "dpfctrl e (prog # ''start'' # rest) (start_options n) (u, fs) = Some (0, t, fs)"
    unfolding dpfctrl_def start_options_processed [OF assms(4,5)]
    using mode_init_ok [OF assms(1), of u] t(1) by (simp add: Let_def handle_start_def)
  then show ?thesis using t k by blast
qed

text \<open>The documented example: of 200 entries only 131 are kept in a log for 10000.\<close>

theorem start_size_is_bytes_witness:
  "\<exists>t k. dpfctrl demo_denv [''dpfctrl'', ''start''] (start_options 10000) (demo_ustate, Map.empty) = Some (0, t, Map.empty) \<and>
     app_all api_pmu_log_append_data (replicate 200 (replicate 76 1)) (kernel t) = Some k \<and>
     log_contents k = concat (replicate 131 (replicate 76 1))"
proof -
  have e: "system_ok (init_env demo_denv)" "system_ok (call_env demo_denv)"
    using demo_system_ok by (simp_all add: demo_denv_def)
  have l: "\<forall>d \<in> set (replicate 200 (replicate 76 (1 :: u8))). length d = PMU_ENTRY_SIZE_BYTES" by simp
  show ?thesis
    using start_size_is_bytes [OF e demo_res_ok _ _ l, of 10000 "''dpfctrl''" "[]" Map.empty] by (simp add: min_def) blast
qed


end
