(* ===== verification/Console.thy ===== *)
theory Console
  imports User_Api User_Pmu Sysdetect C_String
begin

text \<open>
  The terminal console of \<open>tools/console\<close>: the snapshot of all cores and of the memory bandwidth
  that it takes through the request library (\<open>metrics.c\<close>, \<open>snapshot.c\<close>, \<open>tuning.c\<close>), the system
  information (\<open>sysinfo.c\<close>), the text of the two views and scrolling (\<open>console_views.c\<close>), and the
  event loop (\<open>console.c\<close>).

  The library copies more values than the snapshot's arrays have entries (8 counters into 7, 7
  registers into 6), so the structure \<open>dpf_console_snapshot_s\<close> is modelled as the memory it
  occupies, as 64-bit slots: row \<open>i\<close> has the core number in the lower half of slot \<open>14 i\<close>, the
  counters from \<open>14 i + 1\<close>, the registers from \<open>14 i + 8\<close>; after the 64 rows come the number of
  rows, the two bandwidths and the tuning switch. A copy that leaves this memory is undefined, one
  that runs into the next member changes it.

  Parameters: the environments of the library calls (\<open>cenv\<close>, \<open>ienv\<close>), the size of the window and
  the keys. Terminal attributes, colours and when the screen is redrawn are not modelled; the
  header line with its floating-point output is left out.
\<close>

section \<open>The snapshot's memory\<close>

definition NUM_PMU :: nat where [const_simps]: "NUM_PMU = 7"
definition NUM_MSR :: nat where [const_simps]: "NUM_MSR = 6"
definition MAX_CORES :: int where [const_simps]: "MAX_CORES = 64"

type_synonym snapshot_mem = "nat \<Rightarrow> u64"

definition row_slot :: "int \<Rightarrow> nat" where "row_slot i = 14 * nat i"
definition pmu_slot :: "int \<Rightarrow> nat" where "pmu_slot i = row_slot i + 1"
definition msr_slot :: "int \<Rightarrow> nat" where "msr_slot i = row_slot i + 1 + NUM_PMU"
definition count_slot :: nat where [const_simps]: "count_slot = 896"
definition read_bw_slot :: nat where [const_simps]: "read_bw_slot = 897"
definition write_bw_slot :: nat where [const_simps]: "write_bw_slot = 898"
definition tuning_slot :: nat where [const_simps]: "tuning_slot = 899"
definition snapshot_slots :: nat where [const_simps]: "snapshot_slots = 900"

text \<open>An \<open>int\<close> member is the lower half of its slot, the upper half is padding.\<close>

definition int_member :: bitfield where "int_member = \<lparr>bf_off = 0, bf_width = 32\<rparr>"

definition get_int :: "snapshot_mem \<Rightarrow> nat \<Rightarrow> int" where
  "get_int m k = int32 (uint (bf_get int_member (m k)))"

definition put_int :: "nat \<Rightarrow> int \<Rightarrow> snapshot_mem \<Rightarrow> snapshot_mem" where
  "put_int k v m = m(k := bf_set int_member (word_of_int v) (m k))"

definition copy_to :: "nat \<Rightarrow> u64 list \<Rightarrow> snapshot_mem \<Rightarrow> snapshot_mem option" where
  "copy_to k vs m =
     (if k + length vs \<le> snapshot_slots
      then Some (\<lambda>j. if k \<le> j \<and> j < k + length vs then vs ! (j - k) else m j) else None)"

section \<open>Metrics\<close>

text \<open>The destination is given by its slot; the null tests on it are for callers that do not exist.\<close>

definition read_pmu :: "uenv \<Rightarrow> int \<Rightarrow> nat \<Rightarrow> snapshot_mem \<times> ustate \<Rightarrow> (int \<times> snapshot_mem \<times> ustate) option" where
  "read_pmu e core_id dest st =
     (if core_id < 0 \<or> core_id \<ge> MAX_CORES then Some (-1, st)
      else do { (ret, vs, u) \<leftarrow> kernel_pmu_read e (word_of_int core_id) (snd st);
                m \<leftarrow> (case vs of None \<Rightarrow> Some (fst st) | Some vs \<Rightarrow> copy_to dest vs (fst st));
                Some (if ret < 0 then -1 else 0, m, u) })"

definition read_msr :: "uenv \<Rightarrow> int \<Rightarrow> nat \<Rightarrow> snapshot_mem \<times> ustate \<Rightarrow> (int \<times> snapshot_mem \<times> ustate) option" where
  "read_msr e core_id dest st =
     (if core_id < 0 \<or> core_id \<ge> MAX_CORES then Some (-1, st)
      else do { (ret, vs, u) \<leftarrow> kernel_msr_read e (word_of_int core_id) (snd st);
                m \<leftarrow> (case vs of None \<Rightarrow> Some (fst st) | Some vs \<Rightarrow> copy_to dest vs (fst st));
                Some (if ret < 0 then -1 else 0, m, u) })"

definition read_ddr_bw :: "uenv \<Rightarrow> snapshot_mem \<times> ustate \<Rightarrow> (int \<times> snapshot_mem \<times> ustate) option" where
  "read_ddr_bw e st =
     do { (ret, bw, u) \<leftarrow> kernel_ddr_bw_read e (snd st);
          let m = (case bw of None \<Rightarrow> fst st | Some (rd, wr) \<Rightarrow> (fst st)(read_bw_slot := rd, write_bw_slot := wr));
          Some (if ret < 0 then -1 else 0, m, u) }"

definition DEFAULT_TUNING_ALG :: u32 where [const_simps]: "DEFAULT_TUNING_ALG = 0"
definition DEFAULT_AGGRESSION_FACTOR :: cfloat where "DEFAULT_AGGRESSION_FACTOR = f_of_int binary32 1"

definition start_tuning :: "uenv \<Rightarrow> int \<Rightarrow> ustate \<Rightarrow> (int \<times> ustate) option" where
  "start_tuning e tuning_enabled u =
     do { (ret, u) \<leftarrow> kernel_tuning_control e (word_of_int tuning_enabled) DEFAULT_TUNING_ALG DEFAULT_AGGRESSION_FACTOR u;
          Some (if ret < 0 then -1 else 0, u) }"

definition stop_tuning :: "uenv \<Rightarrow> int \<Rightarrow> ustate \<Rightarrow> (int \<times> ustate) option" where
  "stop_tuning e tuning_enabled u =
     do { (ret, u) \<leftarrow> kernel_tuning_control e (word_of_int tuning_enabled) DEFAULT_TUNING_ALG DEFAULT_AGGRESSION_FACTOR u;
          Some (if ret < 0 then -1 else 0, u) }"

section \<open>One snapshot\<close>

record cenv =
  pmu_env :: "int \<Rightarrow> uenv"
  msr_env :: "int \<Rightarrow> uenv"
  bw_env :: uenv
  tune_env :: uenv

text \<open>The body of the loop over the cores. Leaving the loop when the index reaches the number of
  rows is the same as doing nothing in all further rounds.\<close>

definition snapshot_core :: "cenv \<Rightarrow> int \<Rightarrow> int \<times> snapshot_mem \<times> ustate \<Rightarrow> (int \<times> snapshot_mem \<times> ustate) option" where
  "snapshot_core e core st =
     (case st of (core_index, m, u) \<Rightarrow>
        if core_index \<ge> MAX_CORES then Some (core_index, m, u)
        else do { let m = put_int (row_slot core_index) core m;
                  (ret, m, u) \<leftarrow> read_pmu (pmu_env e core) core (pmu_slot core_index) (m, u);
                  if ret \<noteq> 0 then Some (core_index, m, u)
                  else do { (ret, m, u) \<leftarrow> read_msr (msr_env e core) core (msr_slot core_index) (m, u);
                            Some (if ret \<noteq> 0 then core_index else core_index + 1, m, u) } })"

definition snapshot_cores :: "cenv \<Rightarrow> int \<Rightarrow> int \<Rightarrow> snapshot_mem \<times> ustate \<Rightarrow> (int \<times> snapshot_mem \<times> ustate) option" where
  "snapshot_cores e core_first core_last st = for_range core_first (core_last + 1) (snapshot_core e) (0, fst st, snd st)"

definition update_console_snapshot ::
    "cenv \<Rightarrow> int \<Rightarrow> int \<Rightarrow> snapshot_mem \<times> ustate \<Rightarrow> (int \<times> snapshot_mem \<times> ustate) option" where
  "update_console_snapshot e core_first core_last st =
     (if core_first < 0 \<or> core_last \<ge> MAX_CORES \<or> core_first > core_last then Some (-1, st)
      else if core_last - core_first + 1 > MAX_CORES then Some (-1, st)
      else do { (core_index, m, u) \<leftarrow> snapshot_cores e core_first core_last st;
                let m = put_int count_slot core_index m;
                if core_index = 0 then Some (-1, m, u)
                else do { (ret, m, u) \<leftarrow> read_ddr_bw (bw_env e) (m, u);
                          if ret \<noteq> 0 then Some (-1, m(read_bw_slot := 0, write_bw_slot := 0), u)
                          else if get_int m tuning_slot = 1
                          then do { (_, u) \<leftarrow> start_tuning (tune_env e) 1 u; Some (0, m, u) }
                          else if get_int m tuning_slot = 0
                          then do { (_, u) \<leftarrow> stop_tuning (tune_env e) 0 u; Some (0, m, u) }
                          else Some (0, m, u) } })"

section \<open>System information\<close>

record dpf_console_sysinfo_s =
  is_hybrid :: int
  first_core :: int
  last_core :: int
  confirmed_bar :: u64
  confirmed_ddr_type :: int
  num_ddr_channels :: int
  theoretical_bw :: int

record ienv =
  pcie_init_ok :: bool
  mode_env :: uenv
  detect_env :: uenv
  trigger_env :: uenv
  config_env :: uenv
  hardware :: sys_env
  pci_bus :: "pci_dev list"
  physical :: mem_os
  dmi_table :: "bytes option"
  dmi_stack :: "type17_s arr"

definition kernel_ddr_detect :: "ienv \<Rightarrow> ustate \<Rightarrow> (int \<times> ustate) option" where
  "kernel_ddr_detect e u =
     do { (ret, u) \<leftarrow> kernel_mode_init (detect_env e) u;
          if ret < 0 then Some (-1, u)
          else do { (ret, u) \<leftarrow> kernel_set_ddr_bandwidth (trigger_env e) 0 u;
                    Some (if ret < 0 then -1 else 0, u) } }"

text \<open>\<open>get_hybridflag\<close> is defined in \<open>sysinfo.c\<close> as in \<open>sysdetect.c\<close>; the result of \<open>pmu_ddr_init\<close>
  is not used.\<close>

definition collect_sysinfo ::
    "ienv \<Rightarrow> dpf_console_sysinfo_s \<times> upmu \<times> ustate \<Rightarrow> (int \<times> dpf_console_sysinfo_s \<times> upmu \<times> ustate) option" where
  "collect_sysinfo e st =
     (case st of (out, pm, u) \<Rightarrow>
      if \<not> pcie_init_ok e then Some (-1, out, pm, u)
      else do { (ret, u) \<leftarrow> kernel_mode_init (mode_env e) u;
                if ret < 0 then Some (-1, out, pm, u)
                else do { let (first, lst) = get_efficient_core_ids (hardware e);
                          let out = out\<lparr>is_hybrid := uint (get_hybridflag (hardware e)), first_core := first, last_core := lst\<rparr>;
                          (_, pm) \<leftarrow> pmu_ddr_init (physical e) (pci_bus e) True (pm\<lparr>u_ddr := zero_ddr\<rparr>);
                          (ret, u) \<leftarrow> kernel_ddr_detect e u;
                          if ret < 0 then Some (-1, out, pm, u)
                          else do { (ret, u) \<leftarrow> kernel_set_ddr_config (config_env e) (u_ddr pm) u;
                                    if ret < 0 then Some (-1, out, pm, u)
                                    else do { bw \<leftarrow> dmi_get_bandwidth (dmi_stack e) (dmi_table e);
                                              Some (0, out\<lparr>confirmed_bar := bar_address (u_ddr pm),
                                                 confirmed_ddr_type := ddr_interface_type (u_ddr pm),
                                                 num_ddr_channels := ddr_num_controllers (u_ddr pm),
                                                 theoretical_bw := bw\<rparr>, pm, u) } } } })"

section \<open>Views\<close>

definition pad_right :: "nat \<Rightarrow> string \<Rightarrow> string" where
  "pad_right n s = s @ replicate (n - length s) CHR '' ''"

text \<open>Text printed in a window: row, column, characters.\<close>

type_synonym printed_text = "int \<times> int \<times> string"

definition title_bar :: "string list \<Rightarrow> int \<Rightarrow> int \<Rightarrow> printed_text list" where
  "title_bar titles pos_x space =
     (0, 2, ''Core'') # map (\<lambda>i. (0, pos_x + int (i - 1) * space, titles ! i)) [1..<length titles]"

definition pmu_headers :: "string list" where
  "pmu_headers = [''Core'', ''All Loads'', ''L2 Hit'', ''L3 Hit'', ''DRAM Hit'', ''XQ Promo'', ''Cycles'', ''Instr'']"

definition msr_headers :: "string list" where
  "msr_headers = [''Core'', ''0x1320'', ''0x1321'', ''0x1322'', ''0x1323'', ''0x1324'', ''0x1a4'']"

definition showing :: "int \<Rightarrow> int \<Rightarrow> int \<Rightarrow> string" where
  "showing viewable_rows scroll_offset num_metrics =
     ''Showing '' @ dec_int (scroll_offset + 1) @ ''-'' @
     dec_int (if scroll_offset + viewable_rows > num_metrics then num_metrics else scroll_offset + viewable_rows) @
     '' of '' @ dec_int num_metrics"

definition core_label :: "snapshot_mem \<Rightarrow> nat \<Rightarrow> printed_text" where
  "core_label m i = (4 + int i, 2, ''Core '' @ pad_right 2 (dec_int (get_int m (row_slot (int i)))))"

definition pmu_row :: "snapshot_mem \<Rightarrow> nat \<Rightarrow> printed_text list" where
  "pmu_row m i = core_label m i #
     map (\<lambda>j. (4 + int i, 12 + 16 * int j, pad_right 15 (dec (unat (m (pmu_slot (int i) + j)))))) [0..<NUM_PMU]"

definition msr_row :: "snapshot_mem \<Rightarrow> nat \<Rightarrow> printed_text list" where
  "msr_row m i = core_label m i #
     map (\<lambda>j. (4 + int i, 12 + 18 * int j, pad_right 35 (hex (unat (m (msr_slot (int i) + j)))))) [0..<NUM_MSR]"

text \<open>The rows of a view; reading beyond the last row of the snapshot is undefined.\<close>

definition view_rows :: "(snapshot_mem \<Rightarrow> nat \<Rightarrow> printed_text list) \<Rightarrow> int \<Rightarrow> snapshot_mem \<Rightarrow> printed_text list option" where
  "view_rows row viewable_rows m =
     (let n = min (get_int m count_slot) viewable_rows
      in if n > MAX_CORES then None else Some (concat (map (row m) [0..<nat n])))"

text \<open>The main window and its title bar.\<close>

definition pmu_view :: "int \<Rightarrow> int \<Rightarrow> int \<Rightarrow> snapshot_mem \<Rightarrow> (printed_text list \<times> printed_text list) option" where
  "pmu_view max_rows scroll_offset num_metrics m =
     (let viewable_rows = max_rows - 8
      in do { rows \<leftarrow> view_rows pmu_row viewable_rows m;
              Some ((1, 2, ''PMU Counters'') # rows @
                      [(max_rows - 2, 2, showing viewable_rows scroll_offset num_metrics),
                       (max_rows - 1, 2, '' Press [s] Start tuning, [t] Stop tuning, [p] ''),
                       (max_rows - 1, 48, ''PMU''), (max_rows - 1, 51, '', [m] MSR, [q] quit '')],
                    title_bar pmu_headers 12 16) })"

definition msr_view :: "int \<Rightarrow> int \<Rightarrow> int \<Rightarrow> snapshot_mem \<Rightarrow> (printed_text list \<times> printed_text list) option" where
  "msr_view max_rows scroll_offset num_metrics m =
     (let viewable_rows = max_rows - 8
      in do { rows \<leftarrow> view_rows msr_row viewable_rows m;
              Some ((1, 2, ''MSR Settings'') # rows @
                      [(max_rows - 2, 2, showing viewable_rows scroll_offset num_metrics),
                       (max_rows - 1, 2, '' Press [s] Start tuning, [t] Stop tuning, [p] PMU, [m] ''),
                       (max_rows - 1, 57, ''MSR''), (max_rows - 1, 60, '', [q] quit '')],
                    title_bar msr_headers 12 18) })"

datatype key = Key_Up | Key_Down | Key_Char char

definition scrollable :: "key \<Rightarrow> int \<Rightarrow> int \<Rightarrow> int \<Rightarrow> int" where
  "scrollable ch max_rows num_metrics scroll_offset =
     (let viewable_rows = max_rows - 4
      in if (ch = Key_Down \<or> ch = Key_Char CHR ''j'') \<and> scroll_offset + viewable_rows < num_metrics then scroll_offset + 1
         else if (ch = Key_Up \<or> ch = Key_Char CHR ''k'') \<and> scroll_offset > 0 then scroll_offset - 1
         else scroll_offset)"

section \<open>The event loop\<close>

record console_state =
  snap :: snapshot_mem
  client :: ustate
  ddr_pmu :: upmu
  info :: dpf_console_sysinfo_s
  current_view :: int
  offset :: int
  metrics :: int

definition update_metrics :: "ienv \<Rightarrow> cenv \<Rightarrow> int \<Rightarrow> int \<Rightarrow> console_state \<Rightarrow> console_state option" where
  "update_metrics ie e core_first core_last st =
     do { (ret, out, pm, u) \<leftarrow> collect_sysinfo ie (info st, ddr_pmu st, client st);
          let st = st\<lparr>info := out, ddr_pmu := pm, client := u\<rparr>;
          if ret \<noteq> 0 then Some st
          else do { (ret, m, u) \<leftarrow> update_console_snapshot e core_first core_last (snap st, client st);
                    let st = st\<lparr>snap := m, client := u\<rparr>;
                    Some (if ret = 0 then st\<lparr>metrics := last_core (info st) - first_core (info st) + 1\<rparr> else st) } }"

definition handle_key :: "key \<Rightarrow> int \<Rightarrow> console_state \<Rightarrow> console_state" where
  "handle_key ch max_rows st =
     (let st = (if ch = Key_Char CHR ''s'' then st\<lparr>snap := put_int tuning_slot 1 (snap st)\<rparr>
                else if ch = Key_Char CHR ''t'' then st\<lparr>snap := put_int tuning_slot 0 (snap st)\<rparr>
                else if ch = Key_Char CHR ''p'' then st\<lparr>current_view := 0\<rparr>
                else if ch = Key_Char CHR ''m'' then st\<lparr>current_view := 1\<rparr>
                else st)
      in st\<lparr>offset := scrollable ch max_rows (metrics st) (offset st)\<rparr>)"

text \<open>One pass of the loop, with the key that is waiting, if any; the result says whether the loop
  is left. A key is only read when the snapshot succeeded.\<close>

definition console_pass ::
    "int \<Rightarrow> int \<Rightarrow> cenv \<times> int \<times> key option \<Rightarrow> console_state \<Rightarrow> (bool \<times> console_state) option" where
  "console_pass core_first core_last p st =
     (case p of (e, max_rows, ch) \<Rightarrow>
        do { (ret, m, u) \<leftarrow> update_console_snapshot e core_first core_last (snap st, client st);
             let st = st\<lparr>snap := m, client := u\<rparr>;
             Some (if ret \<noteq> 0 then (False, st)
                   else case ch of None \<Rightarrow> (False, st)
                        | Some k \<Rightarrow> if k = Key_Char CHR ''q'' then (True, st) else (False, handle_key k max_rows st)) })"

fun console_loop ::
    "int \<Rightarrow> int \<Rightarrow> (cenv \<times> int \<times> key option) list \<Rightarrow> console_state \<Rightarrow> (bool \<times> console_state) option" where
  "console_loop core_first core_last [] st = Some (False, st)"
| "console_loop core_first core_last (p # ps) st =
     do { (quit, st) \<leftarrow> console_pass core_first core_last p st;
          if quit then Some (True, st) else console_loop core_first core_last ps st }"

definition console_detect_cores :: "sys_env \<Rightarrow> int \<Rightarrow> int \<Rightarrow> (int \<times> int) option" where
  "console_detect_cores e core_first core_last =
     (if core_first = -1 \<or> core_last = -1
      then let (first, lst) = get_efficient_core_ids e
           in if first = -1 \<or> lst = -1 then None else Some (first, lst)
      else Some (core_first, core_last))"

text \<open>\<open>main\<close>, run for a number of passes: the exit status, or \<open>None\<close> while the loop is running.
  \<open>greet_env\<close> and \<open>range_env\<close> are the environments of the first two requests.\<close>

definition console_main ::
    "uenv \<Rightarrow> uenv \<Rightarrow> ienv \<Rightarrow> cenv \<Rightarrow> (cenv \<times> int \<times> key option) list \<Rightarrow> console_state \<Rightarrow> (int option \<times> console_state) option" where
  "console_main greet_env range_env ie e passes st =
     do { (ret, u) \<leftarrow> kernel_mode_init greet_env (client st);
          let st = st\<lparr>client := u\<rparr>;
          if ret < 0 then Some (Some 1, st)
          else case console_detect_cores (hardware ie) (-1) (-1) of
                 None \<Rightarrow> Some (Some 1, st)
               | Some (first, lst) \<Rightarrow>
                   do { (ret, u) \<leftarrow> kernel_core_range range_env (word_of_int first) (word_of_int lst) (client st);
                        let st = st\<lparr>client := u\<rparr>;
                        if ret < 0 then Some (Some 1, st)
                        else do { st \<leftarrow> update_metrics ie e first lst st;
                                  (quit, st) \<leftarrow> console_loop first lst passes st;
                                  Some (if quit then Some 0 else None, st) } } }"

section \<open>Memory\<close>

lemma get_put_int: "- (2 ^ 31) \<le> v \<Longrightarrow> v < 2 ^ 31 \<Longrightarrow> get_int (put_int k v m) k = v"
proof -
  assume v: "- (2 ^ 31) \<le> v" "v < 2 ^ 31"
  have "uint (bf_get int_member (bf_set int_member (word_of_int v) (m k))) = v mod 2 ^ 32"
    using uint_take_bit_word_of_int [of 32 v] by (simp add: bf_get_set bf_fits_def int_member_def)
  moreover have "(word_of_int (v mod 2 ^ 32) :: u32) = word_of_int v" by (simp add: word_of_int_eq_iff take_bit_eq_mod)
  ultimately have "get_int (put_int k v m) k = int32 v" by (simp add: get_int_def put_int_def int32_def)
  then show ?thesis using int32_id v by simp
qed

lemma put_int_other [simp]: "j \<noteq> k \<Longrightarrow> put_int k v m j = m j"
  by (simp add: put_int_def)

lemma get_int_cong: "m k = m' k \<Longrightarrow> get_int m k = get_int m' k"
  by (simp add: get_int_def)

lemma copy_to_SomeI:
  assumes "k + length vs \<le> snapshot_slots"
  shows "\<exists>m'. copy_to k vs m = Some m' \<and> (\<forall>j < length vs. m' (k + j) = vs ! j) \<and>
    (\<forall>j. j < k \<or> k + length vs \<le> j \<longrightarrow> m' j = m j)"
  using assms by (auto simp: copy_to_def)

lemma slots [simp]: "pmu_slot i = row_slot i + 1" "msr_slot i = row_slot i + 8"
  by (simp_all add: pmu_slot_def msr_slot_def const_simps)

section \<open>Reading one core\<close>

lemma same_readings_readable: "same_readings s t \<Longrightarrow> core_readable c t = core_readable c s"
  by (simp add: same_readings_def core_readable_def)

lemma same_readings_trans: "same_readings s t \<Longrightarrow> same_readings t u \<Longrightarrow> same_readings s u"
  by (simp add: same_readings_def)

text \<open>What a row of the snapshot shows: the core's number, the counters as sampled and the registers
  as the kernel holds them.\<close>

definition row_shows :: "cenv \<Rightarrow> kstate \<Rightarrow> snapshot_mem \<Rightarrow> int \<Rightarrow> int \<Rightarrow> bool" where
  "row_shows e k m i core \<longleftrightarrow> get_int m (row_slot i) = core \<and>
     (\<forall>j < NUM_PMU. m (pmu_slot i + j) = pmc (calls (pmu_env e core) 0) (cpu (calls (pmu_env e core) 0)) j) \<and>
     (\<forall>j < NUM_MSR. m (msr_slot i + j) = pf_msr (corestate k (nat core)) j)"

lemma row_shows_cong:
  assumes "\<forall>k < row_slot i + 14. m' k = m k" and "pf_msr (corestate k' (nat core)) = pf_msr (corestate k (nat core))"
  shows "row_shows e k' m' i core = row_shows e k m i core"
  using assms get_int_cong [of m' "row_slot i" m] by (simp add: row_shows_def NUM_PMU_def NUM_MSR_def)

lemma snapshot_core_ok:
  assumes "0 \<le> core" "core < MAX_CORES" "0 \<le> i" "i < MAX_CORES"
    and "system_ok (pmu_env e core)" "system_ok (msr_env e core)" "core_readable (word_of_int core) (kernel u)"
  shows "\<exists>m' t. snapshot_core e core (i, m, u) = Some (i + 1, m', t) \<and> fds t = fds u \<and> same_readings (kernel u) (kernel t) \<and>
    row_shows e (kernel t) m' i core \<and> (\<forall>k. k < row_slot i \<or> row_slot i + 14 < k \<longrightarrow> m' k = m k) \<and>
    (\<forall>c. c \<noteq> nat core \<longrightarrow> pf_msr (corestate (kernel t) c) = pf_msr (corestate (kernel u) c))"
proof -
  let ?pe = "calls (pmu_env e core) 0" and ?c = "word_of_int core :: u32" and ?m = "put_int (row_slot i) core m"
  have c: "unat ?c = nat core" using assms(1,2) by (simp add: unat_eq_nat_uint uint_word_of_int_eq take_bit_int_eq_self const_simps)
  obtain v where v: "kernel_pmu_read (pmu_env e core) ?c u = Some (0, Some (map (pmc ?pe (cpu ?pe)) [0..<K_PMU_COUNTERS]), v)"
      "fds v = fds u" "same_readings (kernel u) (kernel v)" "\<forall>i. pf_msr (corestate (kernel v) i) = pf_msr (corestate (kernel u) i)"
    using pmu_read_sampled [OF assms(5,7)] by blast
  have r: "core_readable ?c (kernel v)" using same_readings_readable [OF v(3)] assms(7) by simp
  obtain t where t: "kernel_msr_read (msr_env e core) ?c v = Some (0, Some (map (pf_msr (corestate (kernel t) (unat ?c))) [0..<NR_OF_MSR]), t)"
      "fds t = fds v" "same_readings (kernel v) (kernel t)"
      "\<forall>i. i \<noteq> unat ?c \<longrightarrow> pf_msr (corestate (kernel t) i) = pf_msr (corestate (kernel v) i)"
    using msr_read_loaded [OF assms(6) r] by blast
  have b: "row_slot i + 15 \<le> snapshot_slots" using assms(3,4) by (simp add: row_slot_def const_simps)
  obtain m1 where m1: "copy_to (pmu_slot i) (map (pmc ?pe (cpu ?pe)) [0..<K_PMU_COUNTERS]) ?m = Some m1"
      "\<forall>j < 8. m1 (row_slot i + 1 + j) = pmc ?pe (cpu ?pe) j" "\<forall>j. j < row_slot i + 1 \<or> row_slot i + 9 \<le> j \<longrightarrow> m1 j = ?m j"
    using copy_to_SomeI [of "pmu_slot i" "map (pmc ?pe (cpu ?pe)) [0..<K_PMU_COUNTERS]" ?m] b by (auto simp: K_PMU_COUNTERS_def)
  obtain m2 where m2: "copy_to (msr_slot i) (map (pf_msr (corestate (kernel t) (unat ?c))) [0..<NR_OF_MSR]) m1 = Some m2"
      "\<forall>j < 7. m2 (row_slot i + 8 + j) = pf_msr (corestate (kernel t) (nat core)) j"
      "\<forall>j. j < row_slot i + 8 \<or> row_slot i + 15 \<le> j \<longrightarrow> m2 j = m1 j"
    using copy_to_SomeI [of "msr_slot i" "map (pf_msr (corestate (kernel t) (unat ?c))) [0..<NR_OF_MSR]" m1] b
    by (auto simp: NR_OF_MSR_def c)
  have range: "\<not> (core < 0 \<or> MAX_CORES \<le> core)" using assms(1,2) by simp
  have "snapshot_core e core (i, m, u) = Some (i + 1, m2, t)"
    using v(1) t(1) m1(1) m2(1) assms(4) range by (simp add: snapshot_core_def read_pmu_def read_msr_def)
  moreover have "row_shows e (kernel t) m2 i core"
  proof -
    have "m2 (row_slot i) = ?m (row_slot i)" using m1(3) m2(3) by simp
    then have "get_int m2 (row_slot i) = core"
      using get_put_int [of core "row_slot i" m] assms(1,2) get_int_cong [of m2 "row_slot i" ?m] by (simp add: const_simps)
    then show ?thesis using m1(2) m2(2,3) by (simp add: row_shows_def NUM_PMU_def NUM_MSR_def)
  qed
  moreover have "m2 k = m k" if "k < row_slot i \<or> row_slot i + 14 < k" for k using m1(3) m2(3) that by auto
  ultimately show ?thesis using v(2-4) t(2-4) c same_readings_trans [OF v(3) t(3)] by simp
qed

section \<open>A complete snapshot\<close>

text \<open>
  Claim C36: the rows of the console's snapshot are what the kernel reports, and nothing else is
  damaged. When nothing fails, the cores of the range are numbered below 64 and all of them are
  enabled in the kernel, the loop fills one row per core, in order, with the core's number, the first
  seven counters of the kernel's answer and the first six registers of its copy for that core, and the
  number of rows is that of the cores. The counters are those of the CPU that serves the request, not
  of the row's core, because the kernel samples where it runs; and the sixth register of the
  kernel's copy is 0x1327, which the register view then prints under the heading 0x1a4. The rows
  hold these values although each copy of the
  counters and of the registers is one value longer than its array: the extra counter lands in
  the row's first register, the extra register in the first slot after the row, and both are
  written again. Nothing beyond that slot is changed, so the bandwidths and the tuning switch
  stay.
\<close>

theorem snapshot_rows:
  assumes "0 \<le> first" and "first \<le> lst" and "lst < MAX_CORES"
    and "\<forall>c \<in> {first..lst}. system_ok (pmu_env e c) \<and> system_ok (msr_env e c) \<and> core_readable (word_of_int c) (kernel u)"
  shows "\<exists>m' t. snapshot_cores e first lst (m, u) = Some (lst - first + 1, m', t) \<and> fds t = fds u \<and>
    (\<forall>c \<in> {first..lst}. row_shows e (kernel t) m' (c - first) c) \<and>
    (\<forall>k > row_slot (lst - first + 1). m' k = m k)"
proof -
  define I where "I = (\<lambda>j (i, m' :: snapshot_mem, t :: ustate). i = j - first \<and> fds t = fds u \<and> same_readings (kernel u) (kernel t) \<and>
      (\<forall>c \<in> {first..<j}. row_shows e (kernel t) m' (c - first) c) \<and> (\<forall>k > row_slot (j - first). m' k = m k))"
  have "\<exists>st. for_range first (lst + 1) (snapshot_core e) (0, m, u) = Some st \<and> I (lst + 1) st"
  proof (rule for_range_rule)
    show "I first (0, m, u)" by (simp add: I_def same_readings_def)
    show "first \<le> lst + 1" using assms(2) by simp
    fix j st assume j: "first \<le> j" "j < lst + 1" and "I j st"
    then obtain m1 t1 where st: "st = (j - first, m1, t1)" and h: "fds t1 = fds u" "same_readings (kernel u) (kernel t1)"
        "\<forall>c \<in> {first..<j}. row_shows e (kernel t1) m1 (c - first) c" "\<forall>k > row_slot (j - first). m1 k = m k"
      by (cases st) (auto simp: I_def)
    have b: "0 \<le> j" "j < MAX_CORES" "0 \<le> j - first" "j - first < MAX_CORES" using j assms(1,3) by auto
    have ok: "system_ok (pmu_env e j)" "system_ok (msr_env e j)" "core_readable (word_of_int j) (kernel t1)"
      using assms(4) j same_readings_readable [OF h(2)] by auto
    obtain m2 t2 where s: "snapshot_core e j (j - first, m1, t1) = Some (j - first + 1, m2, t2)" "fds t2 = fds t1"
        "same_readings (kernel t1) (kernel t2)" "row_shows e (kernel t2) m2 (j - first) j"
        "\<forall>k. k < row_slot (j - first) \<or> row_slot (j - first) + 14 < k \<longrightarrow> m2 k = m1 k"
        "\<forall>c. c \<noteq> nat j \<longrightarrow> pf_msr (corestate (kernel t2) c) = pf_msr (corestate (kernel t1) c)"
      using snapshot_core_ok [OF b ok, of m1] by blast
    have next_slot: "row_slot (j + 1 - first) = row_slot (j - first) + 14" using b(3) by (simp add: row_slot_def)
    have "row_shows e (kernel t2) m2 (c - first) c" if "c \<in> {first..<j + 1}" for c
    proof (cases "c = j")
      case True
      then show ?thesis using s(4) by simp
    next
      case False
      then have c: "first \<le> c" "c < j" using that by auto
      have "row_slot (c - first) + 14 \<le> row_slot (j - first)" using c by (simp add: row_slot_def)
      moreover have "nat c \<noteq> nat j" using c assms(1) by simp
      ultimately show ?thesis
        using row_shows_cong [of "c - first" m2 m1 "kernel t2" c "kernel t1" e] s(5,6) h(3) c by simp
    qed
    then have "I (j + 1) (j - first + 1, m2, t2)"
      using s(2,3,5) h(1,2,4) next_slot same_readings_trans [of "kernel u" "kernel t1" "kernel t2"] by (simp add: I_def)
    then show "\<exists>st'. snapshot_core e j st = Some st' \<and> I (j + 1) st'" using s(1) st by blast
  qed
  then show ?thesis by (auto simp: I_def snapshot_cores_def algebra_simps)
qed

definition demo_cenv :: cenv where
  "demo_cenv = \<lparr>pmu_env = (\<lambda>_. demo_uenv), msr_env = (\<lambda>_. demo_uenv), bw_env = demo_uenv, tune_env = demo_uenv\<rparr>"

lemma demo_readable: "core_readable (word_of_int 1) (kernel demo_ustate)" "core_readable (word_of_int 2) (kernel demo_ustate)"
  by (simp_all add: core_readable_def demo_ustate_def demo_kstate_simps MAX_NUM_CORES_def)

theorem snapshot_rows_witness:
  "\<exists>m' t. snapshot_cores demo_cenv 1 2 (\<lambda>_. 0, demo_ustate) = Some (2, m', t) \<and>
     get_int m' (row_slot 0) = 1 \<and> get_int m' (row_slot 1) = 2 \<and> m' tuning_slot = 0"
proof -
  have "{1..2 :: int} = {1, 2}" by auto
  then have ok: "\<forall>c \<in> {1..2}. system_ok (pmu_env demo_cenv c) \<and> system_ok (msr_env demo_cenv c) \<and>
      core_readable (word_of_int c) (kernel demo_ustate)"
    using demo_readable demo_system_ok by (auto simp: demo_cenv_def)
  obtain m' t where m': "snapshot_cores demo_cenv 1 2 (\<lambda>_. 0, demo_ustate) = Some (2, m', t)"
      "\<forall>c \<in> {1..2}. row_shows demo_cenv (kernel t) m' (c - 1) c" "\<forall>k > row_slot 2. m' k = 0"
    using snapshot_rows [OF _ _ _ ok, of "\<lambda>_. 0"] by (auto simp: const_simps)
  have "get_int m' (row_slot (c - 1)) = c" if "c \<in> {1..2}" for c using m'(2) that by (auto simp: row_shows_def)
  from this [of 1] this [of 2] show ?thesis using m'(1,3) by (simp add: row_slot_def const_simps)
qed

section \<open>Leaving the console\<close>

lemma big_core_fails: "MAX_CORES \<le> lst \<Longrightarrow> update_console_snapshot e first lst st = Some (-1, st)"
  by (simp add: update_console_snapshot_def)

lemma big_core_loop: "MAX_CORES \<le> lst \<Longrightarrow> console_loop first lst passes st = Some (False, st)"
  by (induction first lst passes st rule: console_loop.induct) (auto simp: console_pass_def big_core_fails)

text \<open>
  Claim C37: the console on processors with large core numbers. When the last efficient core has a
  number of 64 or more, the console never reads the keyboard: for every sequence of keys and
  whatever the kernel answers, the program is in the same state as without any key, and it has not
  ended with status 0; the key that quits has no effect.
\<close>

theorem console_cannot_quit:
  assumes "MAX_CORES \<le> snd (get_efficient_core_ids (hardware ie))"
  shows "console_main ge re ie e passes st = console_main ge re ie e [] st \<and>
    (\<forall>status t. console_main ge re ie e passes st = Some (status, t) \<longrightarrow> status \<noteq> Some 0)"
proof -
  obtain first lst where c: "get_efficient_core_ids (hardware ie) = (first, lst)" by (cases "get_efficient_core_ids (hardware ie)")
  then have "MAX_CORES \<le> lst" using assms by simp
  note loop = big_core_loop [OF this]
  show ?thesis
    by (auto simp: console_main_def console_detect_cores_def c loop Let_def split: if_splits bind_splits)
qed

text \<open>A processor without hybrid cores and 144 efficient ones.\<close>

definition demo_ienv :: ienv where
  "demo_ienv = \<lparr>pcie_init_ok = True, mode_env = demo_uenv, detect_env = demo_uenv, trigger_env = demo_uenv,
     config_env = demo_uenv, hardware = \<lparr>getaffinity_ok = True, setaffinity_ok = (\<lambda>_. True), restore_ok = (\<lambda>_. True),
       cpuid_1a = (\<lambda>_. 0x20000000), cpuid_07_edx = 0, nprocs = 144\<rparr>,
     pci_bus = [], physical = \<lparr>mem_open = 3, mem_map = (\<lambda>_. 0), mem_read = (\<lambda>_. 0)\<rparr>, dmi_table = None,
     dmi_stack = (\<lambda>_ _. 0)\<rparr>"

definition demo_console :: console_state where
  "demo_console = \<lparr>snap = (\<lambda>_. 0), client = demo_ustate,
     ddr_pmu = \<lparr>u_interface_type = 0, u_num_controllers = 0, u_ddr = zero_ddr, mapped_ranges = []\<rparr>,
     info = \<lparr>is_hybrid = 0, first_core = 0, last_core = 0, confirmed_bar = 0, confirmed_ddr_type = 0, num_ddr_channels = 0,
       theoretical_bw = 0\<rparr>, current_view = 0, offset = 0, metrics = 50\<rparr>"

theorem console_cannot_quit_witness:
  "console_main demo_uenv demo_uenv demo_ienv demo_cenv [(demo_cenv, 40, Some (Key_Char CHR ''q''))] demo_console =
   console_main demo_uenv demo_uenv demo_ienv demo_cenv [] demo_console"
proof -
  have "get_efficient_core_ids (hardware demo_ienv) = (0, 143)"
    by (simp add: get_efficient_core_ids_def get_hybridflag_def get_core_type_def demo_ienv_def E_CORE_def)
  then show ?thesis using console_cannot_quit [of demo_ienv] by (simp add: const_simps)
qed

section \<open>Scrolling\<close>

text \<open>The offset stays in range, whatever keys arrive.\<close>

lemma scrollable_in_range:
  assumes "0 \<le> k" and "k \<le> max 0 (num_metrics - (max_rows - 4))"
  shows "0 \<le> scrollable ch max_rows num_metrics k" and
    "scrollable ch max_rows num_metrics k \<le> max 0 (num_metrics - (max_rows - 4))"
  using assms by (auto simp: scrollable_def Let_def)

text \<open>The offset only appears in the line that names the visible range: scrolling does not change
  which rows are shown.\<close>

definition core_lines :: "int \<Rightarrow> printed_text list \<times> printed_text list \<Rightarrow> printed_text list" where
  "core_lines max_rows v = filter (\<lambda>(y, x, s). y \<noteq> max_rows - 2) (fst v)"

lemma scrolling_has_no_effect:
  "map_option (core_lines max_rows) (pmu_view max_rows a num_metrics m) = map_option (core_lines max_rows) (pmu_view max_rows b num_metrics m)"
  "map_option (core_lines max_rows) (msr_view max_rows a num_metrics m) = map_option (core_lines max_rows) (msr_view max_rows b num_metrics m)"
  by (cases "view_rows pmu_row (max_rows - 8) m"; cases "view_rows msr_row (max_rows - 8) m";
      simp add: pmu_view_def msr_view_def core_lines_def)+


end
