(* ===== verification/Json_Config.thy ===== *)
theory Json_Config
  imports C_String
begin

text \<open>
  \<open>json_parser.c\<close>: the configuration file as an argument vector for \<open>getopt_long\<close>. The cJSON
  library is a parameter: \<open>parse\<close> gives the items of the document in order; an item has a name (none
  inside an array) and a value. The text that \<open>cJSON_Print\<close> returns for an array or another value,
  if it returns any, and the text that \<open>printf\<close> gives for a number are part of the value.
  \<open>cJSON_GetObjectItem\<close> finds the first item whose name is equal up to the case of letters.

  The state is the vector of \<open>JSON_MAX_ARG\<close> pointers, null or the string in the block pointed to,
  and the number of live blocks. Writing outside the vector is undefined, \<open>None\<close>; so is the use
  of the name of an item that has none. \<open>junk\<close> is what a fresh block contains.
\<close>

definition JSON_BUFFER_SIZE :: nat where [const_simps]: "JSON_BUFFER_SIZE = 1024"
definition JSON_MAX_ARG :: nat where [const_simps]: "JSON_MAX_ARG = 50"

datatype json_value = JS_String string | JS_Number string | JS_Bool bool | JS_Array "string option" | JS_Other "string option"

record json_item =
  item_name :: "string option"
  item_value :: json_value

record json_state =
  json_argv :: "nat \<Rightarrow> string option"
  json_blocks :: int

record json_env =
  json_file :: "string option"
  parse :: "string \<Rightarrow> json_item list option"
  jmalloc_ok :: "nat \<Rightarrow> bool"
  junk :: "nat \<Rightarrow> string"

definition set_arg :: "nat \<Rightarrow> string option \<Rightarrow> json_state \<Rightarrow> json_state option" where
  "set_arg i p s = (if i < JSON_MAX_ARG then Some (s\<lparr>json_argv := (json_argv s)(i := p)\<rparr>) else None)"

text \<open>\<open>json_init\<close>; \<open>None\<close> inside is the null pointer after a failed allocation.\<close>

definition json_init :: "bool \<Rightarrow> int \<Rightarrow> int \<times> json_state option" where
  "json_init malloc_ok blocks =
     (if \<not> malloc_ok then (-1, None) else (0, Some \<lparr>json_argv = (\<lambda>_. None), json_blocks = blocks + 1\<rparr>))"

text \<open>\<open>snprintf\<close> into a block of \<open>JSON_BUFFER_SIZE\<close> bytes.\<close>

definition fit :: "string \<Rightarrow> string" where "fit s = take (JSON_BUFFER_SIZE - 1) s"

definition unquote :: "string \<Rightarrow> string" where
  "unquote s = (if s \<noteq> [] \<and> hd s = CHR 0x22 \<and> last s = CHR 0x22 then butlast (tl s) else s)"

text \<open>The copy without brackets: \<open>n\<close> characters of the block are still free.\<close>

fun strip_brackets :: "nat \<Rightarrow> string \<Rightarrow> string" where
  "strip_brackets n [] = []"
| "strip_brackets n (c # s) =
     (if n = 0 then []
      else if c \<noteq> CHR ''['' \<and> c \<noteq> CHR '']'' then c # strip_brackets (n - 1) s
      else strip_brackets n s)"

definition value_text :: "string \<Rightarrow> json_value \<Rightarrow> string" where
  "value_text fresh v =
     (case v of
        JS_String s \<Rightarrow> fit (unquote s)
      | JS_Number s \<Rightarrow> fit s
      | JS_Bool b \<Rightarrow> fit (if b then ''true'' else ''false'')
      | JS_Array None \<Rightarrow> fresh
      | JS_Array (Some s) \<Rightarrow> strip_brackets (JSON_BUFFER_SIZE - 1) (tl s)
      | JS_Other None \<Rightarrow> fresh
      | JS_Other (Some s) \<Rightarrow> fit s)"

definition lower :: "char \<Rightarrow> char" where
  "lower c = (let k = (of_char c :: nat) in if 65 \<le> k \<and> k \<le> 90 then char_of (k + 32) else c)"

definition same_name :: "string \<Rightarrow> json_item \<Rightarrow> bool" where
  "same_name s it = (case item_name it of None \<Rightarrow> False | Some n \<Rightarrow> map lower n = map lower s)"

text \<open>\<open>cJSON_GetObjectItem(json, item->string)->string\<close>\<close>

definition found_name :: "json_item list \<Rightarrow> json_item \<Rightarrow> string option" where
  "found_name items it =
     do { n \<leftarrow> item_name it; f \<leftarrow> find (same_name n) items; item_name f }"

text \<open>One round of the loop over the items, the \<open>i\<close>th; \<open>Inl\<close> is the early return of \<open>-1\<close>.\<close>

definition json_step :: "json_env \<Rightarrow> json_item list \<Rightarrow> nat \<Rightarrow> json_item \<Rightarrow> json_state \<Rightarrow> (json_state + json_state) option" where
  "json_step e items i it s =
     (let ok1 = jmalloc_ok e (2 * i + 1); ok2 = jmalloc_ok e (2 * i + 2)
      in do { s \<leftarrow> set_arg (2 * i + 1) (if ok1 then Some (junk e (2 * i + 1)) else None) s;
              s \<leftarrow> set_arg (2 * i + 2) (if ok2 then Some (junk e (2 * i + 2)) else None) s;
              let s = s\<lparr>json_blocks := json_blocks s + of_bool ok1 + of_bool ok2\<rparr>;
              if \<not> ok1 \<or> \<not> ok2 then Some (Inl s)
              else do { name \<leftarrow> found_name items it;
                        s \<leftarrow> set_arg (2 * i + 1) (Some (fit name)) s;
                        s \<leftarrow> set_arg (2 * i + 2) (Some (value_text (junk e (2 * i + 2)) (item_value it))) s;
                        Some (Inr s) } })"

fun json_loop :: "json_env \<Rightarrow> json_item list \<Rightarrow> nat \<Rightarrow> json_item list \<Rightarrow> json_state \<Rightarrow> (json_state + nat \<times> json_state) option" where
  "json_loop e items i [] s = Some (Inr (i, s))"
| "json_loop e items i (it # its) s =
     (if i \<ge> JSON_MAX_ARG - 1 then Some (Inr (i, s))
      else do { r \<leftarrow> json_step e items i it s;
                case r of Inl s \<Rightarrow> Some (Inl s) | Inr s \<Rightarrow> json_loop e items (i + 1) its s })"

text \<open>The result and the vector.\<close>

definition json_parse :: "json_env \<Rightarrow> string \<Rightarrow> json_state \<Rightarrow> (int \<times> json_state) option" where
  "json_parse e prog s =
     (case json_file e of
        None \<Rightarrow> Some (-1, s)
      | Some content \<Rightarrow>
          (case parse e (take (JSON_BUFFER_SIZE - 1) content) of
             None \<Rightarrow> Some (-1, s)
           | Some items \<Rightarrow>
               if \<not> jmalloc_ok e 0 then Some (-1, s)
               else do { s \<leftarrow> set_arg 0 (Some (fit prog)) (s\<lparr>json_blocks := json_blocks s + 1\<rparr>);
                         r \<leftarrow> json_loop e items 0 items s;
                         case r of
                           Inl s \<Rightarrow> Some (-1, s)
                         | Inr (i, s) \<Rightarrow> do { s \<leftarrow> set_arg (2 * i + 1) None s; Some (2 * int i + 1, s) } }))"

text \<open>Frees the strings up to the first null pointer, then the vector; reading past its end is
  undefined. The result holds the number of live blocks; the vector is never null in the program.\<close>

fun free_from :: "nat \<Rightarrow> nat \<Rightarrow> json_state \<Rightarrow> json_state option" where
  "free_from 0 i s = None"
| "free_from (Suc k) i s =
     (case json_argv s i of None \<Rightarrow> Some s | Some _ \<Rightarrow> free_from k (i + 1) (s\<lparr>json_blocks := json_blocks s - 1\<rparr>))"

definition json_deinit :: "json_state \<Rightarrow> (int \<times> int) option" where
  "json_deinit s = do { s \<leftarrow> free_from JSON_MAX_ARG 0 s; Some (0, json_blocks s - 1) }"

section \<open>The argument vector\<close>

lemma strip_brackets_eq: "strip_brackets n s = take n (filter (\<lambda>c. c \<noteq> CHR ''['' \<and> c \<noteq> CHR '']'') s)"
  by (induction n s rule: strip_brackets.induct) (auto simp: take_Cons')

lemma found_name_exists:
  assumes "it \<in> set items" and "item_name it \<noteq> None"
  shows "\<exists>n. found_name items it = Some n"
proof -
  obtain k where k: "item_name it = Some k" using assms(2) by auto
  have "find (same_name k) items \<noteq> None" using assms(1) k by (auto simp: find_None_iff same_name_def)
  then obtain f where "find (same_name k) items = Some f" by auto
  moreover from this have "same_name k f" by (auto simp: find_Some_iff)
  ultimately show ?thesis using k by (auto simp: found_name_def same_name_def split: option.splits)
qed

definition name_of :: "json_item list \<Rightarrow> json_item \<Rightarrow> string" where
  "name_of items it = the (found_name items it)"

lemma json_step_ok:
  assumes "\<forall>j. jmalloc_ok e j" and "found_name items it \<noteq> None" and "2 * i + 2 < JSON_MAX_ARG"
  shows "json_step e items i it s = Some (Inr (s\<lparr>json_argv := (json_argv s)(2 * i + 1 := Some (fit (name_of items it)),
      2 * i + 2 := Some (value_text (junk e (2 * i + 2)) (item_value it))), json_blocks := json_blocks s + 2\<rparr>))"
proof -
  obtain n where "found_name items it = Some n" using assms(2) by auto
  then show ?thesis
    using assms(1,3) by (cases s) (simp add: json_step_def set_arg_def name_of_def fun_upd_twist Let_def)
qed

lemma json_step_overruns:
  assumes "\<not> 2 * i + 2 < JSON_MAX_ARG"
  shows "json_step e items i it s = None"
proof -
  have "\<not> (2 * i + 1 < JSON_MAX_ARG \<and> 2 * i + 2 < JSON_MAX_ARG)" using assms by simp
  then show ?thesis by (auto simp: json_step_def set_arg_def Let_def)
qed

text \<open>The vector after the items from \<open>i\<close> on were stored.\<close>

definition stored :: "json_env \<Rightarrow> json_item list \<Rightarrow> nat \<Rightarrow> json_item list \<Rightarrow> json_state \<Rightarrow> nat \<Rightarrow> string option" where
  "stored e items i its s k =
     (if 2 * i < k \<and> k \<le> 2 * (i + length its)
      then let it = its ! ((k - 1) div 2 - i)
           in Some (if odd k then fit (name_of items it) else value_text (junk e k) (item_value it))
      else json_argv s k)"

lemma stored_Cons:
  "stored e items i (it # its) s =
   stored e items (i + 1) its (s\<lparr>json_argv := (json_argv s)(2 * i + 1 := Some (fit (name_of items it)),
      2 * i + 2 := Some (value_text (junk e (2 * i + 2)) (item_value it))), json_blocks := b\<rparr>)"
proof
  fix k
  have "k = 2 * i + 1 \<or> k = 2 * i + 2 \<or> k \<le> 2 * i \<or> 2 * (i + 1) < k" by presburger
  then consider "k = 2 * i + 1" | "k = 2 * i + 2" | "k \<le> 2 * i" | "2 * (i + 1) < k" by blast
  then show "stored e items i (it # its) s k = stored e items (i + 1) its (s\<lparr>json_argv := (json_argv s)(2 * i + 1 := Some (fit (name_of items it)),
      2 * i + 2 := Some (value_text (junk e (2 * i + 2)) (item_value it))), json_blocks := b\<rparr>) k"
  proof cases
    case 4
    then have "(k - 1) div 2 - i = Suc ((k - 1) div 2 - (i + 1))" by simp
    then show ?thesis using 4 by (simp add: stored_def)
  qed (simp_all add: stored_def)
qed

lemma json_loop_stores:
  assumes "\<forall>j. jmalloc_ok e j" and "\<forall>it \<in> set its. found_name items it \<noteq> None" and "2 * (i + length its) < JSON_MAX_ARG"
  shows "json_loop e items i its s = Some (Inr (i + length its,
    s\<lparr>json_argv := stored e items i its s, json_blocks := json_blocks s + 2 * int (length its)\<rparr>))"
  using assms(2,3)
proof (induction its arbitrary: i s)
  case Nil
  have "stored e items i [] s = json_argv s" by (rule ext) (auto simp: stored_def)
  then show ?case by simp
next
  case (Cons it its)
  have i: "\<not> i \<ge> JSON_MAX_ARG - 1" "2 * i + 2 < JSON_MAX_ARG" using Cons.prems(2) by auto
  have f: "found_name items it \<noteq> None" using Cons.prems(1) by simp
  show ?case
    using Cons.IH [of "i + 1"] Cons.prems i json_step_ok [OF assms(1) f i(2), of s]
      stored_Cons [of e items i it its s "json_blocks s + 2"] by simp
qed

lemma json_loop_overruns:
  assumes "\<forall>j. jmalloc_ok e j" and "\<forall>it \<in> set its. found_name items it \<noteq> None" and "\<not> 2 * (i + length its) < JSON_MAX_ARG"
    and "2 * i < JSON_MAX_ARG"
  shows "json_loop e items i its s = None"
  using assms(2-4)
proof (induction its arbitrary: i s)
  case Nil
  then show ?case by simp
next
  case (Cons it its)
  have i: "\<not> i \<ge> JSON_MAX_ARG - 1" using Cons.prems(3) by (simp add: const_simps)
  show ?case
  proof (cases "2 * i + 2 < JSON_MAX_ARG")
    case False
    then show ?thesis using json_step_overruns [OF False] i by simp
  next
    case True
    have f: "found_name items it \<noteq> None" using Cons.prems(1) by simp
    show ?thesis using Cons.IH [of "i + 1"] Cons.prems True i json_step_ok [OF assms(1) f True, of s] by simp
  qed
qed

lemma free_from_counts:
  assumes "\<forall>k < n. json_argv s (i + k) \<noteq> None" and "json_argv s (i + n) = None" and "n < m"
  shows "free_from m i s = Some (s\<lparr>json_blocks := json_blocks s - int n\<rparr>)"
  using assms
proof (induction n arbitrary: i m s)
  case 0
  then show ?case by (cases m) auto
next
  case (Suc n)
  obtain k where m: "m = Suc k" using Suc.prems(3) by (cases m) auto
  obtain t where "json_argv s i = Some t" using Suc.prems(1) [rule_format, of 0] by auto
  moreover have "\<forall>k < n. json_argv (s\<lparr>json_blocks := json_blocks s - 1\<rparr>) (i + 1 + k) \<noteq> None"
    using Suc.prems(1) by (metis Suc_mono add.assoc json_state.select_convs(1) json_state.surjective json_state.update_convs(2) plus_1_eq_Suc)
  ultimately show ?case
    using Suc.IH [of "s\<lparr>json_blocks := json_blocks s - 1\<rparr>" "i + 1" k] Suc.prems(2,3) m by simp
qed

lemma json_parse_small:
  assumes "json_file e = Some content" and "parse e (take (JSON_BUFFER_SIZE - 1) content) = Some items"
    and "\<forall>j. jmalloc_ok e j" and "\<forall>it \<in> set items. item_name it \<noteq> None" and "2 * length items < JSON_MAX_ARG - 1"
    and "s = \<lparr>json_argv = (\<lambda>_. None), json_blocks = b\<rparr>"
  shows "json_parse e prog s = Some (2 * int (length items) + 1,
    \<lparr>json_argv = (stored e items 0 items (s\<lparr>json_argv := [0 \<mapsto> fit prog]\<rparr>))(2 * length items + 1 := None),
     json_blocks = b + 1 + 2 * int (length items)\<rparr>)"
proof -
  have "\<forall>it \<in> set items. found_name items it \<noteq> None" using assms(4) found_name_exists by fastforce
  moreover have "2 * (0 + length items) < JSON_MAX_ARG" using assms(5) by simp
  ultimately have l: "json_loop e items 0 items t = Some (Inr (length items,
      t\<lparr>json_argv := stored e items 0 items t, json_blocks := json_blocks t + 2 * int (length items)\<rparr>))" for t
    using json_loop_stores [OF assms(3), of items items 0 t] by simp
  have st: "stored e items 0 items t = stored e items 0 items t'" if "json_argv t = json_argv t'" for t t'
    using that by (simp add: stored_def fun_eq_iff)
  show ?thesis
    using assms(1-3,5) st [of "\<lparr>json_argv = [0 \<mapsto> fit prog], json_blocks = b + 1\<rparr>" "s\<lparr>json_argv := [0 \<mapsto> fit prog]\<rparr>"]
    by (simp add: json_parse_def set_arg_def l assms(6) JSON_MAX_ARG_def)
qed

text \<open>
  Claim C38: reading the configuration file. When nothing fails and the document is an object with
  \<open>n\<close> entries, \<open>json_parse\<close> writes outside its vector of fifty pointers exactly when \<open>n\<close> is 25 or
  more. Up to 24 entries it returns \<open>2 n + 1\<close> and the vector holds the program's name, then the
  name and the text of the value of each entry in the order of the file, then a null pointer;
  \<open>json_deinit\<close> then frees every block that \<open>json_init\<close> and \<open>json_parse\<close> allocated.
\<close>

theorem json_vector:
  assumes "json_file e = Some content" and "parse e (take (JSON_BUFFER_SIZE - 1) content) = Some items"
    and "\<forall>j. jmalloc_ok e j" and "\<forall>it \<in> set items. item_name it \<noteq> None"
    and "json_init True blocks = (0, Some s)"
  shows "if length items \<le> 24
    then \<exists>t. json_parse e prog s = Some (2 * int (length items) + 1, t) \<and> json_argv t 0 = Some (fit prog) \<and>
      (\<forall>i < length items. json_argv t (2 * i + 1) = Some (fit (name_of items (items ! i))) \<and>
         json_argv t (2 * i + 2) = Some (value_text (junk e (2 * i + 2)) (item_value (items ! i)))) \<and>
      json_argv t (2 * length items + 1) = None \<and> json_deinit t = Some (0, blocks)
    else json_parse e prog s = None"
proof (cases "length items \<le> 24")
  case True
  let ?n = "length items"
  have s: "s = \<lparr>json_argv = (\<lambda>_. None), json_blocks = blocks + 1\<rparr>" using assms(5) by (simp add: json_init_def)
  define t where "t = \<lparr>json_argv = (stored e items 0 items (s\<lparr>json_argv := [0 \<mapsto> fit prog]\<rparr>))(2 * ?n + 1 := None),
      json_blocks = blocks + 1 + 1 + 2 * int ?n\<rparr>"
  have "json_parse e prog s = Some (2 * int ?n + 1, t)"
    using json_parse_small [OF assms(1-4) _ s, of prog] True by (simp add: t_def JSON_MAX_ARG_def)
  moreover have v: "json_argv t 0 = Some (fit prog)" "json_argv t (2 * ?n + 1) = None" by (simp_all add: t_def stored_def)
  moreover have a: "json_argv t (2 * i + 1) = Some (fit (name_of items (items ! i)))"
      "json_argv t (2 * i + 2) = Some (value_text (junk e (2 * i + 2)) (item_value (items ! i)))" if "i < ?n" for i
    using that by (simp_all add: t_def stored_def)
  moreover have "json_deinit t = Some (0, blocks)"
  proof -
    have "json_argv t (0 + k) \<noteq> None" if "k < 2 * ?n + 1" for k
    proof (cases "k = 0")
      case False
      have "\<exists>i. k = 2 * i + 1 \<or> k = 2 * i + 2" using False by presburger
      then obtain i where "k = 2 * i + 1 \<or> k = 2 * i + 2" by blast
      then show ?thesis using a [of i] that by auto
    qed (simp add: v)
    then have "free_from JSON_MAX_ARG 0 t = Some (t\<lparr>json_blocks := json_blocks t - int (2 * ?n + 1)\<rparr>)"
      using v(2) True by (intro free_from_counts) (auto simp: JSON_MAX_ARG_def)
    then show ?thesis by (simp add: json_deinit_def t_def)
  qed
  ultimately show ?thesis using True by auto
next
  case False
  have s: "s = \<lparr>json_argv = (\<lambda>_. None), json_blocks = blocks + 1\<rparr>" using assms(5) by (simp add: json_init_def)
  have "\<forall>it \<in> set items. found_name items it \<noteq> None" using assms(4) found_name_exists by fastforce
  moreover have "\<not> 2 * (0 + length items) < JSON_MAX_ARG" "2 * 0 < JSON_MAX_ARG" using False by (simp_all add: JSON_MAX_ARG_def)
  ultimately have "json_loop e items 0 items t = None" for t using json_loop_overruns [OF assms(3)] by blast
  then show ?thesis using False assms(1-3) by (simp add: json_parse_def set_arg_def)
qed

definition demo_items :: "json_item list" where
  "demo_items = [\<lparr>item_name = Some ''--core'', item_value = JS_String ''8-15''\<rparr>,
     \<lparr>item_name = Some ''--weight'', item_value = JS_Array (Some ''[1, 2]'')\<rparr>]"

definition demo_json_env :: json_env where
  "demo_json_env = \<lparr>json_file = Some ''{}'', parse = (\<lambda>_. Some demo_items), jmalloc_ok = (\<lambda>_. True), junk = (\<lambda>_. [])\<rparr>"

theorem json_vector_witness:
  "(\<exists>t. json_parse demo_json_env ''dpf'' \<lparr>json_argv = (\<lambda>_. None), json_blocks = 1\<rparr> = Some (5, t) \<and>
     json_argv t 2 = Some ''8-15'' \<and> json_argv t 4 = Some ''1, 2'' \<and> json_deinit t = Some (0, 0)) \<and>
   json_parse (demo_json_env\<lparr>parse := (\<lambda>_. Some (replicate 25 (hd demo_items)))\<rparr>) ''dpf''
     \<lparr>json_argv = (\<lambda>_. None), json_blocks = 1\<rparr> = None"
proof
  let ?s = "\<lparr>json_argv = (\<lambda>_. None), json_blocks = 1\<rparr>" and ?big = "demo_json_env\<lparr>parse := (\<lambda>_. Some (replicate 25 (hd demo_items)))\<rparr>"
  have i: "json_init True 0 = (0, Some ?s)" by (simp add: json_init_def)
  have d: "length demo_items = 2" "demo_items ! 0 = hd demo_items" "item_value (demo_items ! 0) = JS_String ''8-15''"
      "item_value (demo_items ! 1) = JS_Array (Some ''[1, 2]'')" "\<forall>it \<in> set demo_items. item_name it \<noteq> None"
    by (simp_all add: demo_items_def)
  have v: "value_text [] (JS_String ''8-15'') = ''8-15''" "value_text [] (JS_Array (Some ''[1, 2]'')) = ''1, 2''"
    by (simp_all add: value_text_def fit_def unquote_def strip_brackets_eq JSON_BUFFER_SIZE_def)
  have e: "json_file demo_json_env = Some ''{}''" "parse demo_json_env (take (JSON_BUFFER_SIZE - 1) ''{}'') = Some demo_items"
      "\<forall>j. jmalloc_ok demo_json_env j" "junk demo_json_env k = []" for k by (simp_all add: demo_json_env_def)
  obtain t where t: "json_parse demo_json_env ''dpf'' ?s = Some (5, t)" "\<forall>i < 2. json_argv t (2 * i + 2) =
      Some (value_text (junk demo_json_env (2 * i + 2)) (item_value (demo_items ! i)))" "json_deinit t = Some (0, 0)"
    using json_vector [OF e(1,2,3) d(5) i, of "''dpf''"] d(1) by auto
  show "\<exists>t. json_parse demo_json_env ''dpf'' ?s = Some (5, t) \<and> json_argv t 2 = Some ''8-15'' \<and>
      json_argv t 4 = Some ''1, 2'' \<and> json_deinit t = Some (0, 0)"
    using t(1,3) t(2) [rule_format, of 0] t(2) [rule_format, of 1] d(3,4) v e(4) by (intro exI [of _ t]) (simp add: eval_nat_numeral)
  have b: "json_file ?big = Some ''{}''" "parse ?big (take (JSON_BUFFER_SIZE - 1) ''{}'') = Some (replicate 25 (hd demo_items))"
      "\<forall>j. jmalloc_ok ?big j" "\<forall>it \<in> set (replicate 25 (hd demo_items)). item_name it \<noteq> None"
    by (simp_all add: demo_json_env_def demo_items_def)
  show "json_parse ?big ''dpf'' ?s = None" using json_vector [OF b i, of "''dpf''"] by simp
qed


end
