(* ===== verification/Cpuid_Tool.thy ===== *)
theory Cpuid_Tool
  imports Sysdetect C_String
begin

text \<open>
  The tool \<open>tools/get_cpuid.c\<close>, which prints the range of E-cores: its own copy of the detection in
  \<open>sysdetect.c\<close>, with the text it prints. The parameters are those of \<open>Sysdetect\<close> and the number of
  configured cores. The theorem: the tool finds the same range as the library, and the count it
  prints is the number of E-cores.
\<close>

definition tool_core_type :: "sys_env \<Rightarrow> int \<Rightarrow> int \<times> string" where
  "tool_core_type e core_number =
     (if \<not> getaffinity_ok e then (-1, ''Error getting current CPU affinity'')
      else if \<not> setaffinity_ok e core_number then (-2, ''Error setting CPU affinity'')
      else let core_value = uint (drop_bit 0x18 (cpuid_1a e core_number))
           in if \<not> restore_ok e core_number then (-3, ''Error restoring original CPU affinity'') else (core_value, []))"

definition tool_hybridflag :: "sys_env \<Rightarrow> u32" where
  "tool_hybridflag e = (drop_bit 0xf (cpuid_07_edx e)) AND 1"

fun tool_scan :: "sys_env \<Rightarrow> int list \<Rightarrow> int \<times> int \<times> nat \<times> string \<Rightarrow> int \<times> int \<times> nat \<times> string" where
  "tool_scan e [] st = st"
| "tool_scan e (i # is) (lo, hi, efficient_count, out) =
     (let (ty, msg) = tool_core_type e i
      in if ty = 0x20
         then tool_scan e is (if efficient_count = 0 then i else lo, i, efficient_count + 1, out @ msg)
         else tool_scan e is (lo, hi, efficient_count, out @ msg))"

definition results :: "nat \<Rightarrow> nat \<Rightarrow> int \<times> int \<Rightarrow> string" where
  "results total_cores efficient_count r =
     line (''Total CPU'' @ [CHR 0x27] @ ''s Available: '' @ dec total_cores) @
     line (line (''Total Efficient Cores: '' @ dec efficient_count)) @
     line (''First Atom E-Core: CPU('' @ dec_int (fst r) @ '')'') @
     line (line (''Last Atom E-Core: CPU('' @ dec_int (snd r) @ '')''))"

definition tool_efficient_core_ids :: "sys_env \<Rightarrow> nat \<Rightarrow> (int \<times> int) \<times> string" where
  "tool_efficient_core_ids e total_cores =
     (let available_cores = nat (nprocs e);
          warning = (if total_cores > available_cores
                     then line ''WARNING!!...'' @
                          line (line (dec (total_cores - available_cores) @ '' core(s) might be busy or unavailable..''))
                     else []);
          (lo, hi, efficient_count, out) =
            (if tool_hybridflag e = 1
             then tool_scan e (map int [0..<available_cores]) (-1, -1, 0, line [] @ line ''Hybrid Processor'' @ line ''----------------'')
             else let (ty, msg) = tool_core_type e 0; out = line [] @ line ''Non-hybrid Processor'' @ line ''----------------'' @ msg
                  in if ty = 0x20 then (0, nprocs e - 1, available_cores, out) else (-1, -1, 0, out))
      in ((lo, hi), warning @ out @ results total_cores efficient_count (lo, hi)))"

section \<open>Agreement with the library\<close>

lemma tool_core_type_eq: "fst (tool_core_type e i) = get_core_type e i"
  by (simp add: tool_core_type_def get_core_type_def Let_def)

lemma tool_scan_agrees:
  "\<exists>out'. tool_scan e is (lo, hi, n, out) =
     (fst (e_core_scan e is (lo, hi, int n)), snd (e_core_scan e is (lo, hi, int n)),
      n + length (filter (\<lambda>i. get_core_type e i = E_CORE) is), out')"
proof (induction "is" arbitrary: lo hi n out)
  case Nil
  then show ?case by simp
next
  case (Cons i "is")
  obtain ty msg where t: "tool_core_type e i = (ty, msg)" by (cases "tool_core_type e i")
  then have ty: "ty = get_core_type e i" using tool_core_type_eq [of e i] by simp
  show ?case
  proof (cases "ty = 0x20")
    case True
    then show ?thesis
      using Cons [of "if n = 0 then i else lo" i "n + 1" "out @ msg"] t ty by (auto simp: E_CORE_def add.commute)
  next
    case False
    then show ?thesis using Cons [of lo hi n "out @ msg"] t ty by (simp add: E_CORE_def)
  qed
qed

lemma card_e_cores:
  "length (filter (\<lambda>i. get_core_type e i = E_CORE) (map int [0..<n])) = card {i. 0 \<le> i \<and> i < int n \<and> get_core_type e i = E_CORE}"
proof -
  have "{i. 0 \<le> i \<and> i < int n \<and> get_core_type e i = E_CORE} = set (filter (\<lambda>i. get_core_type e i = E_CORE) (map int [0..<n]))"
    by (auto simp: image_iff intro: bexI [of _ "nat i" for i])
  moreover have "distinct (map int [0..<n])" by (simp add: distinct_map)
  ultimately show ?thesis using distinct_card distinct_filter by metis
qed

text \<open>
  Claim C40: the tool and the library agree. Whatever the processor and the system answer, the tool
  returns the range of E-cores that \<open>get_efficient_core_ids\<close> of the library returns, and its output
  ends with the report of that range and of the number of cores whose type is read as E-core; on a
  processor that is not hybrid that is all available cores or none.
\<close>

theorem cpuid_tool_agrees:
  "\<exists>out. tool_efficient_core_ids e total_cores =
     (get_efficient_core_ids e, out @ results total_cores
        (if get_hybridflag e = 1 then card {i. 0 \<le> i \<and> i < nprocs e \<and> get_core_type e i = E_CORE}
         else if get_core_type e 0 = E_CORE then nat (nprocs e) else 0) (get_efficient_core_ids e))"
proof -
  have h: "tool_hybridflag e = get_hybridflag e" by (simp add: tool_hybridflag_def get_hybridflag_def)
  obtain ty msg where t: "tool_core_type e 0 = (ty, msg)" by (cases "tool_core_type e 0")
  then have ty: "ty = get_core_type e 0" using tool_core_type_eq [of e 0] by simp
  have n: "{i. 0 \<le> i \<and> i < nprocs e \<and> get_core_type e i = E_CORE} = {i. 0 \<le> i \<and> i < int (nat (nprocs e)) \<and> get_core_type e i = E_CORE}"
    by auto
  show ?thesis
  proof (cases "get_hybridflag e = 1")
    case True
    obtain out where "tool_scan e (map int [0..<nat (nprocs e)]) (-1, -1, 0, line [] @ line ''Hybrid Processor'' @ line ''----------------'') =
        (fst (get_efficient_core_ids e), snd (get_efficient_core_ids e),
         card {i. 0 \<le> i \<and> i < nprocs e \<and> get_core_type e i = E_CORE}, out)"
      using tool_scan_agrees [of e "map int [0..<nat (nprocs e)]" "-1" "-1" 0] True
      unfolding n card_e_cores [symmetric] by (fastforce simp: get_efficient_core_ids_def)
    then show ?thesis using True h by (simp add: tool_efficient_core_ids_def Let_def)
  next
    case False
    then show ?thesis using h t ty by (auto simp: tool_efficient_core_ids_def get_efficient_core_ids_def E_CORE_def Let_def)
  qed
qed


end
