(* ===== verification/Log_Output.thy ===== *)
theory Log_Output
  imports C_String
begin

text \<open>
  \<open>log.c\<close>: the level of the log, the text of a message and the tag with file and line. The
  formatted message and the text of \<open>ctime\<close>, which ends in a newline, are parameters; the result
  of \<open>loglevel\<close> is what \<open>vprintf\<close> returns, the length of the message. A tag that does not fit its
  static buffer of 180 bytes is undefined.
\<close>

definition default_loglevel :: int where "default_loglevel = 5"

definition log_setlevel :: "int \<Rightarrow> int \<Rightarrow> int \<times> int" where
  "log_setlevel level runtime_loglevel =
     (if level > 5 \<or> level < 1 then (0, runtime_loglevel) else (level, level))"

definition mergetags :: "string \<Rightarrow> string \<Rightarrow> int \<Rightarrow> string option" where
  "mergetags t f l =
     (let s = t @ '' '' @ f @ ''+'' @ dec_int l in if length s + 1 > 180 then None else Some s)"

definition loglevel :: "string \<Rightarrow> int \<Rightarrow> int \<Rightarrow> string \<Rightarrow> string \<Rightarrow> int \<times> string" where
  "loglevel now runtime_loglevel level tag message =
     (if level > runtime_loglevel then (0, [])
      else (int (length message), dec_int level @ '' '' @ butlast now @ '' '' @ tag @ ''|'' @ message))"

text \<open>Whatever levels are requested, the level in force is one of the five, and messages of level 1
  are always printed.\<close>

lemma setlevel_in_range: "1 \<le> r \<and> r \<le> 5 \<Longrightarrow> 1 \<le> snd (log_setlevel level r) \<and> snd (log_setlevel level r) \<le> 5"
  by (simp add: log_setlevel_def)

lemma alerts_are_printed:
  "snd (loglevel now (foldl (\<lambda>r l. snd (log_setlevel l r)) default_loglevel ls) 1 tag message) \<noteq> []"
proof -
  have "1 \<le> foldl (\<lambda>r l. snd (log_setlevel l r)) r ls \<and> foldl (\<lambda>r l. snd (log_setlevel l r)) r ls \<le> 5" if "1 \<le> r \<and> r \<le> 5" for r
    using that by (induction ls arbitrary: r) (simp_all add: setlevel_in_range)
  from this [of default_loglevel] show ?thesis by (simp add: loglevel_def default_loglevel_def)
qed


end
