(* ===== verification/Spec2Isabelle.thy ===== *)
theory Spec2Isabelle
  imports Msr Kernel_Dpf User_Api Rdt_Mbm User_Mab User_Pmu User_Primitive User_Threads User_Main Msr_Tool
    Dpf_Ctrl Console Json_Config Cpuid_Tool Log_Output
begin

text \<open>
  A verification library for the dynamic prefetching software. The program watches performance
  counters and the memory bandwidth of Intel E-cores and changes the hardware prefetchers through
  model-specific registers (MSRs). It exists twice: as a user-space program with one thread per core
  (\<open>main.c\<close>), and as a kernel module (\<open>kernelmod/\<close>) that user-space programs control with requests
  written to and responses read from a proc file (\<open>user_api.c\<close>, the command line client and the
  console). Four cores form a module and share the prefetch settings, so only one core of a module,
  its leader, writes them. Two tuning methods exist on both sides: a heuristic (\<open>primitive\<close>) and a
  multi-armed bandit (\<open>mab\<close>).

  \<^bold>\<open>Foundations.\<close>
  \<^item> \<open>Dpf_Prelude\<close>: arrays with bounds, \<open>int\<close> wrap-around, counted loops with a total-correctness rule,
    little-endian bytes, bit fields, the locales \<open>reg_field\<close> and \<open>field_pair\<close> for what a client of a
    register field relies on.
  \<^item> \<open>C_Float\<close>: IEEE single and double arithmetic by exact rational values and rounding to nearest even,
    with infinities and not-a-number. \<open>C_String\<close>: \<open>strtol\<close>, \<open>strtok\<close> and number output with their round trips.
  \<^item> \<open>Atom_Msr\<close> (\<open>include/atom_msr.h\<close>): the bit-field structures of the nine registers; members do not
    overlap. \<open>Ddr_Types\<close> (\<open>include/pmu_ddr.h\<close>).

  \<^bold>\<open>The kernel module\<close> (\<open>kernelmod/\<close>); one record grows along the theories, as the module's globals do.
  \<^item> \<open>Kernel_Common\<close>: per-core state, counter sampling, loading and storing of registers.
  \<^item> \<open>Kernel_Mab\<close>: the bandit. Leader election, scores, the scan of the arms of a new module, tuning.
    The scan refines an abstract life cycle of a module and settles on the best measured arm.
  \<^item> \<open>Kernel_Ddr\<close>: memory controller counters. Mapping is all or nothing, and in any
    sequence of readings every transfer is counted once.
  \<^item> \<open>Kernel_Primitive\<close>: the heuristic with both algorithms; limits and the vote of a module.
  \<^item> \<open>Kernel_Api\<close>: all request handlers and the counter log. The locale \<open>request_handler\<close> is the contract
    between the proc file and a handler, \<open>bounded_log\<close> that of the log; both are interpreted on the
    handlers and the log of the code.
  \<^item> \<open>Kernel_Dpf\<close>: the proc file, the periodic work, timer, loading and unloading. Reachable states under
    any order of requests, timer interrupts and work are an inductive predicate; the invariant on
    memory and mappings, the release of everything at unloading, and the refinement of one tick
    of a core are proved over it.

  \<^bold>\<open>User space.\<close>
  \<^item> \<open>User_Api\<close> (\<open>user_api.c\<close>): every request, connected to the kernel model, so that the theorems go
    from the call through the proc file to the kernel's state, the undefined cases included; \<open>tidy_call\<close>
    is the contract of a call that leaks nothing, and the exceptions to it are exact.
  \<^item> \<open>Msr\<close> (\<open>msr.c\<close>), \<open>User_Pmu\<close> (\<open>pmu_core.c\<close>, \<open>pmu_ddr.c\<close>), \<open>Rdt_Mbm\<close> (\<open>rdt_mbm.c\<close>), \<open>Sysdetect\<close>
    (\<open>sysdetect.c\<close>): registers, perf events, bandwidth counters, system detection; read-back laws, all
    or nothing initialisation, progress of the counters, and the DMI reader against a specification
    of the table.
  \<^item> \<open>User_Mab\<close> (\<open>tuners/mab.c\<close>, \<open>mab_setup.c\<close>), \<open>User_Primitive\<close> (\<open>tuners/primitive.c\<close>): the tuners in IEEE
    arithmetic; indices stay in their tables, the first round measures every arm, settings stay in
    range.
  \<^item> \<open>User_Threads\<close> (\<open>main.c\<close>, the threads): every interleaving of the threads and the interrupt as a step
    relation on the shared flags (control) and on the tuner's data; what the master can count on, and
    the runs in which it waits forever.
  \<^item> \<open>User_Main\<close> (\<open>main.c\<close>): options, weights, targets, the session with the kernel and the start of the
    threads. \<open>Json_Config\<close> (\<open>json_parser.c\<close>): the argument vector from the configuration file.
    \<open>Log_Output\<close> (\<open>log.c\<close>).
  \<^item> \<open>Dpf_Ctrl\<close> (\<open>tools/cli\<close>), \<open>Console\<close> (\<open>tools/console\<close>), \<open>Msr_Tool\<close> (\<open>tools/msr2settings.c\<close>), \<open>Cpuid_Tool\<close>
    (\<open>tools/get_cpuid.c\<close>): the tools, composed with the library and the kernel where they use them.

  \<^bold>\<open>Conventions.\<close> Machine integers that can wrap are words or go through \<open>int32\<close>. A function that can
  misbehave returns an option, where \<open>None\<close> is undefined behaviour of C (an index out of range, a
  null or freed pointer, a division by zero, a conversion out of range); so a theorem that a function
  returns \<open>Some\<close> also says that it does not misbehave. In the user-space programs \<open>outcome\<close>
  distinguishes a value (\<open>Ret\<close>), leaving the program (\<open>Exit\<close>) and undefined behaviour (\<open>Undef\<close>).
  Error codes are values. Memory is a count of live blocks where only leaks matter, and an explicit
  store where copies overlap (\<open>Console\<close>). What the system provides (allocations that may fail,
  device contents, clocks, random numbers, uninitialised memory) is an environment record; nothing is
  assumed about it except where a theorem names a hypothesis, and such a theorem has a witness.

  \<^bold>\<open>Loops.\<close> Counted loops are total functions over the range; the loops over strings, tables and items
  recurse over the list or have a termination proof. Endless loops (the threads, the timer, the
  console) are step relations or take the list of passes, so no fuel is chosen anywhere; the claims
  about them hold for every length.

  \<^bold>\<open>Not modelled.\<close> Third-party code: cJSON, the PCI library (\<open>pcie.c\<close> only calls it), ncurses, perf, and
  the functions \<open>getopt_long\<close>, \<open>strtof\<close>, \<open>log\<close> and the formatting of floating-point numbers, all of
  which are parameters. Text printed to the log and to the terminal, except in the tools whose
  purpose it is; the header line and the window handling of the console; terminal settings. Of
  \<open>main.c\<close> the two \<open>exit(-1)\<close> of the start-up bandwidth test and the wrap-up after the master thread
  was joined (closing the memory device, \<open>rdt_mbm_reset\<close>, \<open>pcie_deinit\<close>). In the
  kernel the work of different cores is executed in some order, one core at a time: the module's data
  races on the shared tables are not visible in the model, while the interleavings of the user-space
  threads are.
\<close>

end
